(* ===== verification/GoPrelude.thy ===== *)
theory GoPrelude
  imports Main "HOL-Library.State_Monad" "HOL-Library.Monad_Syntax" "HOL-Library.Word"
begin

text \<open>
  The part of Go and of its standard library that every component uses: byte strings
  (a Go string is a sequence of bytes, so \<open>string\<close> with its 8-bit characters is exact),
  zero-valued map lookups, machine integers at their width, saturating durations, and error
  values with \<open>fmt.Errorf\<close> wrapping and \<open>errors.Is\<close>. It also holds the small calculus
  (\<open>wp\<close>) with which the state-passing code of the components is reasoned about.

  Characters outside ASCII are written as their UTF-8 bytes.
\<close>

named_theorems wp_simps
named_theorems emits_intros

section \<open>Byte strings\<close>

definition hasPrefix :: "string \<Rightarrow> string \<Rightarrow> bool" where
  "hasPrefix s p \<longleftrightarrow> take (length p) s = p"

definition trimPrefix :: "string \<Rightarrow> string \<Rightarrow> string" where
  "trimPrefix s p = (if hasPrefix s p then drop (length p) s else s)"

definition hasSuffix :: "string \<Rightarrow> string \<Rightarrow> bool" where
  "hasSuffix s p \<longleftrightarrow> hasPrefix (rev s) (rev p)"

lemma hasPrefix_append [simp]: "hasPrefix (p @ s) p"
  by (simp add: hasPrefix_def)

lemma trimPrefix_append [simp]: "trimPrefix (p @ s) p = s"
  by (simp add: trimPrefix_def)

lemma hasPrefixD: "hasPrefix s p \<Longrightarrow> s = p @ trimPrefix s p"
  by (metis append_take_drop_id hasPrefix_def trimPrefix_def)

text \<open>
  The encodings of the code points that \<open>unicode.IsSpace\<close> accepts; \<open>strings.TrimSpace\<close>
  removes them at both ends.
\<close>

definition space_encodings :: "string list" where
  "space_encodings =
     [[CHR 0x09], [CHR 0x0A], [CHR 0x0B], [CHR 0x0C], [CHR 0x0D], [CHR 0x20],
      [CHR 0xC2, CHR 0x85], [CHR 0xC2, CHR 0xA0], [CHR 0xE1, CHR 0x9A, CHR 0x80],
      [CHR 0xE2, CHR 0x80, CHR 0x80], [CHR 0xE2, CHR 0x80, CHR 0x81],
      [CHR 0xE2, CHR 0x80, CHR 0x82], [CHR 0xE2, CHR 0x80, CHR 0x83],
      [CHR 0xE2, CHR 0x80, CHR 0x84], [CHR 0xE2, CHR 0x80, CHR 0x85],
      [CHR 0xE2, CHR 0x80, CHR 0x86], [CHR 0xE2, CHR 0x80, CHR 0x87],
      [CHR 0xE2, CHR 0x80, CHR 0x88], [CHR 0xE2, CHR 0x80, CHR 0x89],
      [CHR 0xE2, CHR 0x80, CHR 0x8A], [CHR 0xE2, CHR 0x80, CHR 0xA8],
      [CHR 0xE2, CHR 0x80, CHR 0xA9], [CHR 0xE2, CHR 0x80, CHR 0xAF],
      [CHR 0xE2, CHR 0x81, CHR 0x9F], [CHR 0xE3, CHR 0x80, CHR 0x80]]"

text \<open>Drop the first of the given non-empty prefixes that matches, until none does.\<close>

function strip_front :: "string list \<Rightarrow> string \<Rightarrow> string" where
  "strip_front ps s =
     (case find (\<lambda>p. p \<noteq> [] \<and> hasPrefix s p) ps of
        None \<Rightarrow> s
      | Some p \<Rightarrow> strip_front ps (drop (length p) s))"
  by pat_completeness auto
termination
  by (relation "measure (\<lambda>(ps, s). length s)")
     (auto simp: find_Some_iff hasPrefix_def simp flip: length_greater_0_conv
       intro!: diff_less)

declare strip_front.simps [simp del]

definition trimSpace :: "string \<Rightarrow> string" where
  "trimSpace s =
     rev (strip_front (map rev space_encodings) (rev (strip_front space_encodings s)))"

lemma trimSpace_Nil [simp]: "trimSpace [] = []"
  by code_simp

definition index_of :: "char \<Rightarrow> string \<Rightarrow> nat option" where
  "index_of c s = (let n = length (takeWhile (\<lambda>x. x \<noteq> c) s) in if n < length s then Some n else None)"

definition last_index_of :: "char \<Rightarrow> string \<Rightarrow> nat option" where
  "last_index_of c s = (case index_of c (rev s) of None \<Rightarrow> None | Some n \<Rightarrow> Some (length s - Suc n))"

lemma index_of_None [simp]: "index_of c s = None \<longleftrightarrow> c \<notin> set s"
proof -
  have "length (takeWhile (\<lambda>x. x \<noteq> c) s) < length s \<longleftrightarrow> c \<in> set s"
    by (induction s) auto
  then show ?thesis by (simp add: index_of_def Let_def)
qed

lemma index_of_split:
  "index_of c s = Some n \<Longrightarrow> s = take n s @ c # drop (Suc n) s \<and> c \<notin> set (take n s) \<and> n < length s"
proof -
  assume a: "index_of c s = Some n"
  then have n: "n = length (takeWhile (\<lambda>x. x \<noteq> c) s)" and l: "n < length s"
    by (auto simp: index_of_def Let_def split: if_splits)
  have t: "take n s = takeWhile (\<lambda>x. x \<noteq> c) s"
    unfolding n by (rule takeWhile_eq_take [symmetric])
  have "s ! n = c" using l n nth_length_takeWhile by force
  with l have "s = take n s @ c # drop (Suc n) s" by (metis id_take_nth_drop)
  moreover have "c \<notin> set (take n s)" unfolding t by (auto dest: set_takeWhileD)
  ultimately show ?thesis using l by simp
qed

lemma index_of_append [simp]: "c \<notin> set a \<Longrightarrow> index_of c (a @ c # b) = Some (length a)"
  by (auto simp: index_of_def Let_def takeWhile_append)

lemma index_of_mem: "index_of c s = Some n \<Longrightarrow> c \<in> set s"
  by (metis index_of_None option.distinct(1))

lemma last_index_of_None [simp]: "last_index_of c s = None \<longleftrightarrow> c \<notin> set s"
  by (auto simp: last_index_of_def split: option.splits dest: index_of_mem)

lemma last_index_of_append [simp]: "c \<notin> set b \<Longrightarrow> last_index_of c (a @ c # b) = Some (length a)"
  by (simp add: last_index_of_def)

text \<open>\<open>net.SplitHostPort\<close>: the host and the port, \<open>None\<close> where Go returns an address error.\<close>

definition splitHostPort :: "string \<Rightarrow> (string \<times> string) option" where
  "splitHostPort hp =
     (case last_index_of (CHR '':'') hp of
        None \<Rightarrow> None
      | Some i \<Rightarrow>
          if hp ! 0 = CHR ''['' then
            (case index_of (CHR '']'') hp of
               None \<Rightarrow> None
             | Some e \<Rightarrow>
                 if e + 1 = length hp then None
                 else if e + 1 \<noteq> i then None
                 else if CHR ''['' \<in> set (drop 1 hp) then None
                 else if CHR '']'' \<in> set (drop (e + 1) hp) then None
                 else Some (take (e - 1) (drop 1 hp), drop (i + 1) hp))
          else
            (let host = take i hp in
             if CHR '':'' \<in> set host then None
             else if CHR ''['' \<in> set hp then None
             else if CHR '']'' \<in> set hp then None
             else Some (host, drop (i + 1) hp)))"

lemma splitHostPort_plain:
  assumes "CHR '':'' \<notin> set h" "CHR ''['' \<notin> set h" "CHR '']'' \<notin> set h"
    and "CHR '':'' \<notin> set p" "CHR ''['' \<notin> set p" "CHR '']'' \<notin> set p"
  shows "splitHostPort (h @ CHR '':'' # p) = Some (h, p)"
proof -
  have "(h @ CHR '':'' # p) ! 0 \<noteq> CHR ''[''"
    using assms(2) by (cases h) auto
  with assms show ?thesis by (simp add: splitHostPort_def)
qed

lemma splitHostPort_none: "CHR '':'' \<notin> set s \<Longrightarrow> splitHostPort s = None"
  using last_index_of_None [of "CHR '':''" s] by (simp add: splitHostPort_def del: last_index_of_None)

section \<open>Maps\<close>

text \<open>Reading a missing key of a Go map gives the zero value of the value type.\<close>

definition mget :: "(string \<rightharpoonup> string) \<Rightarrow> string \<Rightarrow> string" where
  "mget m k = (case m k of None \<Rightarrow> '''' | Some v \<Rightarrow> v)"

lemma mget_upd [simp]: "mget (m(k \<mapsto> v)) k' = (if k' = k then v else mget m k')"
  by (simp add: mget_def)

lemma mget_empty [simp]: "mget Map.empty k = ''''"
  by (simp add: mget_def)

lemma mget_None: "m k = None \<Longrightarrow> mget m k = ''''"
  by (simp add: mget_def)

section \<open>Machine integers, decimal text, durations\<close>

text \<open>Two's complement wrap-around of a result of \<open>int64\<close> (and \<open>int\<close>) or \<open>int32\<close> arithmetic.\<close>

definition i64 :: "int \<Rightarrow> int" where
  "i64 x = (x + 2 ^ 63) mod 2 ^ 64 - 2 ^ 63"

definition i32 :: "int \<Rightarrow> int" where
  "i32 x = (x + 2 ^ 31) mod 2 ^ 32 - 2 ^ 31"

lemma i64_id: "- (2 ^ 63) \<le> x \<Longrightarrow> x < 2 ^ 63 \<Longrightarrow> i64 x = x"
  by (simp add: i64_def)

lemma i32_id: "- (2 ^ 31) \<le> x \<Longrightarrow> x < 2 ^ 31 \<Longrightarrow> i32 x = x"
  by (simp add: i32_def)

lemma i64_range: "- (2 ^ 63) \<le> i64 x \<and> i64 x < 2 ^ 63"
  unfolding i64_def using pos_mod_bound [of "2 ^ 64" "x + 2 ^ 63"] pos_mod_sign [of "2 ^ 64" "x + 2 ^ 63"]
  by simp

fun dec_nat :: "nat \<Rightarrow> string" where
  "dec_nat n =
     (if n < 10 then [char_of (48 + n)] else dec_nat (n div 10) @ [char_of (48 + n mod 10)])"

declare dec_nat.simps [simp del]

text \<open>The verb \<open>%d\<close>.\<close>

definition dec :: "int \<Rightarrow> string" where
  "dec i = (if i < 0 then CHR ''-'' # dec_nat (nat (- i)) else dec_nat (nat i))"

text \<open>The verb \<open>%q\<close> on the characters that occur in Kubernetes names and keys.\<close>

fun quote_char :: "char \<Rightarrow> string" where
  "quote_char c =
     (if c = CHR 0x22 then [CHR 0x5C, CHR 0x22]
      else if c = CHR 0x5C then [CHR 0x5C, CHR 0x5C]
      else if c = CHR 0x0A then [CHR 0x5C, CHR ''n'']
      else if c = CHR 0x0D then [CHR 0x5C, CHR ''r'']
      else if c = CHR 0x09 then [CHR 0x5C, CHR ''t'']
      else [c])"

definition goq :: "string \<Rightarrow> string" where
  "goq s = [CHR 0x22] @ concat (map quote_char s) @ [CHR 0x22]"

text \<open>
  Instants and durations are nanosecond counts. \<open>time.Since\<close> subtracts and saturates at the
  ends of \<open>int64\<close>.
\<close>

definition second :: int where
  "second = 1000000000"

definition time_since :: "int \<Rightarrow> int \<Rightarrow> int" where
  "time_since now t = max (- (2 ^ 63)) (min (2 ^ 63 - 1) (now - t))"

lemma time_since_gt:
  "- (2 ^ 63) \<le> d \<Longrightarrow> d < 2 ^ 63 - 1 \<Longrightarrow> time_since now t > d \<longleftrightarrow> now - t > d"
  by (auto simp: time_since_def)

section \<open>Error values\<close>

text \<open>
  The sentinels are the package-level \<open>errors.New\<close> values of the source; the API errors and the
  transport errors come from outside. \<open>Errorf\<close> is \<open>fmt.Errorf\<close>: a text with the errors it
  wraps (\<open>%w\<close>). \<open>OTAWriteErr\<close> is the struct \<open>agent.OTAWriteError\<close>.
\<close>

datatype sentinel =
    errConfigPermanent
  | errConfigMapNotFound
  | ErrUnsupportedAPIVersion
  | ErrSignatureMissing
  | ErrSignatureInvalid
  | ErrBlobDigestMismatch
  | errDuplicateNodeID

datatype gerr =
    Sentinel sentinel
  | ApiNotFound string
  | ApiConflict string
  | ApiOther string
  | NetErr string
  | DecodeErr string
  | IoEOF
  | GoPanic string  \<comment> \<open>a run-time panic\<close>
  | UnexpectedEOF
  | OTAWriteErr (owe_Status: string) (owe_HTTPStatus: int)
  | Errorf (wrapped: "gerr list") string

text \<open>\<open>errors.Is\<close> on a sentinel: the error itself or one it wraps, at any depth.\<close>

fun err_is :: "gerr \<Rightarrow> sentinel \<Rightarrow> bool" where
  "err_is (Sentinel s) t \<longleftrightarrow> s = t"
| "err_is (Errorf es m) t \<longleftrightarrow> (\<exists>e \<in> set es. err_is e t)"
| "err_is _ t \<longleftrightarrow> False"

text \<open>\<open>apierrors.IsNotFound\<close> and \<open>IsConflict\<close> look through wrapping as well.\<close>

fun is_not_found :: "gerr \<Rightarrow> bool" where
  "is_not_found (ApiNotFound m) \<longleftrightarrow> True"
| "is_not_found (Errorf es m) \<longleftrightarrow> (\<exists>e \<in> set es. is_not_found e)"
| "is_not_found _ \<longleftrightarrow> False"

fun is_conflict :: "gerr \<Rightarrow> bool" where
  "is_conflict (ApiConflict m) \<longleftrightarrow> True"
| "is_conflict (Errorf es m) \<longleftrightarrow> (\<exists>e \<in> set es. is_conflict e)"
| "is_conflict _ \<longleftrightarrow> False"

text \<open>\<open>errors.As\<close> for \<open>*agent.OTAWriteError\<close>: the first one in a depth-first walk.\<close>

fun as_OTAWriteError :: "gerr \<Rightarrow> (string \<times> int) option"
  and as_OTAWriteError_list :: "gerr list \<Rightarrow> (string \<times> int) option" where
  "as_OTAWriteError (OTAWriteErr st h) = Some (st, h)"
| "as_OTAWriteError (Errorf es m) = as_OTAWriteError_list es"
| "as_OTAWriteError _ = None"
| "as_OTAWriteError_list [] = None"
| "as_OTAWriteError_list (e # es) =
     (case as_OTAWriteError e of Some r \<Rightarrow> Some r | None \<Rightarrow> as_OTAWriteError_list es)"

text \<open>The texts of the sentinels and of \<open>Error()\<close>.\<close>

definition e_acute :: string where "e_acute = [CHR 0xC3, CHR 0xA9]"
definition e_grave :: string where "e_grave = [CHR 0xC3, CHR 0xA8]"
definition a_grave :: string where "a_grave = [CHR 0xC3, CHR 0xA0]"
definition arrow :: string where "arrow = [CHR 0xE2, CHR 0x86, CHR 0x92]"

fun sentinel_text :: "sentinel \<Rightarrow> string" where
  "sentinel_text errConfigPermanent = ''erreur de configuration permanente''"
| "sentinel_text errConfigMapNotFound = ''McuConfigMap introuvable''"
| "sentinel_text ErrUnsupportedAPIVersion = ''aucune version d'API commune avec le device''"
| "sentinel_text ErrSignatureMissing = ''annotation de signature OCI absente du manifeste''"
| "sentinel_text ErrSignatureInvalid = ''signature OCI invalide''"
| "sentinel_text ErrBlobDigestMismatch =
     ''digest du blob stream'' @ e_acute @ '' ne correspond pas au digest attendu''"
| "sentinel_text errDuplicateNodeID =
     ''node_id dupliqu'' @ e_acute @ '' entre plusieurs McuNode''"

fun err_text :: "gerr \<Rightarrow> string" where
  "err_text (Sentinel s) = sentinel_text s"
| "err_text (ApiNotFound m) = m"
| "err_text (ApiConflict m) = m"
| "err_text (ApiOther m) = m"
| "err_text (NetErr m) = m"
| "err_text (DecodeErr m) = m"
| "err_text (GoPanic m) = m"
| "err_text IoEOF = ''EOF''"
| "err_text UnexpectedEOF = ''unexpected EOF''"
| "err_text (OTAWriteErr st h) =
     (if h \<noteq> 0 then ''PUT /ota/write HTTP '' @ dec h @ '': '' @ st else ''PUT /ota/write: '' @ st)"
| "err_text (Errorf es m) = m"

text \<open>\<open>fmt.Errorf(prefix + "%w", err)\<close>, the most common shape.\<close>

definition wrap_err :: "string \<Rightarrow> gerr \<Rightarrow> gerr" where
  "wrap_err prefix e = Errorf [e] (prefix @ err_text e)"

lemma err_is_wrap [simp]: "err_is (wrap_err p e) t = err_is e t"
  by (simp add: wrap_err_def)

lemma is_conflict_wrap [simp]: "is_conflict (wrap_err p e) = is_conflict e"
  by (simp add: wrap_err_def)

lemma is_not_found_wrap [simp]: "is_not_found (wrap_err p e) = is_not_found e"
  by (simp add: wrap_err_def)

section \<open>A weakest-precondition calculus for state-passing code\<close>

abbreviation ret :: "'a \<Rightarrow> ('s, 'a) state" where
  "ret \<equiv> State_Monad.return"

definition wp :: "('s, 'a) state \<Rightarrow> ('a \<Rightarrow> 's \<Rightarrow> bool) \<Rightarrow> 's \<Rightarrow> bool" where
  "wp m Q s \<longleftrightarrow> (case run_state m s of (a, s') \<Rightarrow> Q a s')"

lemma wp_return [wp_simps]: "wp (State_Monad.return a) Q s = Q a s"
  by (simp add: wp_def)

lemma wp_bind [wp_simps]: "wp (State_Monad.bind m f) Q s = wp m (\<lambda>a. wp (f a) Q) s"
  by (simp add: wp_def split: prod.splits)

lemma wp_get [wp_simps]: "wp State_Monad.get Q s = Q s s"
  by (simp add: wp_def)

lemma wp_set [wp_simps]: "wp (State_Monad.set s') Q s = Q () s'"
  by (simp add: wp_def)

lemma wp_State [wp_simps]: "wp (State f) Q s = (case f s of (a, s') \<Rightarrow> Q a s')"
  by (simp add: wp_def)

lemma wp_if [wp_simps]: "wp (if b then m else n) Q s = (if b then wp m Q s else wp n Q s)"
  by simp

lemma wp_case_sum [wp_simps]:
  "wp (case r of Inl e \<Rightarrow> f e | Inr x \<Rightarrow> g x) Q s = (case r of Inl e \<Rightarrow> wp (f e) Q s | Inr x \<Rightarrow> wp (g x) Q s)"
  by (simp split: sum.splits)

lemma wp_case_option [wp_simps]:
  "wp (case r of None \<Rightarrow> f | Some x \<Rightarrow> g x) Q s = (case r of None \<Rightarrow> wp f Q s | Some x \<Rightarrow> wp (g x) Q s)"
  by (simp split: option.splits)

lemma wp_case_prod [wp_simps]:
  "wp (case r of (x, y) \<Rightarrow> f x y) Q s = (case r of (x, y) \<Rightarrow> wp (f x y) Q s)"
  by (simp split: prod.splits)

lemma wp_case_list [wp_simps]:
  "wp (case r of [] \<Rightarrow> f | x # xs \<Rightarrow> g x xs) Q s = (case r of [] \<Rightarrow> wp f Q s | x # xs \<Rightarrow> wp (g x xs) Q s)"
  by (simp split: list.splits)

lemma wp_Let [wp_simps]: "wp (Let x f) Q s = (let y = x in wp (f y) Q s)"
  by (simp add: Let_def)

lemma wp_conseq: "wp m Q s \<Longrightarrow> (\<And>a t. Q a t \<Longrightarrow> R a t) \<Longrightarrow> wp m R s"
  by (auto simp: wp_def split: prod.splits)

lemma wp_conj: "wp m (\<lambda>a t. Q a t \<and> R a t) s \<longleftrightarrow> wp m Q s \<and> wp m R s"
  by (auto simp: wp_def split: prod.splits)

lemma wp_true [simp]: "wp m (\<lambda>_ _. True) s"
  by (simp add: wp_def split: prod.splits)

lemma wp_bind_any: "(\<And>a t. wp (f a) Q t) \<Longrightarrow> wp (State_Monad.bind m f) Q s"
  by (auto simp: wp_bind intro: wp_conseq [OF wp_true])

lemma wpD: "wp m Q s \<Longrightarrow> run_state m s = (a, t) \<Longrightarrow> Q a t"
  by (simp add: wp_def)

lemma wpI: "(\<And>a t. run_state m s = (a, t) \<Longrightarrow> Q a t) \<Longrightarrow> wp m Q s"
  by (auto simp: wp_def split: prod.splits)

lemma wp_fst: "wp m (\<lambda>a _. P a) s \<longleftrightarrow> P (fst (run_state m s))"
  by (simp add: wp_def split: prod.splits)

lemma wp_snd: "wp m (\<lambda>_ t. P t) s \<longleftrightarrow> P (snd (run_state m s))"
  by (simp add: wp_def split: prod.splits)

end
