(* ===== verification/ApiTypes.thy ===== *)
theory ApiTypes
  imports GoPrelude
begin

text \<open>
  The objects of \<open>api/v1alpha1\<close> (McuNode, McuDeployment, McuConfigMap) and the fields of the
  Kubernetes objects (metadata, conditions, Secret, Service, EndpointSlice) the controllers read
  and write. A \<open>map[string]string\<close> that is only looked up is a map; one that is ranged over is
  an association list in iteration order. A \<open>float64\<close> is its bit pattern: the code compares it
  with one constant and otherwise passes it on. \<open>LastTransitionTime\<close> of a condition is kept by
  the library and never read by this code; it is left out.
\<close>

section \<open>Kubernetes metadata and conditions\<close>

type_synonym f64 = "64 word"

text \<open>The bits of \<open>-127.0\<close>, the only representation of that value.\<close>

definition f64_minus_127 :: f64 where
  "f64_minus_127 = 0xC05FC00000000000"

record obj_key =
  key_Namespace :: string
  key_Name :: string

record object_meta =
  m_Name :: string
  m_Namespace :: string
  m_UID :: string
  m_Labels :: "string \<rightharpoonup> string"
  m_Annotations :: "string \<rightharpoonup> string"
  m_Finalizers :: "string list"
  m_DeletionTimestamp :: "int option"
  m_ResourceVersion :: string
  m_OwnerReferences :: "string list"

definition obj_key_of :: "object_meta \<Rightarrow> obj_key" where
  "obj_key_of m = \<lparr>key_Namespace = m_Namespace m, key_Name = m_Name m\<rparr>"

datatype condition_status = ConditionTrue | ConditionFalse | ConditionUnknown

record condition =
  c_Type :: string
  c_Status :: condition_status
  c_Reason :: string
  c_Message :: string

record secret =
  sec_Meta :: object_meta
  sec_Data :: "string \<rightharpoonup> string"

section \<open>McuNode\<close>

record secret_ref =
  sr_Name :: string
  sr_Namespace :: string

record mcunode_spec =
  ns_NodeID :: string
  ns_TokenRef :: secret_ref
  ns_TLSSecretRef :: secret_ref

record mcunode_status =
  nst_IP :: string
  nst_State :: string
  nst_FirmwareName :: string
  nst_FirmwareVersion :: string
  nst_FirmwareDigest :: string
  nst_DeploymentID :: string
  nst_OtaValidated :: bool
  nst_HeapFree :: int
  nst_RSSI :: int
  nst_UptimeMs :: int
  nst_ConfigGeneration :: int
  nst_TempCelsius :: f64
  nst_TaskHwmMin :: int
  nst_Chip :: string
  nst_IDFVersion :: string
  nst_FlashSize :: int
  nst_RAMSize :: int
  nst_AppPort :: int
  nst_ApiVersion :: string
  nst_TLSCertDigest :: string
  nst_LastRebootRequested :: string
  nst_Ready :: bool
  nst_LastHeartbeat :: "int option"
  nst_Conditions :: "condition list"

record mcunode =
  n_Meta :: object_meta
  n_Spec :: mcunode_spec
  n_Status :: mcunode_status

abbreviation n_Name :: "mcunode \<Rightarrow> string" where
  "n_Name n \<equiv> m_Name (n_Meta n)"

abbreviation n_Namespace :: "mcunode \<Rightarrow> string" where
  "n_Namespace n \<equiv> m_Namespace (n_Meta n)"

section \<open>McuDeployment\<close>

record firmware_spec =
  fw_Image :: string
  fw_Name :: string
  fw_Version :: string

record mcudeployment_spec =
  ds_NodeName :: string
  ds_NodeSelector :: "(string \<times> string) list"
  ds_Firmware :: firmware_spec
  ds_ConfigMapRef :: string
  ds_AppPort :: int

text \<open>
  \<open>McuDeploymentPhase\<close> is a string type with eight constants; the empty string is the phase of
  a new object and \<open>PhaseOther\<close> any other text a user may have put there.
\<close>

datatype mcu_deployment_phase =
    PhaseNone
  | PhaseBinding
  | PhasePulling
  | PhasePreparing
  | PhaseWriting
  | PhaseActivating
  | PhaseConfirming
  | PhaseDeployed
  | PhaseFailed
  | PhaseOther string

fun phase_text :: "mcu_deployment_phase \<Rightarrow> string" where
  "phase_text PhaseNone = ''''"
| "phase_text PhaseBinding = ''Binding''"
| "phase_text PhasePulling = ''Pulling''"
| "phase_text PhasePreparing = ''Preparing''"
| "phase_text PhaseWriting = ''Writing''"
| "phase_text PhaseActivating = ''Activating''"
| "phase_text PhaseConfirming = ''Confirming''"
| "phase_text PhaseDeployed = ''Deployed''"
| "phase_text PhaseFailed = ''Failed''"
| "phase_text (PhaseOther s) = s"

record mcudeployment_status =
  dst_Phase :: mcu_deployment_phase
  dst_BoundNode :: string
  dst_DeploymentID :: string
  dst_Message :: string
  dst_Digest :: string
  dst_Size :: int
  dst_Conditions :: "condition list"

record mcudeployment =
  d_Meta :: object_meta
  d_Spec :: mcudeployment_spec
  d_Status :: mcudeployment_status

abbreviation d_Name :: "mcudeployment \<Rightarrow> string" where
  "d_Name d \<equiv> m_Name (d_Meta d)"

abbreviation d_Namespace :: "mcudeployment \<Rightarrow> string" where
  "d_Namespace d \<equiv> m_Namespace (d_Meta d)"

section \<open>McuConfigMap\<close>

record mcuconfigmap =
  cm_Meta :: object_meta
  cm_Data :: "(string \<times> string) list"

section \<open>Service and EndpointSlice\<close>

record service_port =
  sp_Name :: string
  sp_Port :: int
  sp_Protocol :: string

record service =
  svc_Meta :: object_meta
  svc_Selector :: "(string \<times> string) list"
  svc_Ports :: "service_port list"

record endpoint =
  ep_Addresses :: "string list"
  ep_Ready :: bool

record endpoint_slice =
  es_Meta :: object_meta
  es_AddressType :: string
  es_Endpoints :: "endpoint list"
  es_Ports :: "service_port list"

section \<open>Updates of nested fields\<close>

definition upd_nstatus :: "(mcunode_status \<Rightarrow> mcunode_status) \<Rightarrow> mcunode \<Rightarrow> mcunode" where
  "upd_nstatus f n = n\<lparr>n_Status := f (n_Status n)\<rparr>"

definition upd_dstatus :: "(mcudeployment_status \<Rightarrow> mcudeployment_status) \<Rightarrow> mcudeployment \<Rightarrow> mcudeployment" where
  "upd_dstatus f d = d\<lparr>d_Status := f (d_Status d)\<rparr>"

lemma upd_nstatus_sel [simp]:
  "n_Meta (upd_nstatus f n) = n_Meta n"
  "n_Spec (upd_nstatus f n) = n_Spec n"
  "n_Status (upd_nstatus f n) = f (n_Status n)"
  by (simp_all add: upd_nstatus_def)

lemma upd_dstatus_sel [simp]:
  "d_Meta (upd_dstatus f d) = d_Meta d"
  "d_Spec (upd_dstatus f d) = d_Spec d"
  "d_Status (upd_dstatus f d) = f (d_Status d)"
  by (simp_all add: upd_dstatus_def)

lemma upd_dstatus_upd_dstatus [simp]: "upd_dstatus f (upd_dstatus g d) = upd_dstatus (\<lambda>s. f (g s)) d"
  by (simp add: upd_dstatus_def)

text \<open>The object metadata with nothing set but the given fields (a Go composite literal).\<close>

definition new_meta :: "string \<Rightarrow> string \<Rightarrow> (string \<rightharpoonup> string) \<Rightarrow> object_meta" where
  "new_meta nm ns lbls =
     \<lparr>m_Name = nm, m_Namespace = ns, m_UID = '''', m_Labels = lbls, m_Annotations = Map.empty,
      m_Finalizers = [], m_DeletionTimestamp = None, m_ResourceVersion = '''', m_OwnerReferences = []\<rparr>"

end
