(* ===== verification/Wire.thy ===== *)
theory Wire
  imports ApiTypes
begin

text \<open>
  What crosses the process boundary: outgoing HTTP requests and their responses, the requests the
  heartbeat server receives, and the Go structs that JSON bodies are decoded into
  (\<open>internal/agent/client.go\<close>, \<open>internal/heartbeat/server.go\<close>, \<open>internal/oci/client.go\<close>).

  A body that is read is the sequence of segments the network delivers, how it ends (end of file
  or an error), and whether the last bytes are delivered together with that end, which
  \<open>io.Reader\<close> leaves open.
\<close>

section \<open>Bodies that are read\<close>

datatype read_end = REOF | RErr gerr

record http_body =
  hb_segs :: "string list"
  hb_end :: read_end
  hb_eager :: bool

definition body_content :: "http_body \<Rightarrow> string" where
  "body_content b = concat (hb_segs b)"

text \<open>\<open>Read(p)\<close> with \<open>len(p) = n\<close>: the bytes, and how the stream ended if it did.\<close>

definition body_read :: "nat \<Rightarrow> http_body \<Rightarrow> (string \<times> read_end option) \<times> http_body" where
  "body_read n b =
     (case hb_segs b of
        [] \<Rightarrow> (([], Some (hb_end b)), b)
      | seg # rest \<Rightarrow>
          let segs' = (if length seg \<le> n then rest else drop n seg # rest)
          in ((take n seg, if segs' = [] \<and> hb_eager b then Some (hb_end b) else None),
              b\<lparr>hb_segs := segs'\<rparr>))"

text \<open>\<open>io.ReadAll\<close>, and \<open>io.ReadAll\<close> of an \<open>io.LimitReader\<close>.\<close>

definition readAll :: "http_body \<Rightarrow> string \<times> gerr option" where
  "readAll b = (body_content b, case hb_end b of REOF \<Rightarrow> None | RErr e \<Rightarrow> Some e)"

definition readAllLimited :: "nat \<Rightarrow> http_body \<Rightarrow> string \<times> gerr option" where
  "readAllLimited n b =
     (let c = body_content b
      in (take n c,
          if length c < n \<or> (length c = n \<and> hb_eager b) then snd (readAll b) else None))"

lemma body_read_content:
  "body_read n b = ((out, e), b') \<Longrightarrow> body_content b = out @ body_content b'"
  by (auto simp: body_read_def body_content_def Let_def split: list.splits if_splits)

lemma body_read_length: "body_read n b = ((out, e), b') \<Longrightarrow> length out \<le> n"
  by (auto simp: body_read_def Let_def split: list.splits if_splits)

text \<open>A read that ends the stream leaves nothing.\<close>

lemma body_read_end:
  "body_read n b = ((out, Some e), b') \<Longrightarrow> hb_segs b' = [] \<and> e = hb_end b"
  by (auto simp: body_read_def Let_def split: list.splits if_splits)

lemma body_read_measure:
  "body_read n b = ((out, None), b') \<Longrightarrow> 0 < n \<Longrightarrow>
     length (body_content b') + length (hb_segs b') < length (body_content b) + length (hb_segs b)"
  by (auto simp: body_read_def body_content_def Let_def split: list.splits if_splits)

lemma body_read_frame: "body_read n b = (r, b') \<Longrightarrow> hb_end b' = hb_end b \<and> hb_eager b' = hb_eager b"
  by (auto simp: body_read_def Let_def split: list.splits if_splits)

section \<open>Outgoing requests\<close>

text \<open>
  The JSON value a request body is marshalled from, before it becomes text.
\<close>

datatype json =
    JStr string
  | JInt int
  | JBool bool
  | JObj "(string \<times> json) list"

datatype req_body = BNone | BJson json | BBytes string

record http_request =
  rq_Timeout :: "int option"  \<comment> \<open>\<open>http.Client.Timeout\<close> of the client that sends it, for the whole exchange\<close>
  rq_Method :: string
  rq_URL :: string
  rq_Headers :: "(string \<times> string) list"
  rq_ContentLength :: "int option"
  rq_Body :: req_body

record http_response =
  rs_StatusCode :: int
  rs_Body :: http_body

section \<open>Agent messages\<close>

record info_response =
  ir_NodeID :: string
  ir_ApiVersions :: "string list"
  ir_Chip :: string
  ir_IDFVersion :: string
  ir_FlashSize :: int
  ir_RAMSize :: int
  ir_PartitionLayout :: string
  ir_ActiveSlot :: string
  ir_FwName :: string
  ir_FwVersion :: string
  ir_FwDigest :: string
  ir_StagedState :: string
  ir_StagedSlot :: string
  ir_StagedDigest :: string
  ir_StagedDeploymentID :: string
  ir_State :: string
  ir_AppPort :: int
  ir_ConfigGeneration :: int

record health_response =
  hr_Status :: string

record prepare_request =
  pq_DeploymentID :: string
  pq_Artifact :: string
  pq_Digest :: string
  pq_Size :: int
  pq_Chip :: string
  pq_IDFVersion :: string
  pq_PartitionLayout :: string

record prepare_response =
  pr_Accepted :: bool
  pr_TargetSlot :: string
  pr_Reason :: string

record config_response =
  cr_Generation :: int
  cr_ActiveGeneration :: int
  cr_Active :: "string \<rightharpoonup> string"
  cr_NVS :: "string \<rightharpoonup> string"

section \<open>Heartbeat and log messages\<close>

record heartbeat_payload =
  hp_NodeID :: string
  hp_IP :: string
  hp_TS :: int
  hp_State :: string
  hp_DeploymentID :: string
  hp_FirmwareDigest :: string
  hp_OtaValidated :: bool
  hp_UptimeMs :: int
  hp_HeapFree :: int
  hp_RSSI :: int
  hp_ConfigGeneration :: int
  hp_TempCelsius :: f64
  hp_TaskHwmMin :: int
  hp_Reason :: string

record log_payload =
  lp_TS :: int
  lp_Node :: string
  lp_Workload :: string
  lp_Level :: string
  lp_Msg :: string

text \<open>A request to the heartbeat server: method, \<open>Authorization\<close> header, peer address, body.\<close>

record server_request =
  sq_Method :: string
  sq_Authorization :: string
  sq_RemoteAddr :: string
  sq_Body :: http_body

record server_reply =
  sy_Status :: int
  sy_Text :: string

section \<open>OCI manifest\<close>

record descriptor =
  de_MediaType :: string
  de_Digest :: string
  de_Size :: int
  de_Annotations :: "string \<rightharpoonup> string"

record manifest =
  ma_SchemaVersion :: int
  ma_MediaType :: string
  ma_Config :: descriptor
  ma_Layers :: "descriptor list"
  ma_Annotations :: "string \<rightharpoonup> string"

end
