(* ===== verification/Metrics.thy ===== *)
theory Metrics
  imports ApiTypes
begin

text \<open>
  \<open>internal/metrics/metrics.go\<close>: the eight Prometheus gauges \<open>mcunode_*\<close> and the map
  \<open>prevLabels\<close>. A gauge vector is the map from label sets to values that \<open>With(l).Set(v)\<close>
  and \<open>Delete(l)\<close> maintain. A value keeps the conversion the code applies to the integer it
  reads. \<open>UpdateFromHeartbeat\<close> is given in its two parts, the section under \<open>labelsMu\<close> and the
  gauge writes after the unlock, because another heartbeat can run between them.
\<close>

section \<open>State\<close>

record metric_labels =
  ml_node_id :: string
  ml_workload :: string
  ml_chip :: string

datatype gauge_value =
    OfInt int
  | OfIntDiv1000 int
  | OfFloat f64

type_synonym gauge_vec = "metric_labels \<rightharpoonup> gauge_value"

record metrics_state =
  HeapFreeBytes :: gauge_vec
  WifiRssiDbm :: gauge_vec
  UptimeSeconds :: gauge_vec
  TemperatureCelsius :: gauge_vec
  TaskStackHwmBytes :: gauge_vec
  LastHeartbeatTimestamp :: gauge_vec
  ConfigGenerationGauge :: gauge_vec
  OtaValidatedGauge :: gauge_vec
  prevLabels :: "string \<rightharpoonup> metric_labels"

definition metrics_init :: metrics_state where
  "metrics_init =
     \<lparr>HeapFreeBytes = Map.empty, WifiRssiDbm = Map.empty, UptimeSeconds = Map.empty,
      TemperatureCelsius = Map.empty, TaskStackHwmBytes = Map.empty,
      LastHeartbeatTimestamp = Map.empty, ConfigGenerationGauge = Map.empty,
      OtaValidatedGauge = Map.empty, prevLabels = Map.empty\<rparr>"

record heartbeat_data =
  hd_NodeID :: string
  hd_Workload :: string
  hd_Chip :: string
  hd_HeapFree :: int
  hd_RSSI :: int
  hd_UptimeMs :: int
  hd_TempCelsius :: f64
  hd_TaskHwmMin :: int
  hd_ConfigGeneration :: int
  hd_TS :: int
  hd_OtaValidated :: bool

section \<open>Operations\<close>

definition deleteLabels :: "metric_labels \<Rightarrow> metrics_state \<Rightarrow> metrics_state" where
  "deleteLabels l st = st\<lparr>
     HeapFreeBytes := (HeapFreeBytes st)(l := None),
     WifiRssiDbm := (WifiRssiDbm st)(l := None),
     UptimeSeconds := (UptimeSeconds st)(l := None),
     TemperatureCelsius := (TemperatureCelsius st)(l := None),
     TaskStackHwmBytes := (TaskStackHwmBytes st)(l := None),
     LastHeartbeatTimestamp := (LastHeartbeatTimestamp st)(l := None),
     ConfigGenerationGauge := (ConfigGenerationGauge st)(l := None),
     OtaValidatedGauge := (OtaValidatedGauge st)(l := None)\<rparr>"

definition RemoveNode :: "string \<Rightarrow> metrics_state \<Rightarrow> metrics_state" where
  "RemoveNode nodeID st =
     (case prevLabels st nodeID of
        None \<Rightarrow> st
      | Some old \<Rightarrow>
          let st1 = deleteLabels old st
          in st1\<lparr>prevLabels := (prevLabels st1)(nodeID := None)\<rparr>)"

definition labels_of :: "heartbeat_data \<Rightarrow> metric_labels" where
  "labels_of d = \<lparr>ml_node_id = hd_NodeID d, ml_workload = hd_Workload d, ml_chip = hd_Chip d\<rparr>"

text \<open>The critical section of \<open>UpdateFromHeartbeat\<close>.\<close>

definition updateLabelsLocked :: "heartbeat_data \<Rightarrow> metrics_state \<Rightarrow> metrics_state" where
  "updateLabelsLocked d st =
     (let labels = labels_of d;
          st1 = (case prevLabels st (hd_NodeID d) of
                   None \<Rightarrow> st
                 | Some old \<Rightarrow>
                     if ml_workload old \<noteq> ml_workload labels \<or> ml_chip old \<noteq> ml_chip labels
                     then deleteLabels old st else st)
      in st1\<lparr>prevLabels := (prevLabels st1)(hd_NodeID d \<mapsto> labels)\<rparr>)"

text \<open>The gauge writes after the unlock.\<close>

definition setGauges :: "heartbeat_data \<Rightarrow> metrics_state \<Rightarrow> metrics_state" where
  "setGauges d st =
     (let labels = labels_of d;
          st1 = st\<lparr>HeapFreeBytes := (HeapFreeBytes st)(labels \<mapsto> OfInt (hd_HeapFree d)),
                   WifiRssiDbm := (WifiRssiDbm st)(labels \<mapsto> OfInt (hd_RSSI d)),
                   UptimeSeconds := (UptimeSeconds st)(labels \<mapsto> OfIntDiv1000 (hd_UptimeMs d))\<rparr>;
          st2 = (if hd_TempCelsius d \<noteq> f64_minus_127
                 then st1\<lparr>TemperatureCelsius :=
                            (TemperatureCelsius st1)(labels \<mapsto> OfFloat (hd_TempCelsius d))\<rparr>
                 else st1);
          st3 = st2\<lparr>TaskStackHwmBytes := (TaskStackHwmBytes st2)(labels \<mapsto> OfInt (hd_TaskHwmMin d))\<rparr>;
          st4 = (if hd_TS d \<noteq> 0
                 then st3\<lparr>LastHeartbeatTimestamp :=
                            (LastHeartbeatTimestamp st3)(labels \<mapsto> OfInt (hd_TS d))\<rparr>
                 else st3);
          st5 = st4\<lparr>ConfigGenerationGauge :=
                      (ConfigGenerationGauge st4)(labels \<mapsto> OfInt (hd_ConfigGeneration d))\<rparr>
      in st5\<lparr>OtaValidatedGauge :=
               (OtaValidatedGauge st5)(labels \<mapsto> OfInt (if hd_OtaValidated d then 1 else 0))\<rparr>)"

definition UpdateFromHeartbeat :: "heartbeat_data \<Rightarrow> metrics_state \<Rightarrow> metrics_state" where
  "UpdateFromHeartbeat d st = setGauges d (updateLabelsLocked d st)"

section \<open>Which series are exposed\<close>

text \<open>The gauges that \<open>init\<close> registers, under the names they are exposed with.\<close>

definition Registry :: "metrics_state \<Rightarrow> (string \<times> gauge_vec) list" where
  "Registry st =
     [(''mcunode_heap_free_bytes'', HeapFreeBytes st), (''mcunode_wifi_rssi_dbm'', WifiRssiDbm st),
      (''mcunode_uptime_seconds'', UptimeSeconds st), (''mcunode_temperature_celsius'', TemperatureCelsius st),
      (''mcunode_task_stack_hwm_bytes'', TaskStackHwmBytes st),
      (''mcunode_last_heartbeat_timestamp'', LastHeartbeatTimestamp st),
      (''mcunode_config_generation'', ConfigGenerationGauge st), (''mcunode_ota_validated'', OtaValidatedGauge st)]"

definition series :: "metrics_state \<Rightarrow> metric_labels set" where
  "series st = dom (HeapFreeBytes st) \<union> dom (WifiRssiDbm st) \<union> dom (UptimeSeconds st)
     \<union> dom (TemperatureCelsius st) \<union> dom (TaskStackHwmBytes st)
     \<union> dom (LastHeartbeatTimestamp st) \<union> dom (ConfigGenerationGauge st)
     \<union> dom (OtaValidatedGauge st)"

lemma series_Registry: "series st = (\<Union>g \<in> set (Registry st). dom (snd g))"
  by (auto simp: series_def Registry_def)

text \<open>Every exposed label set is the one \<open>prevLabels\<close> holds for its node.\<close>

definition metrics_wf :: "metrics_state \<Rightarrow> bool" where
  "metrics_wf st \<longleftrightarrow>
     (\<forall>l \<in> series st. prevLabels st (ml_node_id l) = Some l) \<and>
     (\<forall>n l. prevLabels st n = Some l \<longrightarrow> ml_node_id l = n)"

lemma series_init [simp]: "series metrics_init = {}"
  by (simp add: series_def metrics_init_def)

lemma series_deleteLabels [simp]: "series (deleteLabels l st) = series st - {l}"
  by (auto simp: series_def deleteLabels_def)

lemma series_prevLabels [simp]: "series (st\<lparr>prevLabels := p\<rparr>) = series st"
  by (simp add: series_def)

lemma prevLabels_deleteLabels [simp]: "prevLabels (deleteLabels l st) = prevLabels st"
  by (simp add: deleteLabels_def)

lemma prevLabels_setGauges [simp]: "prevLabels (setGauges d st) = prevLabels st"
  by (simp add: setGauges_def Let_def)

lemma series_setGauges [simp]: "series (setGauges d st) = insert (labels_of d) (series st)"
  by (auto simp: series_def setGauges_def Let_def split: if_splits)

lemma node_id_labels_of [simp]: "ml_node_id (labels_of d) = hd_NodeID d"
  by (simp add: labels_of_def)

lemma labels_eqI:
  "ml_node_id l = ml_node_id l' \<Longrightarrow> ml_workload l = ml_workload l' \<Longrightarrow> ml_chip l = ml_chip l' \<Longrightarrow> l = l'"
  for l l' :: metric_labels
  by simp

lemma metrics_wfD:
  "metrics_wf st \<Longrightarrow> l \<in> series st \<Longrightarrow> prevLabels st (ml_node_id l) = Some l"
  "metrics_wf st \<Longrightarrow> prevLabels st n = Some l \<Longrightarrow> ml_node_id l = n"
  by (simp_all add: metrics_wf_def)

lemma prevLabels_updateLabelsLocked [simp]:
  "prevLabels (updateLabelsLocked d st) = (prevLabels st)(hd_NodeID d \<mapsto> labels_of d)"
  by (auto simp: updateLabelsLocked_def Let_def split: option.splits)

lemma series_updateLabelsLocked:
  assumes wf: "metrics_wf st"
  shows "series (updateLabelsLocked d st) = {l \<in> series st. ml_node_id l = hd_NodeID d \<longrightarrow> l = labels_of d}"
proof (cases "prevLabels st (hd_NodeID d)")
  case None
  then have "\<forall>l \<in> series st. ml_node_id l \<noteq> hd_NodeID d"
    using metrics_wfD(1) [OF wf] by fastforce
  with None show ?thesis by (auto simp: updateLabelsLocked_def Let_def)
next
  case (Some old)
  then have old: "\<forall>l \<in> series st. ml_node_id l = hd_NodeID d \<longrightarrow> l = old"
    using metrics_wfD(1) [OF wf] by fastforce
  have id: "ml_node_id old = hd_NodeID d" by (rule metrics_wfD(2) [OF wf Some])
  show ?thesis
  proof (cases "ml_workload old \<noteq> ml_workload (labels_of d) \<or> ml_chip old \<noteq> ml_chip (labels_of d)")
    case True
    then have "series (updateLabelsLocked d st) = series st - {old}"
      using Some by (simp add: updateLabelsLocked_def Let_def)
    moreover have "old \<noteq> labels_of d" using True by auto
    ultimately show ?thesis using old id by blast
  next
    case False
    then have "old = labels_of d" using id by (intro labels_eqI) simp_all
    moreover have "series (updateLabelsLocked d st) = series st"
      using Some False by (simp add: updateLabelsLocked_def Let_def)
    ultimately show ?thesis using old by blast
  qed
qed

lemma metrics_wf_init: "metrics_wf metrics_init"
  by (simp add: metrics_wf_def) (simp add: metrics_init_def)

lemma metrics_wf_update:
  assumes "metrics_wf st"
  shows "metrics_wf (UpdateFromHeartbeat d st)"
  using assms series_updateLabelsLocked [OF assms, of d]
  by (auto simp: metrics_wf_def UpdateFromHeartbeat_def)

lemma series_update:
  assumes "metrics_wf st"
  shows "series (UpdateFromHeartbeat d st) =
    insert (labels_of d) {l \<in> series st. ml_node_id l \<noteq> hd_NodeID d}"
  using series_updateLabelsLocked [OF assms, of d] by (auto simp: UpdateFromHeartbeat_def)

lemma series_remove:
  assumes wf: "metrics_wf st"
  shows "series (RemoveNode n st) = {l \<in> series st. ml_node_id l \<noteq> n}"
proof (cases "prevLabels st n")
  case None
  then show ?thesis using metrics_wfD(1) [OF wf] by (fastforce simp: RemoveNode_def)
next
  case (Some old)
  then have "\<forall>l \<in> series st. ml_node_id l = n \<longleftrightarrow> l = old"
    using metrics_wfD [OF wf] by fastforce
  moreover have "series (RemoveNode n st) = series st - {old}"
    using Some by (simp add: RemoveNode_def Let_def)
  ultimately show ?thesis by blast
qed

lemma prevLabels_remove [simp]: "prevLabels (RemoveNode n st) = (prevLabels st)(n := None)"
  by (auto simp: RemoveNode_def Let_def split: option.splits)

lemma metrics_wf_remove:
  assumes "metrics_wf st"
  shows "metrics_wf (RemoveNode n st)"
  using assms series_remove [OF assms, of n] by (auto simp: metrics_wf_def)

section \<open>The interface the callers rely on\<close>

datatype metrics_op = MUpdate heartbeat_data | MRemove string

text \<open>
  What the heartbeat server and the node controller need of the metrics: an invariant that both
  operations keep, at most one exposed label set per node, and nothing left of a removed node.
\<close>

locale series_registry =
  fixes update :: "heartbeat_data \<Rightarrow> 's \<Rightarrow> 's"
    and remove :: "string \<Rightarrow> 's \<Rightarrow> 's"
    and exposed :: "'s \<Rightarrow> metric_labels set"
    and inv :: "'s \<Rightarrow> bool"
  assumes inv_update: "inv s \<Longrightarrow> inv (update d s)"
    and inv_remove: "inv s \<Longrightarrow> inv (remove n s)"
    and exposed_update:
      "inv s \<Longrightarrow> exposed (update d s) = insert (labels_of d) {l \<in> exposed s. ml_node_id l \<noteq> hd_NodeID d}"
    and exposed_remove: "inv s \<Longrightarrow> exposed (remove n s) = {l \<in> exposed s. ml_node_id l \<noteq> n}"
begin

fun run_ops :: "metrics_op list \<Rightarrow> 's \<Rightarrow> 's" where
  "run_ops [] s = s"
| "run_ops (MUpdate d # ops) s = run_ops ops (update d s)"
| "run_ops (MRemove n # ops) s = run_ops ops (remove n s)"

lemma inv_run: "inv s \<Longrightarrow> inv (run_ops ops s)"
  by (induction ops s rule: run_ops.induct) (auto intro: inv_update inv_remove)

definition one_per_node :: "'s \<Rightarrow> bool" where
  "one_per_node s \<longleftrightarrow> inj_on ml_node_id (exposed s)"

lemma one_per_node_run: "inv s \<Longrightarrow> one_per_node s \<Longrightarrow> one_per_node (run_ops ops s)"
proof (induction ops s rule: run_ops.induct)
  case (2 d ops s)
  from 2(2,3) have "one_per_node (update d s)"
    by (auto simp: one_per_node_def exposed_update inj_on_def)
  with 2 show ?case by (simp add: inv_update)
next
  case (3 n ops s)
  from 3(2,3) have "one_per_node (remove n s)"
    by (auto simp: one_per_node_def exposed_remove inj_on_def)
  with 3 show ?case by (simp add: inv_remove)
qed simp

fun live :: "metrics_op list \<Rightarrow> string set \<Rightarrow> string set" where
  "live [] N = N"
| "live (MUpdate d # ops) N = live ops (insert (hd_NodeID d) N)"
| "live (MRemove n # ops) N = live ops (N - {n})"

lemma exposed_nodes_run:
  "inv s \<Longrightarrow> ml_node_id ` exposed (run_ops ops s) = live ops (ml_node_id ` exposed s)"
proof (induction ops s rule: run_ops.induct)
  case (2 d ops s)
  have "ml_node_id ` exposed (update d s) = insert (hd_NodeID d) (ml_node_id ` exposed s)"
    using exposed_update [OF 2(2), of d] by (auto simp: image_iff)
  with 2 show ?case by (simp add: inv_update)
next
  case (3 n ops s)
  have "ml_node_id ` exposed (remove n s) = ml_node_id ` exposed s - {n}"
    using exposed_remove [OF 3(2), of n] by auto
  with 3 show ?case by (simp add: inv_remove)
qed simp

lemma card_exposed_run:
  assumes "inv s" "exposed s = {}"
  shows "card (exposed (run_ops ops s)) = card (live ops {})"
proof -
  have "inj_on ml_node_id (exposed (run_ops ops s))"
    using one_per_node_run [of s ops] assms by (simp add: one_per_node_def)
  then have "card (exposed (run_ops ops s)) = card (ml_node_id ` exposed (run_ops ops s))"
    by (simp add: card_image)
  with exposed_nodes_run [OF assms(1), of ops] assms(2) show ?thesis by simp
qed

end

interpretation reg: series_registry UpdateFromHeartbeat RemoveNode series metrics_wf
  by unfold_locales (simp_all add: metrics_wf_update metrics_wf_remove series_update series_remove)

text \<open>The run of a list of metric operations, and the nodes that are live after it.\<close>

fun run_metrics :: "metrics_op list \<Rightarrow> metrics_state \<Rightarrow> metrics_state" where
  "run_metrics [] s = s"
| "run_metrics (MUpdate d # ops) s = run_metrics ops (UpdateFromHeartbeat d s)"
| "run_metrics (MRemove n # ops) s = run_metrics ops (RemoveNode n s)"

fun live_nodes :: "metrics_op list \<Rightarrow> string set \<Rightarrow> string set" where
  "live_nodes [] N = N"
| "live_nodes (MUpdate d # ops) N = live_nodes ops (insert (hd_NodeID d) N)"
| "live_nodes (MRemove n # ops) N = live_nodes ops (N - {n})"

lemma run_metrics_reg: "run_metrics ops s = reg.run_ops ops s"
  by (induction ops s rule: run_metrics.induct) simp_all

lemma live_nodes_reg: "live_nodes ops N = reg.live ops N"
  by (induction ops N rule: live_nodes.induct) simp_all

end
