(* ===== verification/World.thy ===== *)
theory World
  imports Wire Metrics
begin

text \<open>
  The environment of the program. Everything that is not in the repository is a field of the
  record \<open>ext\<close> over an abstract world \<open>'w\<close>: the Kubernetes API client and the apimachinery
  helpers, the HTTP transport (agents and registries), JSON decoding, cryptography, the clock and
  RFC 3339 text. The definitions of the components take such a record as an argument and nothing
  is assumed of it, so a theorem about them holds for every behaviour of the environment; what a
  property needs to know of it is one of the named predicates at the end.

  A step of the program is a state transformer over \<open>sys\<close>: the world, the in-process metrics,
  and the log of the external calls made so far, each with whether it succeeded.
\<close>

section \<open>Calls\<close>

datatype call =
    CGetNode obj_key
  | CGetDeployment obj_key
  | CGetConfigMap obj_key
  | CGetSecret obj_key
  | CGetService obj_key
  | CGetSlice obj_key
  | CListNodes "string option"
  | CListDeployments string
  | CPatchDeployment mcudeployment mcudeployment
  | CPatchDeploymentStatus mcudeployment mcudeployment
  | CPatchNodeStatus bool mcunode mcunode
  | CPatchSecret secret secret
  | CUpdateNode mcunode
  | CCreateService service
  | CPatchService service service
  | CCreateSlice endpoint_slice
  | CPatchSlice endpoint_slice endpoint_slice
  | CHttp http_request
  | CEvent obj_key string string string
  | CLog string string string string string  \<comment> \<open>a log line of a device\<close>
  | CServerLog string string string
  | CWsClose int string
  | CMetrics metrics_op
  | CTime

record 'w sys =
  world :: 'w
  mstate :: metrics_state
  calls :: "(call \<times> bool) list"

section \<open>The environment\<close>

record 'w ext =
  \<comment> \<open>controller-runtime client\<close>
  kGetNode :: "obj_key \<Rightarrow> 'w \<Rightarrow> (gerr + mcunode) \<times> 'w"
  kGetDeployment :: "obj_key \<Rightarrow> 'w \<Rightarrow> (gerr + mcudeployment) \<times> 'w"
  kGetConfigMap :: "obj_key \<Rightarrow> 'w \<Rightarrow> (gerr + mcuconfigmap) \<times> 'w"
  kGetSecret :: "obj_key \<Rightarrow> 'w \<Rightarrow> (gerr + secret) \<times> 'w"
  kGetService :: "obj_key \<Rightarrow> 'w \<Rightarrow> (gerr + service) \<times> 'w"
  kGetSlice :: "obj_key \<Rightarrow> 'w \<Rightarrow> (gerr + endpoint_slice) \<times> 'w"
  kListNodes :: "string option \<Rightarrow> 'w \<Rightarrow> (gerr + mcunode list) \<times> 'w"
  kListDeployments :: "string \<Rightarrow> 'w \<Rightarrow> (gerr + mcudeployment list) \<times> 'w"
  kPatchDeployment :: "mcudeployment \<Rightarrow> mcudeployment \<Rightarrow> 'w \<Rightarrow> (gerr + mcudeployment) \<times> 'w"
  kPatchDeploymentStatus :: "mcudeployment \<Rightarrow> mcudeployment \<Rightarrow> 'w \<Rightarrow> (gerr + mcudeployment) \<times> 'w"
  kPatchNodeStatus :: "bool \<Rightarrow> mcunode \<Rightarrow> mcunode \<Rightarrow> 'w \<Rightarrow> (gerr + mcunode) \<times> 'w"
  kPatchSecret :: "secret \<Rightarrow> secret \<Rightarrow> 'w \<Rightarrow> (gerr + secret) \<times> 'w"
  kUpdateNode :: "mcunode \<Rightarrow> 'w \<Rightarrow> (gerr + mcunode) \<times> 'w"
  kCreateService :: "service \<Rightarrow> 'w \<Rightarrow> (gerr + service) \<times> 'w"
  kPatchService :: "service \<Rightarrow> service \<Rightarrow> 'w \<Rightarrow> (gerr + service) \<times> 'w"
  kCreateSlice :: "endpoint_slice \<Rightarrow> 'w \<Rightarrow> (gerr + endpoint_slice) \<times> 'w"
  kPatchSlice :: "endpoint_slice \<Rightarrow> endpoint_slice \<Rightarrow> 'w \<Rightarrow> (gerr + endpoint_slice) \<times> 'w"
  \<comment> \<open>apimachinery, controllerutil, client-go\<close>
  kSetStatusCondition :: "condition list \<Rightarrow> condition \<Rightarrow> condition list"
  kFindStatusCondition :: "condition list \<Rightarrow> string \<Rightarrow> condition option"
  kContainsFinalizer :: "object_meta \<Rightarrow> string \<Rightarrow> bool"
  kAddFinalizer :: "object_meta \<Rightarrow> string \<Rightarrow> object_meta \<times> bool"
  kRemoveFinalizer :: "object_meta \<Rightarrow> string \<Rightarrow> object_meta"
  kSetControllerReference :: "mcunode \<Rightarrow> object_meta \<Rightarrow> gerr + object_meta"
  kRetryOnConflict :: "('w sys \<Rightarrow> (gerr + mcunode) \<times> 'w sys) \<Rightarrow> 'w sys \<Rightarrow> (gerr + mcunode) \<times> 'w sys"
  \<comment> \<open>net/http\<close>
  hNewRequest :: "string \<Rightarrow> string \<Rightarrow> gerr option"
  hDo :: "http_request \<Rightarrow> 'w \<Rightarrow> (gerr + http_response) \<times> 'w"
  \<comment> \<open>encoding/json\<close>
  jInfo :: "http_body \<Rightarrow> gerr + info_response"
  jHealth :: "http_body \<Rightarrow> gerr + health_response"
  jPrepare :: "http_body \<Rightarrow> gerr + prepare_response"
  jConfig :: "http_body \<Rightarrow> gerr + config_response"
  jManifest :: "http_body \<Rightarrow> gerr + manifest"
  jWriteResult :: "string \<Rightarrow> gerr + (string \<times> string)"
  jWritten :: "string \<Rightarrow> int"
  jHeartbeat :: "string \<Rightarrow> gerr + heartbeat_payload"
  jLog :: "string \<Rightarrow> gerr + log_payload"
  \<comment> \<open>crypto, encoding/base64, time\<close>
  xSHA256Hex :: "string \<Rightarrow> string"
  xBase64Encode :: "string \<Rightarrow> string"
  xBase64Decode :: "string \<Rightarrow> string option"
  xEd25519Verify :: "string \<Rightarrow> string \<Rightarrow> string \<Rightarrow> bool"
  tNow :: "'w \<Rightarrow> int \<times> 'w"
  tFormat :: "int \<Rightarrow> string"
  tParse :: "string \<Rightarrow> int option"

section \<open>External calls as state transformers\<close>

definition ext_call :: "call \<Rightarrow> ('w \<Rightarrow> (gerr + 'a) \<times> 'w) \<Rightarrow> ('w sys, gerr + 'a) state" where
  "ext_call c f = State (\<lambda>s. case f (world s) of (r, w') \<Rightarrow>
     (r, s\<lparr>world := w', calls := calls s @ [(c, \<not> isl r)]\<rparr>))"

definition emit :: "call \<Rightarrow> ('w sys, unit) state" where
  "emit c = State (\<lambda>s. ((), s\<lparr>calls := calls s @ [(c, True)]\<rparr>))"

definition now :: "'w ext \<Rightarrow> ('w sys, int) state" where
  "now E = State (\<lambda>s. case tNow E (world s) of (t, w') \<Rightarrow>
     (t, s\<lparr>world := w', calls := calls s @ [(CTime, True)]\<rparr>))"

text \<open>\<open>metrics.UpdateFromHeartbeat\<close> and \<open>metrics.RemoveNode\<close> on the in-process state.\<close>

definition metrics_update :: "heartbeat_data \<Rightarrow> ('w sys, unit) state" where
  "metrics_update d = State (\<lambda>s. ((), s\<lparr>mstate := UpdateFromHeartbeat d (mstate s),
     calls := calls s @ [(CMetrics (MUpdate d), True)]\<rparr>))"

definition metrics_remove :: "string \<Rightarrow> ('w sys, unit) state" where
  "metrics_remove n = State (\<lambda>s. ((), s\<lparr>mstate := RemoveNode n (mstate s),
     calls := calls s @ [(CMetrics (MRemove n), True)]\<rparr>))"

abbreviation "getNode E k \<equiv> ext_call (CGetNode k) (kGetNode E k)"
abbreviation "getDeployment E k \<equiv> ext_call (CGetDeployment k) (kGetDeployment E k)"
abbreviation "getConfigMap E k \<equiv> ext_call (CGetConfigMap k) (kGetConfigMap E k)"
abbreviation "getSecret E k \<equiv> ext_call (CGetSecret k) (kGetSecret E k)"
abbreviation "getService E k \<equiv> ext_call (CGetService k) (kGetService E k)"
abbreviation "getSlice E k \<equiv> ext_call (CGetSlice k) (kGetSlice E k)"
abbreviation "listNodes E ns \<equiv> ext_call (CListNodes ns) (kListNodes E ns)"
abbreviation "listDeployments E ns \<equiv> ext_call (CListDeployments ns) (kListDeployments E ns)"
abbreviation "patchDeployment E b d \<equiv> ext_call (CPatchDeployment b d) (kPatchDeployment E b d)"
abbreviation "patchDeploymentStatus E b d \<equiv>
  ext_call (CPatchDeploymentStatus b d) (kPatchDeploymentStatus E b d)"
abbreviation "patchNodeStatus E lock b n \<equiv>
  ext_call (CPatchNodeStatus lock b n) (kPatchNodeStatus E lock b n)"
abbreviation "patchSecret E b x \<equiv> ext_call (CPatchSecret b x) (kPatchSecret E b x)"
abbreviation "updateNode E n \<equiv> ext_call (CUpdateNode n) (kUpdateNode E n)"
abbreviation "createService E x \<equiv> ext_call (CCreateService x) (kCreateService E x)"
abbreviation "patchService E b x \<equiv> ext_call (CPatchService b x) (kPatchService E b x)"
abbreviation "createSlice E x \<equiv> ext_call (CCreateSlice x) (kCreateSlice E x)"
abbreviation "patchSlice E b x \<equiv> ext_call (CPatchSlice b x) (kPatchSlice E b x)"
abbreviation "httpDo E q \<equiv> ext_call (CHttp q) (hDo E q)"
abbreviation "event m ty reason msg \<equiv> emit (CEvent (obj_key_of m) ty reason msg)"

lemma wp_ext_call [wp_simps]:
  "wp (ext_call c f) Q s =
     (case f (world s) of (r, w') \<Rightarrow> Q r (s\<lparr>world := w', calls := calls s @ [(c, \<not> isl r)]\<rparr>))"
  by (simp add: ext_call_def wp_simps split: prod.splits)

lemma wp_emit [wp_simps]: "wp (emit c) Q s = Q () (s\<lparr>calls := calls s @ [(c, True)]\<rparr>)"
  by (simp add: emit_def wp_simps)

lemma wp_now [wp_simps]:
  "wp (now E) Q s =
     (case tNow E (world s) of (t, w') \<Rightarrow> Q t (s\<lparr>world := w', calls := calls s @ [(CTime, True)]\<rparr>))"
  by (simp add: now_def wp_simps split: prod.splits)

lemma wp_metrics_update [wp_simps]:
  "wp (metrics_update d) Q s = Q () (s\<lparr>mstate := UpdateFromHeartbeat d (mstate s),
     calls := calls s @ [(CMetrics (MUpdate d), True)]\<rparr>)"
  by (simp add: metrics_update_def wp_simps)

lemma wp_metrics_remove [wp_simps]:
  "wp (metrics_remove n) Q s = Q () (s\<lparr>mstate := RemoveNode n (mstate s),
     calls := calls s @ [(CMetrics (MRemove n), True)]\<rparr>)"
  by (simp add: metrics_remove_def wp_simps)

section \<open>Which calls a computation can make\<close>

text \<open>
  \<open>emits P m\<close>: whatever the environment does, every call that \<open>m\<close> adds to the log satisfies
  \<open>P\<close>. It is closed under sequencing and case distinction, so a statement about all calls of a
  handler is proved from its parts.
\<close>

definition emits :: "(call \<times> bool \<Rightarrow> bool) \<Rightarrow> ('w sys, 'a) state \<Rightarrow> bool" where
  "emits P m \<longleftrightarrow> (\<forall>s. wp m (\<lambda>_ t. \<exists>l. calls t = calls s @ l \<and> list_all P l) s)"

lemma emitsI: "(\<And>s. wp m (\<lambda>_ t. \<exists>l. calls t = calls s @ l \<and> list_all P l) s) \<Longrightarrow> emits P m"
  by (simp add: emits_def)

lemma emitsD: "emits P m \<Longrightarrow> run_state m s = (a, t) \<Longrightarrow> \<exists>l. calls t = calls s @ l \<and> list_all P l"
  by (auto simp: emits_def wp_def split: prod.splits)

lemma emits_new: "emits P m \<Longrightarrow> run_state m s = (a, t) \<Longrightarrow> c \<in> set (drop (length (calls s)) (calls t)) \<Longrightarrow> P c"
  by (auto dest!: emitsD [of P m s a t] simp: list_all_iff)

lemma emits_return [emits_intros]: "emits P (State_Monad.return a)"
  by (rule emitsI) (simp add: wp_simps)

lemma emits_bind [emits_intros]:
  assumes m: "emits P m" and f: "\<And>a. emits P (f a)"
  shows "emits P (State_Monad.bind m f)"
proof (rule emitsI)
  fix s
  show "wp (State_Monad.bind m f) (\<lambda>_ t. \<exists>l. calls t = calls s @ l \<and> list_all P l) s"
  proof (rule wpI)
    fix b u assume "run_state (State_Monad.bind m f) s = (b, u)"
    then obtain a t where 1: "run_state m s = (a, t)" and 2: "run_state (f a) t = (b, u)"
      by (auto split: prod.splits)
    from emitsD [OF m 1] emitsD [OF f 2]
    show "\<exists>l. calls u = calls s @ l \<and> list_all P l" by auto
  qed
qed

lemma emits_ext_call [emits_intros]: "(\<And>b. P (c, b)) \<Longrightarrow> emits P (ext_call c f)"
  by (rule emitsI) (simp add: wp_simps split: prod.splits)

lemma emits_ext_bind:
  fixes f :: "'a \<Rightarrow> (gerr + 'b) \<times> 'a"
  assumes "\<And>b. P (c, b)" "\<And>w r w'. f w = (r, w') \<Longrightarrow> emits P (g r)"
  shows "emits P (State_Monad.bind (ext_call c f) g)"
proof (rule emitsI)
  fix s :: "'a sys"
  obtain r w' where f: "f (world s) = (r, w')" by (metis surj_pair)
  then have "wp (g r) (\<lambda>_ t. \<exists>l. calls t = calls (s\<lparr>world := w', calls := calls s @ [(c, \<not> isl r)]\<rparr>) @ l \<and> list_all P l)
      (s\<lparr>world := w', calls := calls s @ [(c, \<not> isl r)]\<rparr>)"
    using assms(2) [OF f] by (simp only: emits_def)
  then have "wp (g r) (\<lambda>_ t. \<exists>l. calls t = calls s @ l \<and> list_all P l)
      (s\<lparr>world := w', calls := calls s @ [(c, \<not> isl r)]\<rparr>)"
    by (rule wp_conseq) (use assms(1) in auto)
  with f show "wp (State_Monad.bind (ext_call c f) g) (\<lambda>_ t. \<exists>l. calls t = calls s @ l \<and> list_all P l) s"
    by (simp add: wp_simps wp_ext_call)
qed

lemma emits_emit [emits_intros]: "P (c, True) \<Longrightarrow> emits P (emit c)"
  by (rule emitsI) (simp add: wp_simps)

lemma emits_now [emits_intros]: "P (CTime, True) \<Longrightarrow> emits P (now E)"
  by (rule emitsI) (simp add: wp_simps split: prod.splits)

lemma emits_metrics_update [emits_intros]:
  "P (CMetrics (MUpdate d), True) \<Longrightarrow> emits P (metrics_update d)"
  by (rule emitsI) (simp add: wp_simps)

lemma emits_metrics_remove [emits_intros]:
  "P (CMetrics (MRemove n), True) \<Longrightarrow> emits P (metrics_remove n)"
  by (rule emitsI) (simp add: wp_simps)

lemma emits_if [emits_intros]:
  "(b \<Longrightarrow> emits P m) \<Longrightarrow> (\<not> b \<Longrightarrow> emits P n) \<Longrightarrow> emits P (if b then m else n)"
  by simp

lemma emits_case_sum [emits_intros]:
  "(\<And>e. r = Inl e \<Longrightarrow> emits P (f e)) \<Longrightarrow> (\<And>x. r = Inr x \<Longrightarrow> emits P (g x)) \<Longrightarrow>
     emits P (case r of Inl e \<Rightarrow> f e | Inr x \<Rightarrow> g x)"
  by (simp split: sum.splits)

lemma emits_case_option [emits_intros]:
  "(r = None \<Longrightarrow> emits P f) \<Longrightarrow> (\<And>x. r = Some x \<Longrightarrow> emits P (g x)) \<Longrightarrow>
     emits P (case r of None \<Rightarrow> f | Some x \<Rightarrow> g x)"
  by (simp split: option.splits)

lemma emits_case_prod [emits_intros]:
  "(\<And>x y. r = (x, y) \<Longrightarrow> emits P (f x y)) \<Longrightarrow> emits P (case r of (x, y) \<Rightarrow> f x y)"
  by (simp split: prod.splits)

lemma emits_case_list [emits_intros]:
  "(r = [] \<Longrightarrow> emits P f) \<Longrightarrow> (\<And>x xs. r = x # xs \<Longrightarrow> emits P (g x xs)) \<Longrightarrow>
     emits P (case r of [] \<Rightarrow> f | x # xs \<Rightarrow> g x xs)"
  by (simp split: list.splits)

lemma emits_Let [emits_intros]: "emits P (f x) \<Longrightarrow> emits P (Let x f)"
  by simp

lemma emits_mono: "emits P m \<Longrightarrow> (\<And>c. P c \<Longrightarrow> Q c) \<Longrightarrow> emits Q m"
  unfolding emits_def by (blast intro: wp_conseq list.pred_mono_strong)

text \<open>The calls of one run from a given state, when what is allowed depends on what was read first.\<close>

definition adds :: "(call \<times> bool \<Rightarrow> bool) \<Rightarrow> ('w sys, 'a) state \<Rightarrow> 'w sys \<Rightarrow> bool" where
  "adds P m s \<longleftrightarrow> wp m (\<lambda>_ t. \<exists>l. calls t = calls s @ l \<and> list_all P l) s"

lemma emits_adds: "emits P m \<Longrightarrow> adds P m s"
  by (simp add: emits_def adds_def)

lemma adds_new:
  "adds P m s \<Longrightarrow> run_state m s = (a, t) \<Longrightarrow> c \<in> set (drop (length (calls s)) (calls t)) \<Longrightarrow> P c"
  unfolding adds_def by (drule (1) wpD) (auto simp: list_all_iff)

lemma adds_bind:
  assumes m: "emits P m" and f: "wp m (\<lambda>a t. adds P (f a) t) s"
  shows "adds P (State_Monad.bind m f) s"
  unfolding adds_def
proof (rule wpI)
  fix b u assume "run_state (State_Monad.bind m f) s = (b, u)"
  then obtain a t where 1: "run_state m s = (a, t)" and 2: "run_state (f a) t = (b, u)"
    by (auto split: prod.splits)
  from wpD [OF f 1] wpD [OF _ 2, of "\<lambda>_ u. \<exists>l. calls u = calls t @ l \<and> list_all P l"]
  have "\<exists>l. calls u = calls t @ l \<and> list_all P l" by (simp add: adds_def)
  with emitsD [OF m 1] show "\<exists>l. calls u = calls s @ l \<and> list_all P l" by auto
qed

lemma adds_run_bind:
  "emits P m \<Longrightarrow> run_state m s = (a, u) \<Longrightarrow> adds P (f a) u \<Longrightarrow> adds P (State_Monad.bind m f) s"
  by (rule adds_bind) (auto intro: wpI)

section \<open>Documented behaviour that properties rely on\<close>

text \<open>
  \<open>meta.SetStatusCondition\<close> stores the given condition under its type and leaves the other
  types alone; \<open>meta.FindStatusCondition\<close> reads it back.
\<close>

definition cond_laws :: "'w ext \<Rightarrow> bool" where
  "cond_laws E \<longleftrightarrow>
     (\<forall>cs c. kFindStatusCondition E (kSetStatusCondition E cs c) (c_Type c) = Some c) \<and>
     (\<forall>cs c t. t \<noteq> c_Type c \<longrightarrow>
        kFindStatusCondition E (kSetStatusCondition E cs c) t = kFindStatusCondition E cs t)"

lemma cond_laws_same: "cond_laws E \<Longrightarrow>
    kFindStatusCondition E (kSetStatusCondition E cs c) (c_Type c) = Some c"
  by (simp add: cond_laws_def)

lemma cond_laws_other: "cond_laws E \<Longrightarrow> t \<noteq> c_Type c \<Longrightarrow>
    kFindStatusCondition E (kSetStatusCondition E cs c) t = kFindStatusCondition E cs t"
  by (simp add: cond_laws_def)

text \<open>
  \<open>retry.RetryOnConflict\<close> runs the function, and again after an attempt that ended in a
  conflict, as often as its backoff allows; it returns what the last attempt returned.
\<close>

inductive retry_runs :: "('s \<Rightarrow> (gerr + 'a) \<times> 's) \<Rightarrow> 's \<Rightarrow> (gerr + 'a) \<times> 's \<Rightarrow> bool"
  for fn where
  last: "retry_runs fn s (fn s)"
| again: "fn s = (Inl e, t) \<Longrightarrow> is_conflict e \<Longrightarrow> retry_runs fn t r \<Longrightarrow> retry_runs fn s r"

definition retry_law :: "'w ext \<Rightarrow> bool" where
  "retry_law E \<longleftrightarrow> (\<forall>fn s. retry_runs fn s (kRetryOnConflict E fn s))"

lemma retry_runs_post:
  assumes "retry_runs fn s r"
    and "\<And>s. I s \<Longrightarrow> I (snd (fn s))"
    and "\<And>s x t. I s \<Longrightarrow> fn s = (Inr x, t) \<Longrightarrow> Q x t"
    and "I s"
  shows "I (snd r) \<and> (\<forall>x t. r = (Inr x, t) \<longrightarrow> Q x t)"
  using assms(1,4)
proof (induction rule: retry_runs.induct)
  case (last s)
  then show ?case using assms(2,3) by auto
next
  case (again s e t r)
  then show ?case using assms(2) [of s] by simp
qed

text \<open>A patch of a deployment's metadata returns the annotations that were sent.\<close>

definition annotation_echo :: "'w ext \<Rightarrow> bool" where
  "annotation_echo E \<longleftrightarrow>
     (\<forall>b d w d' w'. kPatchDeployment E b d w = (Inr d', w') \<longrightarrow>
        m_Annotations (d_Meta d') = m_Annotations (d_Meta d))"

text \<open>
  A status patch of a deployment, whose status this controller alone writes, and a status patch of
  a node under the optimistic lock, which fails unless the base is current, return the object
  with the status that was sent.
\<close>

definition patch_echo :: "'w ext \<Rightarrow> bool" where
  "patch_echo E \<longleftrightarrow>
     (\<forall>b d w d' w'. kPatchDeploymentStatus E b d w = (Inr d', w') \<longrightarrow>
        d_Status d' = d_Status d \<and> d_Spec d' = d_Spec d) \<and>
     (\<forall>b n w n' w'. kPatchNodeStatus E True b n w = (Inr n', w') \<longrightarrow>
        n_Status n' = n_Status n \<and> n_Spec n' = n_Spec n)"

text \<open>
  An object that is read has the key it was asked for under, and a patch returns the object that was patched.
  The status of a deployment changes by this controller's status patches only, so a patch of its metadata
  returns the status as it is.
\<close>

definition get_law :: "'w ext \<Rightarrow> bool" where
  "get_law E \<longleftrightarrow> (\<forall>k w n w'. kGetNode E k w = (Inr n, w') \<longrightarrow> obj_key_of (n_Meta n) = k)"

definition patch_keys :: "'w ext \<Rightarrow> bool" where
  "patch_keys E \<longleftrightarrow>
     (\<forall>lock b n w n' w'. kPatchNodeStatus E lock b n w = (Inr n', w') \<longrightarrow> obj_key_of (n_Meta n') = obj_key_of (n_Meta n)) \<and>
     (\<forall>b d w d' w'. kPatchDeployment E b d w = (Inr d', w') \<longrightarrow>
        obj_key_of (d_Meta d') = obj_key_of (d_Meta d) \<and> d_Status d' = d_Status d) \<and>
     (\<forall>b d w d' w'. kPatchDeploymentStatus E b d w = (Inr d', w') \<longrightarrow> obj_key_of (d_Meta d') = obj_key_of (d_Meta d))"

end
