(* ===== verification/Oci.thy ===== *)
theory Oci
  imports World
begin

text \<open>
  \<open>internal/oci/client.go\<close>: image references, the manifest and its signature, the choice of the
  firmware layer, and the blob stream that hashes what is read from it.
\<close>

section \<open>Client\<close>

definition mediaTypeOCIManifest :: string where
  "mediaTypeOCIManifest = ''application/vnd.oci.image.manifest.v1+json''"
definition mediaTypeOCIArtifact :: string where
  "mediaTypeOCIArtifact = ''application/vnd.oci.artifact.manifest.v1+json''"
definition mediaTypeDocker2 :: string where
  "mediaTypeDocker2 = ''application/vnd.docker.distribution.manifest.v2+json''"
definition MediaTypeFirmwareBin :: string where
  "MediaTypeFirmwareBin = ''application/vnd.embewi.firmware.bin''"
definition signatureAnnotation :: string where
  "signatureAnnotation = ''embewi.io/signature''"

record oci_client =
  oc_Username :: string
  oc_Password :: string
  oc_InsecureTLS :: bool
  oc_TrustedPubKey :: "string option"

datatype oci_option =
    WithBasicAuth string string
  | WithInsecureTLS
  | WithTrustedPublicKey "string option"

fun apply_option :: "oci_option \<Rightarrow> oci_client \<Rightarrow> oci_client" where
  "apply_option (WithBasicAuth u p) c = c\<lparr>oc_Username := u, oc_Password := p\<rparr>"
| "apply_option WithInsecureTLS c = c\<lparr>oc_InsecureTLS := True\<rparr>"
| "apply_option (WithTrustedPublicKey k) c = c\<lparr>oc_TrustedPubKey := k\<rparr>"

definition oci_New :: "oci_option list \<Rightarrow> oci_client" where
  "oci_New opts = fold apply_option opts
     \<lparr>oc_Username = '''', oc_Password = '''', oc_InsecureTLS = False, oc_TrustedPubKey = None\<rparr>"

section \<open>Image references\<close>

record ref =
  ref_registry :: string
  ref_repo :: string
  ref_tag :: string

definition parseRef :: "string \<Rightarrow> gerr + ref" where
  "parseRef img =
     (case index_of (CHR ''/'') img of
        None \<Rightarrow> Inl (Errorf [] (''r'' @ e_acute @ ''f'' @ e_acute
          @ ''rence OCI invalide (format attendu: registre/repo:tag) : '' @ goq img))
      | Some i \<Rightarrow>
          let registry = take i img; rest = drop (Suc i) img
          in (case last_index_of (CHR '':'') rest of
                None \<Rightarrow> Inr \<lparr>ref_registry = registry, ref_repo = rest, ref_tag = ''latest''\<rparr>
              | Some idx \<Rightarrow> Inr \<lparr>ref_registry = registry, ref_repo = take idx rest,
                                ref_tag = drop (idx + 1) rest\<rparr>))"

definition scheme :: "string \<Rightarrow> string" where
  "scheme registry =
     (let host = (case splitHostPort registry of Some (h, _) \<Rightarrow> h | None \<Rightarrow> registry)
      in if host = ''localhost'' \<or> hasPrefix host ''127.'' then ''http'' else ''https'')"

lemma parseRef_tagged:
  assumes "CHR ''/'' \<notin> set reg" and "CHR '':'' \<notin> set tag"
  shows "parseRef (reg @ ''/'' @ repo @ '':'' @ tag) =
    Inr \<lparr>ref_registry = reg, ref_repo = repo, ref_tag = tag\<rparr>"
  using assms by (simp add: parseRef_def)

lemma parseRef_untagged:
  assumes "CHR ''/'' \<notin> set reg" and "CHR '':'' \<notin> set repo"
  shows "parseRef (reg @ ''/'' @ repo) =
    Inr \<lparr>ref_registry = reg, ref_repo = repo, ref_tag = ''latest''\<rparr>"
  using assms last_index_of_None [of "CHR '':''" repo]
  by (simp add: parseRef_def del: last_index_of_None)

lemma parseRef_error: "isl (parseRef img) \<longleftrightarrow> CHR ''/'' \<notin> set img"
proof (cases "index_of (CHR ''/'') img")
  case None
  then show ?thesis using index_of_None [of "CHR ''/''" img] by (simp add: parseRef_def del: index_of_None)
next
  case (Some i)
  then show ?thesis
    using index_of_mem [OF Some] by (auto simp: parseRef_def Let_def split: option.splits)
qed

section \<open>Manifest\<close>

definition oci_auth :: "'w ext \<Rightarrow> oci_client \<Rightarrow> (string \<times> string) list" where
  "oci_auth E c =
     (if oc_Username c \<noteq> ''''
      then [(''Authorization'', ''Basic '' @ xBase64Encode E (oc_Username c @ '':'' @ oc_Password c))]
      else [])"

text \<open>\<open>&http.Client{Timeout: 120 * time.Second}\<close>: the deadline covers the reading of the response body.\<close>

definition ociTimeout :: int where "ociTimeout = 120 * second"

definition oci_get :: "string \<Rightarrow> (string \<times> string) list \<Rightarrow> http_request" where
  "oci_get url hdrs =
     \<lparr>rq_Timeout = Some ociTimeout, rq_Method = ''GET'', rq_URL = url, rq_Headers = hdrs,
      rq_ContentLength = None, rq_Body = BNone\<rparr>"

definition getManifest :: "'w ext \<Rightarrow> oci_client \<Rightarrow> ref \<Rightarrow> ('w sys, gerr + manifest) state" where
  "getManifest E c r =
     (let url = scheme (ref_registry r) @ ''://'' @ ref_registry r @ ''/v2/'' @ ref_repo r
                @ ''/manifests/'' @ ref_tag r in
      case hNewRequest E ''GET'' url of
        Some err \<Rightarrow> ret (Inl err)
      | None \<Rightarrow> do {
          resp \<leftarrow> httpDo E (oci_get url
            ((''Accept'', mediaTypeOCIManifest @ '', '' @ mediaTypeOCIArtifact @ '', '' @ mediaTypeDocker2)
             # oci_auth E c));
          (case resp of
             Inl err \<Rightarrow> ret (Inl (wrap_err (''GET manifeste '' @ ref_registry r @ ''/'' @ ref_repo r
                                          @ '':'' @ ref_tag r @ '': '') err))
           | Inr rs \<Rightarrow>
               if rs_StatusCode rs \<noteq> 200 then
                 ret (Inl (Errorf [] (''GET manifeste '' @ arrow @ '' HTTP '' @ dec (rs_StatusCode rs)
                   @ '': '' @ fst (readAllLimited 512 (rs_Body rs)))))
               else
                 (case jManifest E (rs_Body rs) of
                    Inl err \<Rightarrow> ret (Inl (wrap_err (''d'' @ e_acute @ ''codage manifeste: '') err))
                  | Inr m \<Rightarrow> ret (Inr m)))
        })"

record firmware_meta =
  fm_Digest :: string
  fm_Size :: int
  fm_Chip :: string
  fm_IDFVersion :: string

definition firmwareMetaFromLayer :: "descriptor \<Rightarrow> (string \<rightharpoonup> string) \<Rightarrow> firmware_meta" where
  "firmwareMetaFromLayer l manifestAnnotations =
     (let chip = mget (de_Annotations l) ''embewi.io/chip'';
          idf = mget (de_Annotations l) ''embewi.io/idf-version'';
          chip = (if chip = '''' then mget manifestAnnotations ''embewi.io/chip'' else chip);
          idf = (if idf = '''' then mget manifestAnnotations ''embewi.io/idf-version'' else idf)
      in \<lparr>fm_Digest = de_Digest l, fm_Size = de_Size l, fm_Chip = chip, fm_IDFVersion = idf\<rparr>)"

text \<open>The loop over the layers and its fallback: the layer the metadata are taken from.\<close>

fun find_firmware_layer :: "descriptor list \<Rightarrow> descriptor option" where
  "find_firmware_layer [] = None"
| "find_firmware_layer (l # ls) =
     (if de_MediaType l = MediaTypeFirmwareBin then Some l else find_firmware_layer ls)"

definition select_layer :: "descriptor list \<Rightarrow> descriptor option" where
  "select_layer layers =
     (case find_firmware_layer layers of
        Some l \<Rightarrow> Some l
      | None \<Rightarrow> (case layers of [] \<Rightarrow> None | l # _ \<Rightarrow> Some l))"

definition verifySignature ::
  "'w ext \<Rightarrow> oci_client \<Rightarrow> (string \<rightharpoonup> string) \<Rightarrow> string \<Rightarrow> gerr option" where
  "verifySignature E c annotations digest =
     (case oc_TrustedPubKey c of
        None \<Rightarrow> None
      | Some key \<Rightarrow>
          (case annotations signatureAnnotation of
             None \<Rightarrow> Some (Sentinel ErrSignatureMissing)
           | Some sigB64 \<Rightarrow>
               (case xBase64Decode E sigB64 of
                  None \<Rightarrow> Some (Errorf [Sentinel ErrSignatureInvalid]
                    (sentinel_text ErrSignatureInvalid @ '': annotation '' @ signatureAnnotation
                     @ '' non d'' @ e_acute @ ''codable en base64''))
                | Some sig \<Rightarrow>
                    if \<not> xEd25519Verify E key digest sig then Some (Sentinel ErrSignatureInvalid)
                    else None)))"

text \<open>The part of \<open>ResolveFirmware\<close> after the manifest has been fetched.\<close>

definition resolve_manifest :: "'w ext \<Rightarrow> oci_client \<Rightarrow> string \<Rightarrow> manifest \<Rightarrow> gerr + firmware_meta" where
  "resolve_manifest E c img m =
     (case select_layer (ma_Layers m) of
        None \<Rightarrow> Inl (Errorf [] (''aucune layer trouv'' @ e_acute @ ''e dans '' @ goq img))
      | Some l \<Rightarrow>
          let meta = firmwareMetaFromLayer l (ma_Annotations m) in
          (case verifySignature E c (ma_Annotations m) (fm_Digest meta) of
             Some err \<Rightarrow> Inl (wrap_err (''image '' @ goq img @ '': '') err)
           | None \<Rightarrow> Inr meta))"

definition ResolveFirmware ::
  "'w ext \<Rightarrow> oci_client \<Rightarrow> string \<Rightarrow> ('w sys, gerr + firmware_meta) state" where
  "ResolveFirmware E c img =
     (case parseRef img of
        Inl err \<Rightarrow> ret (Inl err)
      | Inr r \<Rightarrow> do {
          mres \<leftarrow> getManifest E c r;
          (case mres of
             Inl err \<Rightarrow> ret (Inl err)
           | Inr m \<Rightarrow> ret (resolve_manifest E c img m))
        })"

lemma verifySignature_ok:
  "verifySignature E c ann d = None \<longleftrightarrow>
     (\<forall>key. oc_TrustedPubKey c = Some key \<longrightarrow>
        (\<exists>s64 sig. ann signatureAnnotation = Some s64 \<and> xBase64Decode E s64 = Some sig
           \<and> xEd25519Verify E key d sig))"
  by (auto simp: verifySignature_def split: option.splits if_splits)

lemma resolve_manifest_ok:
  "resolve_manifest E c img m = Inr meta \<longleftrightarrow>
     (\<exists>l. select_layer (ma_Layers m) = Some l \<and> meta = firmwareMetaFromLayer l (ma_Annotations m)
        \<and> verifySignature E c (ma_Annotations m) (de_Digest l) = None)"
  by (auto simp: resolve_manifest_def Let_def firmwareMetaFromLayer_def split: option.splits)

lemma find_firmware_layer_find:
  "find_firmware_layer ls = find (\<lambda>l. de_MediaType l = MediaTypeFirmwareBin) ls"
  by (induction ls) auto

text \<open>What a successful resolution went through: one manifest, fetched with status 200.\<close>

lemma ResolveFirmware_run:
  assumes "run_state (ResolveFirmware E c img) s = (Inr meta, t)"
  obtains r m rq rs w where "parseRef img = Inr r" and "hDo E rq (world s) = (Inr rs, w)"
    and "rs_StatusCode rs = 200" and "jManifest E (rs_Body rs) = Inr m"
    and "resolve_manifest E c img m = Inr meta"
    and "t = s\<lparr>world := w, calls := calls s @ [(CHttp rq, True)]\<rparr>"
proof -
  have "wp (ResolveFirmware E c img)
    (\<lambda>a t. \<forall>meta. a = Inr meta \<longrightarrow> (\<exists>r m rq rs w. parseRef img = Inr r \<and> hDo E rq (world s) = (Inr rs, w)
      \<and> rs_StatusCode rs = 200 \<and> jManifest E (rs_Body rs) = Inr m
      \<and> resolve_manifest E c img m = Inr meta
      \<and> t = s\<lparr>world := w, calls := calls s @ [(CHttp rq, True)]\<rparr>)) s"
    by (auto simp: ResolveFirmware_def getManifest_def Let_def wp_simps
        split: sum.splits option.splits prod.splits)
  then show ?thesis using assms that by (auto dest!: wpD)
qed

section \<open>Blob stream\<close>

record blob_stream =
  bs_body :: http_body
  bs_hashed :: string
  bs_wantDigest :: string
  bs_read :: int
  bs_mismatch :: "gerr option"

definition StreamBlob ::
  "'w ext \<Rightarrow> oci_client \<Rightarrow> string \<Rightarrow> string \<Rightarrow> ('w sys, gerr + blob_stream) state" where
  "StreamBlob E c img digest =
     (case parseRef img of
        Inl err \<Rightarrow> ret (Inl err)
      | Inr r \<Rightarrow>
          let url = scheme (ref_registry r) @ ''://'' @ ref_registry r @ ''/v2/'' @ ref_repo r
                    @ ''/blobs/'' @ digest in
          (case hNewRequest E ''GET'' url of
             Some err \<Rightarrow> ret (Inl err)
           | None \<Rightarrow> do {
               resp \<leftarrow> httpDo E (oci_get url (oci_auth E c));
               (case resp of
                  Inl err \<Rightarrow> ret (Inl (wrap_err (''GET blob '' @ digest @ '': '') err))
                | Inr rs \<Rightarrow>
                    if rs_StatusCode rs \<noteq> 200 then
                      ret (Inl (Errorf [] (''GET blob '' @ digest @ '' '' @ arrow @ '' HTTP ''
                                          @ dec (rs_StatusCode rs))))
                    else
                      ret (Inr \<lparr>bs_body = rs_Body rs, bs_hashed = [], bs_wantDigest = digest,
                                bs_read = 0, bs_mismatch = None\<rparr>))
             }))"

definition blob_Read ::
  "'w ext \<Rightarrow> nat \<Rightarrow> blob_stream \<Rightarrow> (string \<times> read_end option) \<times> blob_stream" where
  "blob_Read E n b =
     (case body_read n (bs_body b) of
        ((out, err), body') \<Rightarrow>
          let b1 = b\<lparr>bs_body := body'\<rparr>;
              b2 = (if 0 < length out
                    then b1\<lparr>bs_hashed := bs_hashed b1 @ out, bs_read := bs_read b1 + int (length out)\<rparr>
                    else b1);
              got = ''sha256:'' @ xSHA256Hex E (bs_hashed b2);
              b3 = (if err = Some REOF \<and> got \<noteq> bs_wantDigest b2
                    then b2\<lparr>bs_mismatch := Some (Errorf [Sentinel ErrBlobDigestMismatch]
                           (sentinel_text ErrBlobDigestMismatch @ '': attendu '' @ bs_wantDigest b2
                            @ '', calcul'' @ e_acute @ '' '' @ got @ '' ('' @ dec (bs_read b2)
                            @ '' octets lus)''))\<rparr>
                    else b2)
          in ((out, err), b3))"

definition blob_Err :: "blob_stream \<Rightarrow> gerr option" where
  "blob_Err b = bs_mismatch b"

lemma bs_body_blob_Read:
  "blob_Read E n b = (r, b') \<Longrightarrow> body_read n (bs_body b) = (r, bs_body b')"
  by (auto simp: blob_Read_def Let_def split: prod.splits if_splits)

text \<open>
  \<open>io.ReadFull(stream, buf)\<close> with \<open>len(buf) = want\<close>: it reads until the buffer is full or a read
  reports an end, which counts only if the buffer is not full by then.
\<close>

function readFull ::
  "'w ext \<Rightarrow> nat \<Rightarrow> string \<Rightarrow> blob_stream \<Rightarrow> (string \<times> gerr option) \<times> blob_stream" where
  "readFull E want acc b =
     (if want \<le> length acc then ((acc, None), b)
      else (case blob_Read E (want - length acc) b of
              ((out, None), b') \<Rightarrow> readFull E want (acc @ out) b'
            | ((out, Some e), b') \<Rightarrow>
                let acc' = acc @ out in
                if want \<le> length acc' then ((acc', None), b')
                else ((acc', Some (case e of
                         REOF \<Rightarrow> (if acc' = [] then IoEOF else UnexpectedEOF)
                       | RErr g \<Rightarrow> g)), b')))"
  by pat_completeness auto

termination
  by (relation "measure (\<lambda>(E, want, acc, b).
        length (body_content (bs_body b)) + length (hb_segs (bs_body b)))")
     (auto dest!: bs_body_blob_Read [OF sym] body_read_measure)

declare readFull.simps [simp del]

text \<open>The bytes not yet read.\<close>

definition bs_rest :: "blob_stream \<Rightarrow> string" where
  "bs_rest b = body_content (bs_body b)"

text \<open>
  The invariant of the stream: the hash has been fed with what was delivered, the counter is its
  length, and a recorded mismatch is a real one over the whole content.
\<close>

definition blob_inv :: "'w ext \<Rightarrow> string \<Rightarrow> blob_stream \<Rightarrow> bool" where
  "blob_inv E content b \<longleftrightarrow>
     bs_hashed b @ bs_rest b = content \<and> bs_read b = int (length (bs_hashed b)) \<and>
     (bs_mismatch b \<noteq> None \<longrightarrow> ''sha256:'' @ xSHA256Hex E content \<noteq> bs_wantDigest b)"

lemma blob_Read_facts:
  assumes "blob_Read E n b = ((out, e), b')"
  shows "bs_hashed b' = bs_hashed b @ out" "bs_rest b = out @ bs_rest b'"
    "bs_wantDigest b' = bs_wantDigest b" "bs_read b' = bs_read b + int (length out)"
    "length out \<le> n" "e \<noteq> None \<longrightarrow> bs_rest b' = []"
    "bs_mismatch b' \<noteq> None \<longrightarrow> bs_mismatch b \<noteq> None \<or>
       (e = Some REOF \<and> ''sha256:'' @ xSHA256Hex E (bs_hashed b') \<noteq> bs_wantDigest b)"
    "e = Some REOF \<Longrightarrow> ''sha256:'' @ xSHA256Hex E (bs_hashed b') \<noteq> bs_wantDigest b \<Longrightarrow> bs_mismatch b' \<noteq> None"
proof -
  note r = bs_body_blob_Read [OF assms]
  show "bs_rest b = out @ bs_rest b'" using body_read_content [OF r] by (simp add: bs_rest_def)
  show "length out \<le> n" using body_read_length [OF r] .
  show "e \<noteq> None \<longrightarrow> bs_rest b' = []"
    using r by (auto simp: bs_rest_def body_content_def dest!: body_read_end)
qed (use assms in \<open>auto simp: blob_Read_def Let_def split: prod.splits if_splits\<close>)

lemma blob_Read_inv:
  assumes "blob_Read E n b = (r, b')" and "blob_inv E content b"
  shows "blob_inv E content b'"
proof -
  obtain out e where r: "r = (out, e)" by (cases r)
  note f = blob_Read_facts [OF assms(1) [unfolded r]]
  from assms(2) f(1,2,4,6,7) show ?thesis
    by (auto simp: blob_inv_def f(3))
qed

lemma readFull_preserves:
  assumes "I b" and step: "\<And>n b r b'. blob_Read E n b = (r, b') \<Longrightarrow> I b \<Longrightarrow> I b'"
  shows "I (snd (readFull E want acc b))"
  using assms(1)
proof (induction "length (body_content (bs_body b)) + length (hb_segs (bs_body b))" arbitrary: acc b
    rule: less_induct)
  case less
  obtain out e b' where r: "blob_Read E (want - length acc) b = ((out, e), b')" by (metis surj_pair)
  have I: "I b'" using step [OF r less.prems] .
  show ?case
  proof (cases "want \<le> length acc \<or> e \<noteq> None")
    case True
    with r I less.prems show ?thesis
      by (subst readFull.simps) (auto simp: Let_def split: option.splits)
  next
    case False
    with bs_body_blob_Read [OF r] have "I (snd (readFull E want (acc @ out) b'))"
      by (intro less.hyps I body_read_measure [of "want - length acc"]) auto
    with False r show ?thesis by (subst readFull.simps) simp
  qed
qed

lemma readFull_inv: "blob_inv E content b \<Longrightarrow> blob_inv E content (snd (readFull E want acc b))"
  by (erule readFull_preserves) (erule (1) blob_Read_inv)

lemma readFull_wantDigest: "bs_wantDigest (snd (readFull E want acc b)) = bs_wantDigest b"
  by (rule readFull_preserves) (auto simp: blob_Read_def Let_def split: prod.splits if_splits)

text \<open>A full buffer holds exactly the next bytes of the stream.\<close>

lemma readFull_content:
  "readFull E want acc b = ((out, e), b') \<Longrightarrow> length acc \<le> want \<Longrightarrow>
     acc @ bs_rest b = out @ bs_rest b' \<and> length out \<le> want \<and> (e = None \<longleftrightarrow> length out = want) \<and>
     (e \<noteq> None \<longrightarrow> bs_rest b' = [])"
proof (induction E want acc b rule: readFull.induct)
  case (1 E want acc b)
  show ?case
  proof (cases "want \<le> length acc")
    case True
    with "1.prems" show ?thesis by (subst (asm) readFull.simps) auto
  next
    case False
    obtain o1 e1 b1 where r: "blob_Read E (want - length acc) b = ((o1, e1), b1)"
      by (metis surj_pair)
    note f = blob_Read_facts [OF r]
    show ?thesis
    proof (cases e1)
      case None
      from "1.prems" False r None have "readFull E want (acc @ o1) b1 = ((out, e), b')"
        by (subst (asm) readFull.simps) simp
      from "1.IH" [OF False r [symmetric] refl None this] f(2,5) False show ?thesis by auto
    next
      case (Some x)
      with "1.prems" False r f(2,5,6) show ?thesis
        by (subst (asm) readFull.simps) (auto simp: Let_def split: if_splits)
    qed
  qed
qed

lemma readFull_full:
  "readFull E want [] b = ((out, None), b') \<Longrightarrow> out = take want (bs_rest b) \<and> bs_rest b' = drop want (bs_rest b)"
  by (drule readFull_content) auto

lemma readFull_enough:
  assumes "want \<le> length (bs_rest b)"
  shows "\<exists>b'. readFull E want [] b = ((take want (bs_rest b), None), b') \<and> bs_rest b' = drop want (bs_rest b)"
proof -
  obtain out e b' where r: "readFull E want [] b = ((out, e), b')" by (metis surj_pair)
  from readFull_content [OF r] have c: "bs_rest b = out @ bs_rest b'" "e = None \<longleftrightarrow> length out = want"
    "e \<noteq> None \<longrightarrow> bs_rest b' = []" "length out \<le> want" by auto
  with assms have "e = None" by (metis append.right_neutral le_antisym)
  with r readFull_full [of E want b out b'] show ?thesis by auto
qed

section \<open>The requests to the registry\<close>

lemma emits_getManifest [emits_intros]:
  "(\<And>url hs b. P (CHttp (oci_get url hs), b)) \<Longrightarrow> emits P (getManifest E c r)"
  unfolding getManifest_def by (intro emits_intros) simp

lemma emits_ResolveFirmware [emits_intros]:
  "(\<And>url hs b. P (CHttp (oci_get url hs), b)) \<Longrightarrow> emits P (ResolveFirmware E c img)"
  unfolding ResolveFirmware_def by (intro emits_intros) simp

lemma emits_StreamBlob [emits_intros]:
  "(\<And>url hs b. P (CHttp (oci_get url hs), b)) \<Longrightarrow> emits P (StreamBlob E c img digest)"
  unfolding StreamBlob_def by (intro emits_intros) simp

end
