(* ===== verification/Agent.thy ===== *)
theory Agent
  imports Oci
begin

text \<open>
  \<open>internal/agent/client.go\<close>: the HTTPS client of a device. Every operation builds one request
  (\<open>doWith\<close>) and interprets the status and the body of the response; \<open>OTAWrite\<close> streams a
  firmware in ranges, each retried from memory with resynchronisation on status 416.
\<close>

section \<open>Client and requests\<close>

definition apiPrefix :: string where "apiPrefix = ''/v1alpha1''"
definition SupportedAPIVersion :: string where "SupportedAPIVersion = ''v1alpha1''"
definition otaChunkSize :: int where "otaChunkSize = 64 * 1024"
definition otaChunkMaxAttempts :: nat where "otaChunkMaxAttempts = 3"

text \<open>The elements of a slice as \<open>%v\<close> prints them.\<close>

fun spaced :: "string list \<Rightarrow> string" where
  "spaced [] = ''''"
| "spaced [v] = v"
| "spaced (v # vs) = v @ '' '' @ spaced vs"

definition NegotiateAPIVersion :: "string list \<Rightarrow> gerr + string" where
  "NegotiateAPIVersion versions =
     (if versions = [] then Inr SupportedAPIVersion
      else if SupportedAPIVersion \<in> set versions then Inr SupportedAPIVersion
      else Inl (Errorf [Sentinel ErrUnsupportedAPIVersion]
        (sentinel_text ErrUnsupportedAPIVersion @ '': device annonce [''
         @ spaced versions @ ''], Core ne supporte que '' @ goq SupportedAPIVersion)))"

record agent_client =
  ac_baseURL :: string
  ac_token :: string

definition agent_New :: "string \<Rightarrow> string \<Rightarrow> agent_client" where
  "agent_New ip token = \<lparr>ac_baseURL = ''https://'' @ ip, ac_token = token\<rparr>"

text \<open>
  The client has two \<open>http.Client\<close>s: \<open>http\<close> with a timeout, and \<open>httpStream\<close>, for the firmware transfer, with
  none; \<open>stream\<close> says which of them sends a request. The requests carry no context.
\<close>

definition httpTimeout :: int where "httpTimeout = 10 * second"

definition agent_request ::
  "agent_client \<Rightarrow> bool \<Rightarrow> string \<Rightarrow> string \<Rightarrow> req_body \<Rightarrow> int \<Rightarrow> (string \<times> string) list \<Rightarrow> http_request" where
  "agent_request c stream method path body contentLength extraHeaders =
     \<lparr>rq_Timeout = (if stream then None else Some httpTimeout), rq_Method = method, rq_URL = ac_baseURL c @ apiPrefix @ path,
      rq_Headers = (''Authorization'', ''Bearer '' @ ac_token c) # extraHeaders,
      rq_ContentLength = (if 0 \<le> contentLength then Some contentLength else None), rq_Body = body\<rparr>"

definition doWith ::
  "'w ext \<Rightarrow> agent_client \<Rightarrow> bool \<Rightarrow> string \<Rightarrow> string \<Rightarrow> req_body \<Rightarrow> int \<Rightarrow> (string \<times> string) list
     \<Rightarrow> ('w sys, gerr + http_response) state" where
  "doWith E c stream method path body contentLength extraHeaders =
     (case hNewRequest E method (ac_baseURL c @ apiPrefix @ path) of
        Some err \<Rightarrow> ret (Inl err)
      | None \<Rightarrow> httpDo E (agent_request c stream method path body contentLength extraHeaders))"

definition agent_do ::
  "'w ext \<Rightarrow> agent_client \<Rightarrow> string \<Rightarrow> string \<Rightarrow> req_body \<Rightarrow> (string \<times> string) list
     \<Rightarrow> ('w sys, gerr + http_response) state" where
  "agent_do E c method path body extraHeaders = doWith E c False method path body (-1) extraHeaders"

definition json_header :: "(string \<times> string) list" where
  "json_header = [(''Content-Type'', ''application/json'')]"

text \<open>The error text of a status other than 200, with and without the body.\<close>

definition status_err :: "string \<Rightarrow> int \<Rightarrow> gerr" where
  "status_err what code = Errorf [] (what @ '' '' @ arrow @ '' '' @ dec code)"

definition status_body_err :: "string \<Rightarrow> int \<Rightarrow> http_body \<Rightarrow> gerr" where
  "status_body_err what code b =
     Errorf [] (what @ '' '' @ arrow @ '' '' @ dec code @ '': '' @ fst (readAll b))"

section \<open>Operations\<close>

definition GetInfo :: "'w ext \<Rightarrow> agent_client \<Rightarrow> ('w sys, gerr + info_response) state" where
  "GetInfo E c = do {
     resp \<leftarrow> agent_do E c ''GET'' ''/info'' BNone [];
     (case resp of
        Inl err \<Rightarrow> ret (Inl err)
      | Inr rs \<Rightarrow>
          if rs_StatusCode rs \<noteq> 200 then ret (Inl (status_err ''GET /info'' (rs_StatusCode rs)))
          else ret (jInfo E (rs_Body rs)))
   }"

definition GetHealth :: "'w ext \<Rightarrow> agent_client \<Rightarrow> ('w sys, gerr + health_response) state" where
  "GetHealth E c = do {
     resp \<leftarrow> agent_do E c ''GET'' ''/health'' BNone [];
     (case resp of
        Inl err \<Rightarrow> ret (Inl err)
      | Inr rs \<Rightarrow>
          if rs_StatusCode rs \<noteq> 200 then ret (Inl (status_err ''GET /health'' (rs_StatusCode rs)))
          else ret (jHealth E (rs_Body rs)))
   }"

definition prepare_json :: "prepare_request \<Rightarrow> json" where
  "prepare_json q = JObj
     [(''deployment_id'', JStr (pq_DeploymentID q)), (''artifact'', JStr (pq_Artifact q)),
      (''digest'', JStr (pq_Digest q)), (''size'', JInt (pq_Size q)), (''chip'', JStr (pq_Chip q)),
      (''idf_version'', JStr (pq_IDFVersion q)), (''partition_layout'', JStr (pq_PartitionLayout q))]"

definition OTAPrepare ::
  "'w ext \<Rightarrow> agent_client \<Rightarrow> prepare_request \<Rightarrow> ('w sys, gerr + prepare_response) state" where
  "OTAPrepare E c req = do {
     resp \<leftarrow> agent_do E c ''POST'' ''/ota/prepare'' (BJson (prepare_json req)) json_header;
     (case resp of
        Inl err \<Rightarrow> ret (Inl err)
      | Inr rs \<Rightarrow>
          if rs_StatusCode rs \<noteq> 200 then ret (Inl (status_err ''POST /ota/prepare'' (rs_StatusCode rs)))
          else ret (jPrepare E (rs_Body rs)))
   }"

definition GetConfig :: "'w ext \<Rightarrow> agent_client \<Rightarrow> ('w sys, gerr + config_response) state" where
  "GetConfig E c = do {
     resp \<leftarrow> agent_do E c ''GET'' ''/config'' BNone [];
     (case resp of
        Inl err \<Rightarrow> ret (Inl err)
      | Inr rs \<Rightarrow>
          if rs_StatusCode rs \<noteq> 200 then ret (Inl (status_err ''GET /config'' (rs_StatusCode rs)))
          else ret (jConfig E (rs_Body rs)))
   }"

definition PostConfig ::
  "'w ext \<Rightarrow> agent_client \<Rightarrow> (string \<times> string) list \<Rightarrow> ('w sys, gerr + unit) state" where
  "PostConfig E c data = do {
     resp \<leftarrow> agent_do E c ''POST'' ''/config''
       (BJson (JObj [(''data'', JObj (map (\<lambda>(k, v). (k, JStr v)) data))])) json_header;
     (case resp of
        Inl err \<Rightarrow> ret (Inl err)
      | Inr rs \<Rightarrow>
          if rs_StatusCode rs \<noteq> 200
          then ret (Inl (status_body_err ''POST /config'' (rs_StatusCode rs) (rs_Body rs)))
          else ret (Inr ()))
   }"

definition PostReboot :: "'w ext \<Rightarrow> agent_client \<Rightarrow> ('w sys, gerr + unit) state" where
  "PostReboot E c = do {
     resp \<leftarrow> agent_do E c ''POST'' ''/reboot'' (BJson (JObj [])) json_header;
     (case resp of
        Inl err \<Rightarrow> ret (Inl err)
      | Inr rs \<Rightarrow>
          if rs_StatusCode rs \<noteq> 200 then ret (Inl (status_err ''POST /reboot'' (rs_StatusCode rs)))
          else ret (Inr ()))
   }"

definition OTAActivate :: "'w ext \<Rightarrow> agent_client \<Rightarrow> string \<Rightarrow> ('w sys, gerr + unit) state" where
  "OTAActivate E c deploymentID = do {
     resp \<leftarrow> agent_do E c ''POST'' ''/ota/activate''
       (BJson (JObj [(''deployment_id'', JStr deploymentID), (''reboot'', JBool True)])) json_header;
     (case resp of
        Inl err \<Rightarrow> ret (Inl err)
      | Inr rs \<Rightarrow>
          if rs_StatusCode rs \<noteq> 200 then ret (Inl (status_err ''POST /ota/activate'' (rs_StatusCode rs)))
          else ret (Inr ()))
   }"

definition RotateToken :: "'w ext \<Rightarrow> agent_client \<Rightarrow> string \<Rightarrow> ('w sys, gerr + unit) state" where
  "RotateToken E c newToken = do {
     resp \<leftarrow> agent_do E c ''POST'' ''/token'' (BJson (JObj [(''token'', JStr newToken)])) json_header;
     (case resp of
        Inl err \<Rightarrow> ret (Inl err)
      | Inr rs \<Rightarrow>
          if rs_StatusCode rs \<noteq> 200
          then ret (Inl (status_body_err ''POST /token'' (rs_StatusCode rs) (rs_Body rs)))
          else ret (Inr ()))
   }"

definition PostAppPort :: "'w ext \<Rightarrow> agent_client \<Rightarrow> int \<Rightarrow> ('w sys, gerr + unit) state" where
  "PostAppPort E c port =
     (if port < 1024 \<or> port > 65535
      then ret (Inl (Errorf [] (''port '' @ dec port @ '' hors limites contrat (1024-65535)'')))
      else do {
        resp \<leftarrow> agent_do E c ''POST'' ''/app/port'' (BJson (JObj [(''port'', JInt port)])) json_header;
        (case resp of
           Inl err \<Rightarrow> ret (Inl err)
         | Inr rs \<Rightarrow>
             if rs_StatusCode rs \<noteq> 200
             then ret (Inl (status_body_err ''POST /app/port'' (rs_StatusCode rs) (rs_Body rs)))
             else ret (Inr ()))
      })"

definition PostTLSCert ::
  "'w ext \<Rightarrow> agent_client \<Rightarrow> string \<Rightarrow> string \<Rightarrow> ('w sys, gerr + unit) state" where
  "PostTLSCert E c certPEM keyPEM = do {
     resp \<leftarrow> agent_do E c ''POST'' ''/tls/cert''
       (BJson (JObj [(''cert_pem'', JStr certPEM), (''key_pem'', JStr keyPEM)])) json_header;
     (case resp of
        Inl err \<Rightarrow> ret (Inl err)
      | Inr rs \<Rightarrow>
          if rs_StatusCode rs \<noteq> 200
          then ret (Inl (status_body_err ''POST /tls/cert'' (rs_StatusCode rs) (rs_Body rs)))
          else ret (Inr ()))
   }"

section \<open>Firmware transfer\<close>

text \<open>The request of one attempt for the bytes \<open>offset..end\<close> of a firmware of \<open>tot\<close> bytes.\<close>

definition contentRange :: "int \<Rightarrow> int \<Rightarrow> int \<Rightarrow> string" where
  "contentRange offset fin tot = ''bytes '' @ dec offset @ ''-'' @ dec fin @ ''/'' @ dec tot"

definition ota_headers :: "string \<Rightarrow> string \<Rightarrow> int \<Rightarrow> int \<Rightarrow> int \<Rightarrow> (string \<times> string) list" where
  "ota_headers deploymentID digest offset fin tot =
     [(''Content-Type'', ''application/octet-stream''), (''Content-Range'', contentRange offset fin tot),
      (''X-Embewi-Deployment-Id'', deploymentID), (''X-Embewi-Digest'', digest)]"

definition ota_request ::
  "agent_client \<Rightarrow> string \<Rightarrow> string \<Rightarrow> int \<Rightarrow> int \<Rightarrow> int \<Rightarrow> string \<Rightarrow> http_request" where
  "ota_request c deploymentID digest offset fin tot bytes =
     agent_request c True ''PUT'' ''/ota/write'' (BBytes bytes) (int (length bytes))
       (ota_headers deploymentID digest offset fin tot)"

text \<open>What the loop of \<open>putOTAChunk\<close> does with a response: stop with a result, or resume at an offset.\<close>

datatype chunk_verdict = Confirmed | Refused gerr | Resync int

definition judge_response :: "'w ext \<Rightarrow> int \<Rightarrow> int \<Rightarrow> int \<Rightarrow> string \<Rightarrow> chunk_verdict" where
  "judge_response E code offset fin raw =
     (if code = 200 then
        (case jWriteResult E raw of
           Inl err \<Rightarrow> Refused err
         | Inr (st, er) \<Rightarrow>
             if st = ''written'' \<or> st = ''partial'' then Confirmed
             else Refused (OTAWriteErr (if st = '''' then er else st) 0))
      else if code = 416 then
        (let written = jWritten E raw in
         if written < offset \<or> written > i64 (fin + 1) then Refused (OTAWriteErr ''range_mismatch'' 416)
         else if written = i64 (fin + 1) then Confirmed
         else Resync written)
      else if code = 500 then Refused (OTAWriteErr ''ota_begin_failed'' 500)
      else Refused (Errorf [] (''PUT /ota/write '' @ arrow @ '' '' @ dec code @ '': '' @ raw)))"

fun putOTAChunk_loop ::
  "'w ext \<Rightarrow> agent_client \<Rightarrow> string \<Rightarrow> string \<Rightarrow> string \<Rightarrow> int \<Rightarrow> int \<Rightarrow> int
     \<Rightarrow> nat \<Rightarrow> int \<Rightarrow> string \<Rightarrow> ('w sys, gerr option) state" where
  "putOTAChunk_loop E c deploymentID digest chunk start fin tot 0 offset remaining =
     ret (Some (Errorf [] (''PUT /ota/write plage '' @ dec start @ ''-'' @ dec fin
       @ '': abandon apr'' @ e_grave @ ''s '' @ dec (int otaChunkMaxAttempts) @ '' tentatives'')))"
| "putOTAChunk_loop E c deploymentID digest chunk start fin tot (Suc attempts) offset remaining = do {
     resp \<leftarrow> doWith E c True ''PUT'' ''/ota/write'' (BBytes remaining) (int (length remaining))
       (ota_headers deploymentID digest offset fin tot);
     (case resp of
        Inl _ \<Rightarrow> putOTAChunk_loop E c deploymentID digest chunk start fin tot attempts offset remaining
      | Inr rs \<Rightarrow>
          (case readAll (rs_Body rs) of
             (raw, Some _) \<Rightarrow>
               putOTAChunk_loop E c deploymentID digest chunk start fin tot attempts offset remaining
           | (raw, None) \<Rightarrow>
               (case judge_response E (rs_StatusCode rs) offset fin raw of
                  Confirmed \<Rightarrow> ret None
                | Refused err \<Rightarrow> ret (Some err)
                | Resync written \<Rightarrow>
                    putOTAChunk_loop E c deploymentID digest chunk start fin tot attempts written
                      (drop (nat (written - start)) chunk))))
   }"

definition putOTAChunk ::
  "'w ext \<Rightarrow> agent_client \<Rightarrow> string \<Rightarrow> string \<Rightarrow> string \<Rightarrow> int \<Rightarrow> int \<Rightarrow> int \<Rightarrow> ('w sys, gerr option) state" where
  "putOTAChunk E c deploymentID digest chunk start fin tot =
     putOTAChunk_loop E c deploymentID digest chunk start fin tot otaChunkMaxAttempts start chunk"

text \<open>
  The end of the range that starts at \<open>start\<close> and its length, in \<open>int64\<close> arithmetic. A length
  outside \<open>1..65536\<close> would be a panic of the slice \<open>buf[:chunkLen]\<close> (0 cannot occur for
  \<open>start < tot\<close>).
\<close>

definition chunk_end :: "int \<Rightarrow> int \<Rightarrow> int" where
  "chunk_end start tot =
     (let e = i64 (i64 (start + otaChunkSize) - 1) in if tot \<le> e then i64 (tot - 1) else e)"

definition chunk_len :: "int \<Rightarrow> int \<Rightarrow> int" where
  "chunk_len start tot = i64 (i64 (chunk_end start tot - start) + 1)"

lemma readFull_shorter:
  "readFull E n [] b = ((buf, None), b') \<Longrightarrow> 0 < n \<Longrightarrow> length (bs_rest b') < length (bs_rest b)"
  using readFull_content [of E n "[]" b buf None b'] by auto

function OTAWrite_loop ::
  "'w ext \<Rightarrow> agent_client \<Rightarrow> string \<Rightarrow> string \<Rightarrow> int \<Rightarrow> int \<Rightarrow> blob_stream
     \<Rightarrow> ('w sys, gerr option \<times> blob_stream) state" where
  "OTAWrite_loop E c deploymentID digest tot start firmware =
     (if start < tot then
        (if chunk_len start tot < 1 \<or> otaChunkSize < chunk_len start tot
         then ret (Some (GoPanic ''slice bounds out of range''), firmware)
         else
           (case readFull E (nat (chunk_len start tot)) [] firmware of
              ((buf, Some err), fw') \<Rightarrow>
                ret (Some (wrap_err (''lecture firmware offset '' @ dec start @ '': '') err), fw')
            | ((buf, None), fw') \<Rightarrow> do {
                r \<leftarrow> putOTAChunk E c deploymentID digest buf start (chunk_end start tot) tot;
                (case r of
                   Some err \<Rightarrow> ret (Some err, fw')
                 | None \<Rightarrow>
                     OTAWrite_loop E c deploymentID digest tot (i64 (chunk_end start tot + 1)) fw')
              }))
      else ret (None, firmware))"
  by pat_completeness auto

termination
  by (relation "measure (\<lambda>(E, c, d, dg, tot, start, fw). length (bs_rest fw))")
     (auto dest!: readFull_shorter [OF sym])

declare OTAWrite_loop.simps [simp del]

definition OTAWrite ::
  "'w ext \<Rightarrow> agent_client \<Rightarrow> string \<Rightarrow> string \<Rightarrow> int \<Rightarrow> blob_stream
     \<Rightarrow> ('w sys, gerr option \<times> blob_stream) state" where
  "OTAWrite E c deploymentID digest tot firmware =
     OTAWrite_loop E c deploymentID digest tot 0 firmware"

section \<open>The requests each operation can make\<close>

lemma emits_doWith [emits_intros]:
  "(\<And>b. P (CHttp (agent_request c st m p body n hs), b)) \<Longrightarrow> emits P (doWith E c st m p body n hs)"
  by (auto simp: doWith_def intro!: emits_intros)

lemma emits_agent_do [emits_intros]:
  "(\<And>b. P (CHttp (agent_request c False m p body (-1) hs), b)) \<Longrightarrow> emits P (agent_do E c m p body hs)"
  by (auto simp: agent_do_def intro!: emits_intros)

text \<open>The (method, path) of a device request that is not part of the firmware transfer.\<close>

definition agent_call :: "string \<Rightarrow> string \<Rightarrow> agent_client \<Rightarrow> call \<Rightarrow> bool" where
  "agent_call m p c k \<longleftrightarrow> (\<exists>body hs. k = CHttp (agent_request c False m p body (-1) hs))"

lemma agent_callI [simp]: "agent_call m p c (CHttp (agent_request c False m p body (-1) hs))"
  by (auto simp: agent_call_def)

lemma emits_GetInfo [emits_intros]:
  "(\<And>k b. agent_call ''GET'' ''/info'' c k \<Longrightarrow> P (k, b)) \<Longrightarrow> emits P (GetInfo E c)"
  unfolding GetInfo_def by (intro emits_intros) simp

lemma emits_GetHealth [emits_intros]:
  "(\<And>k b. agent_call ''GET'' ''/health'' c k \<Longrightarrow> P (k, b)) \<Longrightarrow> emits P (GetHealth E c)"
  unfolding GetHealth_def by (intro emits_intros) simp

lemma emits_OTAPrepare [emits_intros]:
  "(\<And>k b. agent_call ''POST'' ''/ota/prepare'' c k \<Longrightarrow> P (k, b)) \<Longrightarrow> emits P (OTAPrepare E c req)"
  unfolding OTAPrepare_def by (intro emits_intros) simp

lemma emits_GetConfig [emits_intros]:
  "(\<And>k b. agent_call ''GET'' ''/config'' c k \<Longrightarrow> P (k, b)) \<Longrightarrow> emits P (GetConfig E c)"
  unfolding GetConfig_def by (intro emits_intros) simp

text \<open>The request of \<open>PostConfig\<close>, with its payload.\<close>

definition config_request :: "agent_client \<Rightarrow> (string \<times> string) list \<Rightarrow> http_request" where
  "config_request c data = agent_request c False ''POST'' ''/config''
     (BJson (JObj [(''data'', JObj (map (\<lambda>(k, v). (k, JStr v)) data))])) (-1) json_header"

lemma emits_PostConfig [emits_intros]:
  "(\<And>b. P (CHttp (config_request c data), b)) \<Longrightarrow> emits P (PostConfig E c data)"
  unfolding PostConfig_def config_request_def by (intro emits_intros) simp

lemma emits_PostReboot [emits_intros]:
  "(\<And>k b. agent_call ''POST'' ''/reboot'' c k \<Longrightarrow> P (k, b)) \<Longrightarrow> emits P (PostReboot E c)"
  unfolding PostReboot_def by (intro emits_intros) simp

lemma emits_OTAActivate [emits_intros]:
  "(\<And>k b. agent_call ''POST'' ''/ota/activate'' c k \<Longrightarrow> P (k, b)) \<Longrightarrow> emits P (OTAActivate E c d)"
  unfolding OTAActivate_def by (intro emits_intros) simp

lemma emits_RotateToken [emits_intros]:
  "(\<And>b. P (CHttp (agent_request c False ''POST'' ''/token'' (BJson (JObj [(''token'', JStr t)])) (-1) json_header), b))
    \<Longrightarrow> emits P (RotateToken E c t)"
  unfolding RotateToken_def by (intro emits_intros) simp

lemma emits_PostAppPort [emits_intros]:
  "(\<And>k b. agent_call ''POST'' ''/app/port'' c k \<Longrightarrow> P (k, b)) \<Longrightarrow> emits P (PostAppPort E c n)"
  unfolding PostAppPort_def by (intro emits_intros) simp

lemma emits_PostTLSCert [emits_intros]:
  "(\<And>k b. agent_call ''POST'' ''/tls/cert'' c k \<Longrightarrow> P (k, b)) \<Longrightarrow> emits P (PostTLSCert E c x y)"
  unfolding PostTLSCert_def by (intro emits_intros) simp

end
