(* ===== verification/Heartbeat.thy ===== *)
theory Heartbeat
  imports World
begin

text \<open>
  \<open>internal/heartbeat/server.go\<close>: the server that receives heartbeats and logs from the devices,
  authenticates them against the token Secret of their McuNode, and writes the node status under
  an optimistic lock with retries. The WebSocket handler is a loop over the timed events of its
  connection, with the sliding read deadline, the pings and the deferred authentication.
\<close>

section \<open>Tokens\<close>

record hb_server =
  hs_addr :: string
  hs_TLSCertFile :: string
  hs_TLSKeyFile :: string
  hs_TokenSecret :: string
  hs_Recorder :: bool

definition hb_New :: "string \<Rightarrow> hb_server" where
  "hb_New addr = \<lparr>hs_addr = addr, hs_TLSCertFile = '''', hs_TLSKeyFile = '''',
     hs_TokenSecret = '''', hs_Recorder = False\<rparr>"

datatype tokenMatch = tokenNoMatch | tokenMatchCurrent | tokenMatchPrevious

definition resolveTokenSecret :: "hb_server \<Rightarrow> mcunode \<Rightarrow> obj_key \<times> string" where
  "resolveTokenSecret srv node =
     (let secretName = sr_Name (ns_TokenRef (n_Spec node));
          secretNS = sr_Namespace (ns_TokenRef (n_Spec node));
          secretNS = (if secretNS = '''' then n_Namespace node else secretNS)
      in if secretName = '''' then
           (let central = (if hs_TokenSecret srv = '''' then ''embewi-tokens'' else hs_TokenSecret srv)
            in (\<lparr>key_Namespace = n_Namespace node, key_Name = central\<rparr>, ns_NodeID (n_Spec node)))
         else (\<lparr>key_Namespace = secretNS, key_Name = secretName\<rparr>, ''token''))"

text \<open>The comparisons of \<open>validateToken\<close> once the Secret has been read.\<close>

definition check_token :: "(string \<rightharpoonup> string) \<Rightarrow> string \<Rightarrow> string \<Rightarrow> tokenMatch" where
  "check_token data tokenDataKey provided =
     (if (\<exists>expected. data tokenDataKey = Some expected \<and> trimSpace expected = provided)
      then tokenMatchCurrent
      else if tokenDataKey = ''token'' \<and>
        (\<exists>prev. data ''previousToken'' = Some prev \<and> 0 < length prev \<and> trimSpace prev = provided)
      then tokenMatchPrevious
      else tokenNoMatch)"

lemma check_token_code [code]:
  "check_token data tokenDataKey provided =
     (if (case data tokenDataKey of Some expected \<Rightarrow> trimSpace expected = provided | None \<Rightarrow> False)
      then tokenMatchCurrent
      else if tokenDataKey = ''token'' \<and>
        (case data ''previousToken'' of Some prev \<Rightarrow> 0 < length prev \<and> trimSpace prev = provided | None \<Rightarrow> False)
      then tokenMatchPrevious
      else tokenNoMatch)"
  by (auto simp: check_token_def split: option.splits)

definition validateToken ::
  "'w ext \<Rightarrow> hb_server \<Rightarrow> string \<Rightarrow> mcunode \<Rightarrow> ('w sys, tokenMatch \<times> secret option) state" where
  "validateToken E srv auth node =
     (if \<not> hasPrefix auth ''Bearer '' then ret (tokenNoMatch, None)
      else
        (let provided = trimPrefix auth ''Bearer '' in
         case resolveTokenSecret srv node of (secretKey, tokenDataKey) \<Rightarrow> do {
           sres \<leftarrow> getSecret E secretKey;
           (case sres of
              Inl err \<Rightarrow> ret (tokenNoMatch, None)
            | Inr secret \<Rightarrow>
                (case check_token (sec_Data secret) tokenDataKey provided of
                   tokenNoMatch \<Rightarrow> ret (tokenNoMatch, None)
                 | m \<Rightarrow> ret (m, Some secret)))
         }))"

definition clearPreviousToken :: "'w ext \<Rightarrow> secret \<Rightarrow> ('w sys, unit) state" where
  "clearPreviousToken E secret = do {
     _ \<leftarrow> patchSecret E secret (secret\<lparr>sec_Data := (sec_Data secret)(''previousToken'' := None)\<rparr>);
     ret ()
   }"

section \<open>Finding the node\<close>

fun emit_all :: "call list \<Rightarrow> ('w sys, unit) state" where
  "emit_all [] = ret ()"
| "emit_all (c # cs) = do { emit c; emit_all cs }"

definition findNode :: "'w ext \<Rightarrow> hb_server \<Rightarrow> string \<Rightarrow> ('w sys, gerr + mcunode) state" where
  "findNode E srv nodeID = do {
     lres \<leftarrow> listNodes E None;
     (case lres of
        Inl err \<Rightarrow> ret (Inl err)
      | Inr items \<Rightarrow>
          (let matches = filter (\<lambda>n. ns_NodeID (n_Spec n) = nodeID) items in
           case matches of
             [] \<Rightarrow> ret (Inl (Errorf [] (''no McuNode with nodeId='' @ goq nodeID)))
           | [m] \<Rightarrow> ret (Inr m)
           | _ \<Rightarrow> do {
               (if hs_Recorder srv
                then emit_all (map (\<lambda>m. CEvent (obj_key_of (n_Meta m)) ''Warning'' ''DuplicateNodeID''
                       (dec (int (length matches)) @ '' McuNode d'' @ e_acute @ ''clarent nodeId='' @ goq nodeID
                        @ '' '' @ [CHR 0xE2, CHR 0x80, CHR 0x94] @ '' heartbeats de ce device ignor'' @ e_acute
                        @ ''s jusqu'' @ [CHR 0x27] @ a_grave @ '' r'' @ e_acute @ ''solution''))
                     matches)
                else ret ());
               ret (Inl (Errorf [Sentinel errDuplicateNodeID]
                 (sentinel_text errDuplicateNodeID @ '': '' @ dec (int (length matches))
                  @ '' McuNode d'' @ e_acute @ ''clarent nodeId='' @ goq nodeID)))
             }))
   }"

definition FindByNodeID :: "'w ext \<Rightarrow> hb_server \<Rightarrow> string \<Rightarrow> ('w sys, gerr + mcunode) state" where
  "FindByNodeID E srv nodeID = findNode E srv nodeID"

definition NodeKey :: "'w ext \<Rightarrow> string \<Rightarrow> ('w sys, gerr + obj_key) state" where
  "NodeKey E nodeID = do {
     lres \<leftarrow> listNodes E None;
     (case lres of
        Inl err \<Rightarrow> ret (Inl err)
      | Inr items \<Rightarrow>
          (case find (\<lambda>n. ns_NodeID (n_Spec n) = nodeID) items of
             Some n \<Rightarrow> ret (Inr (obj_key_of (n_Meta n)))
           | None \<Rightarrow> ret (Inl (Errorf [] (''no McuNode with nodeId='' @ goq nodeID)))))
   }"

section \<open>Heartbeats\<close>

definition validNodeStates :: "string list" where
  "validNodeStates = [''booting'', ''pending_verify'', ''running'', ''degraded'', ''rollback'', ''failed'', ''offline'']"

definition reasonClockUnsynced :: string where
  "reasonClockUnsynced = ''clock_unsynced''"

definition hb_ready :: "heartbeat_payload \<Rightarrow> bool" where
  "hb_ready hb \<longleftrightarrow> hp_State hb = ''running'' \<and> hp_OtaValidated hb \<and> hp_Reason hb \<noteq> reasonClockUnsynced"

definition cond :: "string \<Rightarrow> condition_status \<Rightarrow> string \<Rightarrow> string \<Rightarrow> condition" where
  "cond ty st reason msg = \<lparr>c_Type = ty, c_Status = st, c_Reason = reason, c_Message = msg\<rparr>"

lemma cond_sel [simp]:
  "c_Type (cond ty st r m) = ty" "c_Status (cond ty st r m) = st"
  "c_Reason (cond ty st r m) = r" "c_Message (cond ty st r m) = m"
  by (simp_all add: cond_def)

definition hb_ready_condition :: "heartbeat_payload \<Rightarrow> condition" where
  "hb_ready_condition hb =
     (if hb_ready hb then
        cond ''Ready'' ConditionTrue ''HeartbeatOK'' (''heartbeat re'' @ [CHR 0xC3, CHR 0xA7] @ ''u, state='' @ hp_State hb)
      else if hp_Reason hb = reasonClockUnsynced then
        cond ''Ready'' ConditionFalse ''ClockUnsynced''
          (''heartbeat re'' @ [CHR 0xC3, CHR 0xA7] @ ''u mais horloge device non synchronis'' @ e_acute
           @ ''e (NTP) '' @ [CHR 0xE2, CHR 0x80, CHR 0x94] @ '' signal diagnostique, pas de confirmation Ready'')
      else
        cond ''Ready'' ConditionFalse ''DeviceNotReady''
          (''heartbeat re'' @ [CHR 0xC3, CHR 0xA7] @ ''u, state='' @ hp_State hb @ '' (non pr'' @ [CHR 0xC3, CHR 0xAA] @ ''t)''))"

text \<open>The mutation of the node status inside the retried closure.\<close>

definition apply_heartbeat ::
  "'w ext \<Rightarrow> heartbeat_payload \<Rightarrow> string \<Rightarrow> int \<Rightarrow> mcunode_status \<Rightarrow> mcunode_status" where
  "apply_heartbeat E hb sourceIP t st =
     (let st1 = st\<lparr>
            nst_IP := sourceIP,
            nst_State := hp_State hb,
            nst_FirmwareDigest := hp_FirmwareDigest hb,
            nst_DeploymentID := hp_DeploymentID hb,
            nst_OtaValidated := hp_OtaValidated hb,
            nst_HeapFree := hp_HeapFree hb,
            nst_RSSI := hp_RSSI hb,
            nst_UptimeMs := hp_UptimeMs hb,
            nst_ConfigGeneration := hp_ConfigGeneration hb,
            nst_TaskHwmMin := hp_TaskHwmMin hb,
            nst_Ready := hb_ready hb,
            nst_LastHeartbeat := Some t\<rparr>;
          st2 = (if hp_TempCelsius hb \<noteq> f64_minus_127
                 then st1\<lparr>nst_TempCelsius := hp_TempCelsius hb\<rparr> else st1);
          cs1 = kSetStatusCondition E (nst_Conditions st2)
                  (cond ''Provisioned'' ConditionTrue ''ProvisioningComplete''
                    (''heartbeat re'' @ [CHR 0xC3, CHR 0xA7] @ ''u, node_id et token '' @ e_acute @ ''tablis''));
          cs2 = kSetStatusCondition E cs1 (hb_ready_condition hb)
      in st2\<lparr>nst_Conditions := cs2\<rparr>)"

definition hb_attempt ::
  "'w ext \<Rightarrow> heartbeat_payload \<Rightarrow> string \<Rightarrow> int \<Rightarrow> obj_key \<Rightarrow> ('w sys, gerr + mcunode) state" where
  "hb_attempt E hb sourceIP t key = do {
     gres \<leftarrow> getNode E key;
     (case gres of
        Inl err \<Rightarrow> ret (Inl err)
      | Inr node \<Rightarrow>
          patchNodeStatus E True node (upd_nstatus (apply_heartbeat E hb sourceIP t) node))
   }"

definition retryOnConflict ::
  "'w ext \<Rightarrow> ('w sys, gerr + mcunode) state \<Rightarrow> ('w sys, gerr + mcunode) state" where
  "retryOnConflict E m = State (\<lambda>s. kRetryOnConflict E (run_state m) s)"

definition hb_metrics :: "heartbeat_payload \<Rightarrow> mcunode \<Rightarrow> heartbeat_data" where
  "hb_metrics hb node =
     \<lparr>hd_NodeID = hp_NodeID hb, hd_Workload = hp_DeploymentID hb, hd_Chip = nst_Chip (n_Status node),
      hd_HeapFree = hp_HeapFree hb, hd_RSSI = hp_RSSI hb, hd_UptimeMs = hp_UptimeMs hb,
      hd_TempCelsius = hp_TempCelsius hb, hd_TaskHwmMin = hp_TaskHwmMin hb,
      hd_ConfigGeneration = hp_ConfigGeneration hb, hd_TS = hp_TS hb,
      hd_OtaValidated = hp_OtaValidated hb\<rparr>"

abbreviation reply :: "int \<Rightarrow> string \<Rightarrow> server_reply" where
  "reply code txt \<equiv> \<lparr>sy_Status = code, sy_Text = txt\<rparr>"

text \<open>The address of the TCP peer, empty when \<open>RemoteAddr\<close> cannot be split.\<close>

definition tcp_ip :: "server_request \<Rightarrow> string" where
  "tcp_ip r = (case splitHostPort (sq_RemoteAddr r) of Some (h, _) \<Rightarrow> h | None \<Rightarrow> '''')"

text \<open>The status update and the metrics of a heartbeat with a valid state.\<close>

definition store_heartbeat ::
  "'w ext \<Rightarrow> hb_server \<Rightarrow> server_request \<Rightarrow> heartbeat_payload \<Rightarrow> mcunode \<Rightarrow> ('w sys, server_reply) state" where
  "store_heartbeat E srv r hb node = do {
     let tcpIP = tcp_ip r;
     let sourceIP = (if hp_IP hb = '''' then tcpIP else hp_IP hb);
     (if hs_Recorder srv \<and> hp_IP hb \<noteq> '''' \<and> tcpIP \<noteq> '''' \<and> hp_IP hb \<noteq> tcpIP
      then event (n_Meta node) ''Warning'' ''HeartbeatIPMismatch''
        (''heartbeat.ip='' @ hp_IP hb @ '' diff'' @ e_grave @ ''re de l'' @ [CHR 0x27]
         @ ''IP source TCP='' @ tcpIP)
      else ret ());
     t \<leftarrow> now E;
     ures \<leftarrow> retryOnConflict E (hb_attempt E hb sourceIP t (obj_key_of (n_Meta node)));
     (case ures of
        Inl err \<Rightarrow> ret (reply 200 '''')
      | Inr node' \<Rightarrow> do {
          metrics_update (hb_metrics hb node');
          ret (reply 200 '''')
        })
   }"

text \<open>From a successful token comparison on.\<close>

definition accept_heartbeat ::
  "'w ext \<Rightarrow> hb_server \<Rightarrow> server_request \<Rightarrow> heartbeat_payload \<Rightarrow> mcunode \<Rightarrow> tokenMatch \<Rightarrow> secret
     \<Rightarrow> ('w sys, server_reply) state" where
  "accept_heartbeat E srv r hb node m secret = do {
     (if m = tokenMatchCurrent \<and> mget (sec_Data secret) ''previousToken'' \<noteq> ''''
      then clearPreviousToken E secret else ret ());
     (if hp_State hb \<notin> set validNodeStates then ret (reply 400 ''invalid state'')
      else store_heartbeat E srv r hb node)
   }"

definition handleHeartbeat ::
  "'w ext \<Rightarrow> hb_server \<Rightarrow> server_request \<Rightarrow> ('w sys, server_reply) state" where
  "handleHeartbeat E srv r =
     (if sq_Method r \<noteq> ''POST'' then ret (reply 405 ''method not allowed'')
      else (case readAllLimited 4096 (sq_Body r) of
        (body, Some _) \<Rightarrow> ret (reply 400 ''read error'')
      | (body, None) \<Rightarrow>
          (case jHeartbeat E body of
             Inl _ \<Rightarrow> ret (reply 400 ''invalid json'')
           | Inr hb \<Rightarrow> do {
               nres \<leftarrow> findNode E srv (hp_NodeID hb);
               (case nres of
                  Inl err \<Rightarrow> ret (reply 200 '''')
                | Inr node \<Rightarrow> do {
                    v \<leftarrow> validateToken E srv (sq_Authorization r) node;
                    (if fst v = tokenNoMatch then ret (reply 401 ''unauthorized'')
                     else case snd v of
                       None \<Rightarrow> ret (reply 500 ''nil pointer dereference'')
                     | Some secret \<Rightarrow> accept_heartbeat E srv r hb node (fst v) secret)
                  })
             })))"

section \<open>Logs\<close>

definition logEntry :: "log_payload \<Rightarrow> ('w sys, unit) state" where
  "logEntry entry =
     (if lp_Level entry = ''fatal'' \<or> lp_Level entry = ''error''
      then emit (CLog ''error'' (lp_Msg entry) (lp_Node entry) (lp_Workload entry) '''')
      else emit (CLog ''info'' (lp_Msg entry) (lp_Node entry) (lp_Workload entry) (lp_Level entry)))"

definition handleLogPost ::
  "'w ext \<Rightarrow> server_request \<Rightarrow> ('w sys, server_reply) state" where
  "handleLogPost E r =
     (if sq_Method r \<noteq> ''POST'' then ret (reply 405 ''method not allowed'')
      else (case jLog E (fst (readAllLimited 2048 (sq_Body r))) of
              Inl _ \<Rightarrow> ret (reply 200 '''')
            | Inr entry \<Rightarrow> do { logEntry entry; ret (reply 200 '''') }))"

text \<open>
  A log connection: when it was upgraded and what happens on it, in order and with the time of each
  event. A frame and a pong are handled inside \<open>ReadMessage\<close>; \<open>WsPingFailed\<close> is the ping goroutine that
  cannot write and closes the connection under the reader; the peer ends it with a close frame (a lost
  connection counts as code 1006) or the transport fails. When nothing more happens, the deadline passes.
\<close>

datatype ws_event = WsFrame string | WsPong | WsPingFailed | WsClosed int | WsFailed

record ws_conn =
  wc_start :: int
  wc_events :: "(int \<times> ws_event) list"

definition wsReadDeadline :: int where "wsReadDeadline = 60 * second"
definition wsPingInterval :: int where "wsPingInterval = 20 * second"
definition wsPingTimeout :: int where "wsPingTimeout = 5 * second"

definition log_read_failed :: "('w sys, unit) state" where
  "log_read_failed = emit (CServerLog ''error'' (''WS logs : lecture frame '' @ e_acute @ ''chou'' @ e_acute @ ''e'') '''')"

definition log_authenticated :: "string \<Rightarrow> ('w sys, unit) state" where
  "log_authenticated node = emit (CServerLog ''info'' (''WS logs : connexion authentifi'' @ e_acute @ ''e'') node)"

text \<open>
  The read loop, with the deadline of the next read. It returns the time at which the connection is
  closed. The close frame has the code 1008 (policy violation).
\<close>

fun ws_loop ::
  "'w ext \<Rightarrow> hb_server \<Rightarrow> server_request \<Rightarrow> bool \<Rightarrow> int \<Rightarrow> (int \<times> ws_event) list \<Rightarrow> ('w sys, int) state" where
  "ws_loop E srv r authenticated deadline [] = do { log_read_failed; ret deadline }"
| "ws_loop E srv r authenticated deadline ((t, ev) # events) =
     (if t > deadline then do { log_read_failed; ret deadline }
      else case ev of
        WsPong \<Rightarrow> ws_loop E srv r authenticated (t + wsReadDeadline) events
      | WsPingFailed \<Rightarrow> do { log_read_failed; ret t }
      | WsClosed code \<Rightarrow> ret t
      | WsFailed \<Rightarrow> do { log_read_failed; ret t }
      | WsFrame raw \<Rightarrow>
          (case jLog E raw of
             Inl _ \<Rightarrow> ws_loop E srv r authenticated (t + wsReadDeadline) events
           | Inr entry \<Rightarrow>
               if authenticated then do { logEntry entry; ws_loop E srv r True (t + wsReadDeadline) events }
               else do {
                 nres \<leftarrow> findNode E srv (lp_Node entry);
                 (case nres of
                    Inl err \<Rightarrow> do { emit (CWsClose 1008 ''unauthorized''); ret t }
                  | Inr node \<Rightarrow> do {
                      v \<leftarrow> validateToken E srv (sq_Authorization r) node;
                      (if fst v = tokenNoMatch then do { emit (CWsClose 1008 ''unauthorized''); ret t }
                       else do {
                         log_authenticated (lp_Node entry);
                         logEntry entry;
                         ws_loop E srv r True (t + wsReadDeadline) events
                       })
                    })
               }))"

definition handleLogWS ::
  "'w ext \<Rightarrow> hb_server \<Rightarrow> server_request \<Rightarrow> ws_conn \<Rightarrow> ('w sys, int) state" where
  "handleLogWS E srv r conn = ws_loop E srv r False (wc_start conn + wsReadDeadline) (wc_events conn)"

text \<open>
  \<open>handleLog\<close>. What \<open>gorilla/websocket\<close> makes of the request is an argument: \<open>None\<close> if it asks for no
  upgrade, \<open>Some None\<close> if the upgrade fails (the library has answered), and the connection otherwise. A
  reply is \<open>None\<close> where the handler writes none itself.
\<close>

definition handleLog ::
  "'w ext \<Rightarrow> hb_server \<Rightarrow> server_request \<Rightarrow> ws_conn option option \<Rightarrow> ('w sys, server_reply option) state" where
  "handleLog E srv r upgrade =
     (case upgrade of
        Some (Some conn) \<Rightarrow> do { _ \<leftarrow> handleLogWS E srv r conn; ret None }
      | Some None \<Rightarrow> ret None
      | None \<Rightarrow> do { x \<leftarrow> handleLogPost E r; ret (Some x) })"

section \<open>The server\<close>

text \<open>
  The routes of the mux. A path without a trailing slash is matched literally; for any other path
  \<open>net/http\<close> answers itself, with 404 or a redirection to the cleaned path.
\<close>

definition hb_Handler ::
  "'w ext \<Rightarrow> hb_server \<Rightarrow> string \<Rightarrow> server_request \<Rightarrow> ws_conn option option
     \<Rightarrow> ('w sys, server_reply option) state" where
  "hb_Handler E srv path r upgrade =
     (if path = ''/v1alpha1/heartbeat'' then do { x \<leftarrow> handleHeartbeat E srv r; ret (Some x) }
      else if path = ''/v1alpha1/logs'' then handleLog E srv r upgrade
      else ret None)"

text \<open>
  What \<open>net\<close> and \<open>net/http\<close> do when the server starts: the error of \<open>net.Listen\<close>, and how
  \<open>Serve\<close> and \<open>ServeTLS\<close> end, \<open>None\<close> for \<open>http.ErrServerClosed\<close> (after a shutdown) and the error otherwise.
\<close>

record http_server =
  hx_Addr :: string
  hx_ReadTimeout :: int
  hx_WriteTimeout :: int

definition hb_http_server :: "hb_server \<Rightarrow> http_server" where
  "hb_http_server srv = \<lparr>hx_Addr = hs_addr srv, hx_ReadTimeout = 5 * second, hx_WriteTimeout = 5 * second\<rparr>"

record hb_net =
  hn_Listen :: "string \<Rightarrow> gerr option"
  hn_Serve :: "http_server \<Rightarrow> gerr option"
  hn_ServeTLS :: "http_server \<Rightarrow> string \<Rightarrow> string \<Rightarrow> gerr option"

datatype serve_mode = ServePlain | ServeTLS string string

definition serve_mode :: "hb_server \<Rightarrow> serve_mode" where
  "serve_mode srv =
     (if hs_TLSCertFile srv \<noteq> '''' \<and> hs_TLSKeyFile srv \<noteq> ''''
      then ServeTLS (hs_TLSCertFile srv) (hs_TLSKeyFile srv) else ServePlain)"

definition hb_Start :: "hb_net \<Rightarrow> hb_server \<Rightarrow> ('w sys, gerr option) state" where
  "hb_Start N srv =
     (case hn_Listen N (hs_addr srv) of
        Some err \<Rightarrow> ret (Some (wrap_err (''heartbeat listen '' @ hs_addr srv @ '': '') err))
      | None \<Rightarrow>
          (case serve_mode srv of
             ServeTLS cert key \<Rightarrow> do {
               emit (CServerLog ''info'' ''heartbeat server started (TLS)'' (hs_addr srv));
               ret (hn_ServeTLS N (hb_http_server srv) cert key)
             }
           | ServePlain \<Rightarrow> do {
               emit (CServerLog ''info''
                 (''heartbeat server started (plain HTTP '' @ [CHR 0xE2, CHR 0x80, CHR 0x94] @ '' TLS recommand''
                   @ e_acute @ '' en prod)'') (hs_addr srv));
               ret (hn_Serve N (hb_http_server srv))
             }))"

end
