(* ===== verification/NodeController.thy ===== *)
theory NodeController
  imports Agent Heartbeat
begin

text \<open>
  \<open>internal/controller/mcunode_controller.go\<close>: the reconcile loop of a McuNode. It derives
  \<open>ready\<close> and \<open>state\<close> from the age of the last heartbeat, keeps the Service and the
  EndpointSlice of the device, and replays the token rotation, the TLS certificate push and the
  requested reboot until the device has accepted them.
\<close>

section \<open>Constants and results\<close>

definition HeartbeatTimeout :: int where "HeartbeatTimeout = 10 * second"
definition labelManagedBy :: string where "labelManagedBy = ''embewi.io/managed-by''"
definition labelNodeID :: string where "labelNodeID = ''embewi.io/node-id''"
definition nodeMetricsFinalizer :: string where "nodeMetricsFinalizer = ''embewi.io/metrics-cleanup''"
definition annotationRebootRequested :: string where
  "annotationRebootRequested = ''embewi.io/reboot-requested''"

record ctrl_result =
  cr_Requeue :: bool
  cr_RequeueAfter :: int

definition res_done :: ctrl_result where
  "res_done = \<lparr>cr_Requeue = False, cr_RequeueAfter = 0\<rparr>"
definition res_requeue :: ctrl_result where
  "res_requeue = \<lparr>cr_Requeue = True, cr_RequeueAfter = 0\<rparr>"
definition res_after :: "int \<Rightarrow> ctrl_result" where
  "res_after d = \<lparr>cr_Requeue = False, cr_RequeueAfter = d\<rparr>"

definition err_of :: "gerr + 'a \<Rightarrow> gerr option" where
  "err_of r = (case r of Inl e \<Rightarrow> Some e | Inr _ \<Rightarrow> None)"

definition IgnoreNotFound :: "gerr \<Rightarrow> gerr option" where
  "IgnoreNotFound e = (if is_not_found e then None else Some e)"

section \<open>Service and EndpointSlice\<close>

definition app_port :: "mcunode \<Rightarrow> int" where
  "app_port node = (if nst_AppPort (n_Status node) > 0 then i32 (nst_AppPort (n_Status node)) else 8080)"

definition desired_service :: "mcunode \<Rightarrow> service" where
  "desired_service node =
     \<lparr>svc_Meta = new_meta (''embewi-'' @ n_Name node) (n_Namespace node)
        [labelManagedBy \<mapsto> ''embewi-controller'', labelNodeID \<mapsto> ns_NodeID (n_Spec node)],
      svc_Selector = [],
      svc_Ports = [\<lparr>sp_Name = ''app'', sp_Port = app_port node, sp_Protocol = ''TCP''\<rparr>]\<rparr>"

definition reconcileService :: "'w ext \<Rightarrow> mcunode \<Rightarrow> ('w sys, gerr option) state" where
  "reconcileService E node =
     (let desired = desired_service node in
      case kSetControllerReference E node (svc_Meta desired) of
        Inl err \<Rightarrow> ret (Some (wrap_err ''SetControllerReference Service: '' err))
      | Inr m \<Rightarrow> do {
          let desired = desired\<lparr>svc_Meta := m\<rparr>;
          gres \<leftarrow> getService E \<lparr>key_Namespace = n_Namespace node, key_Name = ''embewi-'' @ n_Name node\<rparr>;
          (case gres of
             Inl err \<Rightarrow>
               if is_not_found err then do { c \<leftarrow> createService E desired; ret (err_of c) }
               else ret (Some err)
           | Inr existing \<Rightarrow>
               (let updated = existing\<lparr>svc_Ports := svc_Ports desired\<rparr> in
                case kSetControllerReference E node (svc_Meta updated) of
                  Inl err \<Rightarrow> ret (Some (wrap_err ''SetControllerReference Service existant: '' err))
                | Inr m' \<Rightarrow> do {
                    p \<leftarrow> patchService E existing (updated\<lparr>svc_Meta := m'\<rparr>);
                    ret (err_of p)
                  }))
        })"

definition desired_slice :: "mcunode \<Rightarrow> endpoint_slice" where
  "desired_slice node =
     \<lparr>es_Meta = new_meta (''embewi-'' @ n_Name node) (n_Namespace node)
        [''kubernetes.io/service-name'' \<mapsto> ''embewi-'' @ n_Name node,
         labelManagedBy \<mapsto> ''embewi-controller'', labelNodeID \<mapsto> ns_NodeID (n_Spec node)],
      es_AddressType = ''IPv4'',
      es_Endpoints = [\<lparr>ep_Addresses = [nst_IP (n_Status node)], ep_Ready = nst_Ready (n_Status node)\<rparr>],
      es_Ports = [\<lparr>sp_Name = ''app'', sp_Port = app_port node, sp_Protocol = ''TCP''\<rparr>]\<rparr>"

definition reconcileEndpointSlice :: "'w ext \<Rightarrow> mcunode \<Rightarrow> ('w sys, gerr option) state" where
  "reconcileEndpointSlice E node =
     (let desired = desired_slice node in
      case kSetControllerReference E node (es_Meta desired) of
        Inl err \<Rightarrow> ret (Some (wrap_err ''SetControllerReference EndpointSlice: '' err))
      | Inr m \<Rightarrow> do {
          let desired = desired\<lparr>es_Meta := m\<rparr>;
          gres \<leftarrow> getSlice E \<lparr>key_Namespace = n_Namespace node, key_Name = ''embewi-'' @ n_Name node\<rparr>;
          (case gres of
             Inl err \<Rightarrow>
               if is_not_found err then do { c \<leftarrow> createSlice E desired; ret (err_of c) }
               else ret (Some err)
           | Inr existing \<Rightarrow>
               (let updated = existing\<lparr>es_Endpoints := es_Endpoints desired, es_Ports := es_Ports desired\<rparr> in
                case kSetControllerReference E node (es_Meta updated) of
                  Inl err \<Rightarrow> ret (Some (wrap_err ''SetControllerReference EndpointSlice existant: '' err))
                | Inr m' \<Rightarrow> do {
                    p \<leftarrow> patchSlice E existing (updated\<lparr>es_Meta := m'\<rparr>);
                    ret (err_of p)
                  }))
        })"

section \<open>Token, certificate and reboot\<close>

definition token_secret_key :: "mcunode \<Rightarrow> secret_ref \<Rightarrow> obj_key" where
  "token_secret_key node sr =
     \<lparr>key_Namespace = (if sr_Namespace sr = '''' then n_Namespace node else sr_Namespace sr),
      key_Name = sr_Name sr\<rparr>"

text \<open>\<open>if r.Recorder != nil { r.Recorder.Event(...) }\<close>\<close>

definition record_event :: "bool \<Rightarrow> mcunode \<Rightarrow> string \<Rightarrow> string \<Rightarrow> string \<Rightarrow> ('w sys, unit) state" where
  "record_event rec node ty reason msg = (if rec then event (n_Meta node) ty reason msg else ret ())"

definition a_echoue :: string where
  "a_echoue = '' a '' @ e_acute @ ''chou'' @ e_acute @ '' : ''"

definition reconcileTokenRotation :: "'w ext \<Rightarrow> bool \<Rightarrow> mcunode \<Rightarrow> ('w sys, gerr option) state" where
  "reconcileTokenRotation E rec node =
     (let tr = ns_TokenRef (n_Spec node) in
      if sr_Name tr = '''' then ret None
      else do {
        sres \<leftarrow> getSecret E (token_secret_key node tr);
        (case sres of
           Inl err \<Rightarrow> ret (IgnoreNotFound err)
         | Inr secret \<Rightarrow>
             (let previous = trimSpace (mget (sec_Data secret) ''previousToken'');
                  newToken = trimSpace (mget (sec_Data secret) ''token'') in
              if previous = '''' then ret None
              else if newToken = '''' then ret None
              else do {
                rres \<leftarrow> RotateToken E (agent_New (nst_IP (n_Status node)) previous) newToken;
                (case rres of
                   Inl err \<Rightarrow> do {
                     record_event rec node ''Warning'' ''TokenRotationFailed''
                       (''POST /token'' @ a_echoue @ err_text err @ '' (nouvelle tentative au prochain reconcile)'');
                     ret None
                   }
                 | Inr _ \<Rightarrow> do {
                     record_event rec node ''Normal'' ''TokenRotationApplied''
                       (''POST /token accept'' @ e_acute
                        @ '' par le device ; confirmation attendue par heartbeat (newToken)'');
                     ret None
                   })
              }))
      })"

definition currentToken :: "'w ext \<Rightarrow> mcunode \<Rightarrow> ('w sys, gerr + string) state" where
  "currentToken E node =
     (let tr = ns_TokenRef (n_Spec node) in
      if sr_Name tr = '''' then ret (Inr '''')
      else do {
        sres \<leftarrow> getSecret E (token_secret_key node tr);
        (case sres of
           Inl err \<Rightarrow> (case IgnoreNotFound err of None \<Rightarrow> ret (Inr '''') | Some e \<Rightarrow> ret (Inl e))
         | Inr secret \<Rightarrow> ret (Inr (trimSpace (mget (sec_Data secret) ''token''))))
      })"

text \<open>The push of \<open>reconcileTLSCert\<close> once a new digest and a token are known.\<close>

definition push_tls ::
  "'w ext \<Rightarrow> bool \<Rightarrow> mcunode \<Rightarrow> string \<Rightarrow> string \<Rightarrow> string \<Rightarrow> string
     \<Rightarrow> ('w sys, gerr option \<times> mcunode) state" where
  "push_tls E rec node token certPEM keyPEM digest = do {
     let cli = agent_New (nst_IP (n_Status node)) token;
     pres \<leftarrow> PostTLSCert E cli certPEM keyPEM;
     (case pres of
        Inl err \<Rightarrow> do {
          record_event rec node ''Warning'' ''TLSCertRotationFailed''
            (''POST /tls/cert'' @ a_echoue @ err_text err @ '' (nouvelle tentative au prochain reconcile)'');
          ret (None, node)
        }
      | Inr _ \<Rightarrow> do {
          rres \<leftarrow> PostReboot E cli;
          (case rres of
             Inl err \<Rightarrow> do {
               record_event rec node ''Warning'' ''TLSCertRotationFailed''
                 (''cert accept'' @ e_acute @ '' mais POST /reboot'' @ a_echoue @ err_text err
                  @ '' (nouvelle tentative au prochain reconcile)'');
               ret (None, node)
             }
           | Inr _ \<Rightarrow> do {
               ures \<leftarrow> patchNodeStatus E False node
                 (upd_nstatus (\<lambda>st. st\<lparr>nst_TLSCertDigest := digest\<rparr>) node);
               (case ures of
                  Inl err \<Rightarrow> ret (Some (wrap_err ''patch TLSCertDigest: '' err),
                    upd_nstatus (\<lambda>st. st\<lparr>nst_TLSCertDigest := digest\<rparr>) node)
                | Inr node' \<Rightarrow> do {
                    record_event rec node' ''Normal'' ''TLSCertRotated''
                      (''certificat TLS mis '' @ a_grave @ '' jour, device reboot'' @ e_acute);
                    ret (None, node')
                  })
             })
        })
   }"

definition reconcileTLSCert ::
  "'w ext \<Rightarrow> bool \<Rightarrow> mcunode \<Rightarrow> ('w sys, gerr option \<times> mcunode) state" where
  "reconcileTLSCert E rec node =
     (let tls = ns_TLSSecretRef (n_Spec node) in
      if sr_Name tls = '''' then ret (None, node)
      else if sr_Name (ns_TokenRef (n_Spec node)) = '''' then ret (None, node)
      else do {
        sres \<leftarrow> getSecret E (token_secret_key node tls);
        (case sres of
           Inl err \<Rightarrow> ret (IgnoreNotFound err, node)
         | Inr tlsSecret \<Rightarrow>
             (let certPEM = mget (sec_Data tlsSecret) ''tls.crt'';
                  keyPEM = mget (sec_Data tlsSecret) ''tls.key'' in
              if certPEM = '''' \<or> keyPEM = '''' then
                ret (Some (Errorf [] (''secret TLS '' @ goq (key_Namespace (token_secret_key node tls)) @ ''/''
                  @ goq (sr_Name tls) @ '': tls.crt/tls.key manquants'')), node)
              else
                (let digest = xSHA256Hex E (certPEM @ keyPEM) in
                 if digest = nst_TLSCertDigest (n_Status node) then ret (None, node)
                 else do {
                   tres \<leftarrow> currentToken E node;
                   (case tres of
                      Inl err \<Rightarrow> ret (IgnoreNotFound err, node)
                    | Inr token \<Rightarrow>
                        if token = '''' then ret (None, node)
                        else push_tls E rec node token certPEM keyPEM digest)
                 })))
      })"

definition reconcileRebootRequest :: "'w ext \<Rightarrow> bool \<Rightarrow> mcunode \<Rightarrow> ('w sys, gerr option) state" where
  "reconcileRebootRequest E rec node =
     (let requested = mget (m_Annotations (n_Meta node)) annotationRebootRequested in
      if requested = '''' \<or> requested = nst_LastRebootRequested (n_Status node) then ret None
      else do {
        tres \<leftarrow> currentToken E node;
        (case tres of
           Inl err \<Rightarrow> ret (Some err)
         | Inr token \<Rightarrow>
             if token = '''' then ret None
             else do {
               rres \<leftarrow> PostReboot E (agent_New (nst_IP (n_Status node)) token);
               (case rres of
                  Inl err \<Rightarrow> do {
                    record_event rec node ''Warning'' ''RebootRequestFailed''
                      (''POST /reboot'' @ a_echoue @ err_text err @ '' (nouvelle tentative au prochain reconcile)'');
                    ret None
                  }
                | Inr _ \<Rightarrow> do {
                    ures \<leftarrow> patchNodeStatus E False node
                      (upd_nstatus (\<lambda>st. st\<lparr>nst_LastRebootRequested := requested\<rparr>) node);
                    (case ures of
                       Inl err \<Rightarrow> ret (Some (wrap_err ''patch LastRebootRequested: '' err))
                     | Inr node' \<Rightarrow> do {
                         record_event rec node' ''Normal'' ''RebootRequested''
                           (''reboot d'' @ e_acute @ ''clench'' @ e_acute @ '' '' @ a_grave
                            @ '' la demande (annotation '' @ annotationRebootRequested @ '')'');
                         ret None
                       })
                  })
             })
      })"

section \<open>Reconcile\<close>

text \<open>The status the reconciler writes, from the expiry of the heartbeat.\<close>

definition node_status_update :: "'w ext \<Rightarrow> bool \<Rightarrow> mcunode_status \<Rightarrow> mcunode_status" where
  "node_status_update E heartbeatExpired st =
     (let wantReady = (\<not> heartbeatExpired \<and> nst_State st = ''running'' \<and> nst_OtaValidated st);
          wantState = (if heartbeatExpired \<and> nst_State st \<noteq> ''offline'' \<and> nst_LastHeartbeat st \<noteq> None
                       then ''offline'' else nst_State st);
          st1 = st\<lparr>nst_Ready := wantReady, nst_State := wantState\<rparr>
      in if nst_LastHeartbeat st = None then
           st1\<lparr>nst_Conditions :=
             kSetStatusCondition E
               (kSetStatusCondition E (nst_Conditions st1)
                  (cond ''Provisioned'' ConditionFalse ''ProvisioningPending''
                    (''aucun heartbeat re'' @ [CHR 0xC3, CHR 0xA7] @ ''u, device non encore connect'' @ e_acute)))
               (cond ''Ready'' ConditionUnknown ''NotProvisioned''
                 (''device jamais enr'' @ [CHR 0xC3, CHR 0xB4] @ ''l'' @ e_acute))\<rparr>
         else if heartbeatExpired then
           st1\<lparr>nst_Conditions :=
             kSetStatusCondition E (nst_Conditions st1)
               (cond ''Ready'' ConditionFalse ''HeartbeatTimeout'' ''aucun heartbeat depuis plus de 10s'')\<rparr>
         else st1)"

text \<open>\<open>LastHeartbeat == nil || time.Since(LastHeartbeat) > HeartbeatTimeout\<close>\<close>

definition heartbeat_expired :: "'w ext \<Rightarrow> mcunode_status \<Rightarrow> ('w sys, bool) state" where
  "heartbeat_expired E st =
     (case nst_LastHeartbeat st of
        None \<Rightarrow> ret True
      | Some t \<Rightarrow> do { n \<leftarrow> now E; ret (time_since n t > HeartbeatTimeout) })"

text \<open>The five steps on a node with an IP: the first error ends them.\<close>

definition reconcile_device :: "'w ext \<Rightarrow> bool \<Rightarrow> mcunode \<Rightarrow> ('w sys, gerr option) state" where
  "reconcile_device E rec node = do {
     e1 \<leftarrow> reconcileService E node;
     (case e1 of Some err \<Rightarrow> ret (Some (wrap_err ''reconcile service: '' err)) | None \<Rightarrow> do {
       e2 \<leftarrow> reconcileEndpointSlice E node;
       (case e2 of Some err \<Rightarrow> ret (Some (wrap_err ''reconcile endpointslice: '' err)) | None \<Rightarrow> do {
         e3 \<leftarrow> reconcileTokenRotation E rec node;
         (case e3 of Some err \<Rightarrow> ret (Some (wrap_err ''reconcile token rotation: '' err)) | None \<Rightarrow> do {
           r4 \<leftarrow> reconcileTLSCert E rec node;
           (case r4 of
              (Some err, _) \<Rightarrow> ret (Some (wrap_err ''reconcile tls cert: '' err))
            | (None, node') \<Rightarrow> do {
                e5 \<leftarrow> reconcileRebootRequest E rec node';
                (case e5 of
                   Some err \<Rightarrow> ret (Some (wrap_err ''reconcile reboot request: '' err))
                 | None \<Rightarrow> ret None)
              })
         })
       })
     })
   }"

definition reconcile_live :: "'w ext \<Rightarrow> bool \<Rightarrow> mcunode \<Rightarrow> ('w sys, gerr + ctrl_result) state" where
  "reconcile_live E rec node = do {
     expired \<leftarrow> heartbeat_expired E (n_Status node);
     ures \<leftarrow> patchNodeStatus E True node (upd_nstatus (node_status_update E expired) node);
     (case ures of
        Inl err \<Rightarrow> ret (Inl err)
      | Inr node' \<Rightarrow>
          if nst_IP (n_Status node') \<noteq> '''' then do {
            e \<leftarrow> reconcile_device E rec node';
            (case e of Some err \<Rightarrow> ret (Inl err) | None \<Rightarrow> ret (Inr (res_after HeartbeatTimeout)))
          }
          else ret (Inr (res_after HeartbeatTimeout)))
   }"

definition Reconcile_node :: "'w ext \<Rightarrow> bool \<Rightarrow> obj_key \<Rightarrow> ('w sys, gerr + ctrl_result) state" where
  "Reconcile_node E rec key = do {
     gres \<leftarrow> getNode E key;
     (case gres of
        Inl err \<Rightarrow> if is_not_found err then ret (Inr res_done) else ret (Inl err)
      | Inr node \<Rightarrow>
          if m_DeletionTimestamp (n_Meta node) \<noteq> None then
            (if kContainsFinalizer E (n_Meta node) nodeMetricsFinalizer then do {
               metrics_remove (ns_NodeID (n_Spec node));
               ures \<leftarrow> updateNode E (node\<lparr>n_Meta := kRemoveFinalizer E (n_Meta node) nodeMetricsFinalizer\<rparr>);
               (case ures of Inl err \<Rightarrow> ret (Inl err) | Inr _ \<Rightarrow> ret (Inr res_done))
             }
             else ret (Inr res_done))
          else
            (case kAddFinalizer E (n_Meta node) nodeMetricsFinalizer of
               (m, True) \<Rightarrow> do {
                 ures \<leftarrow> updateNode E (node\<lparr>n_Meta := m\<rparr>);
                 (case ures of Inl err \<Rightarrow> ret (Inl err) | Inr node' \<Rightarrow> reconcile_live E rec node')
               }
             | (m, False) \<Rightarrow> reconcile_live E rec (node\<lparr>n_Meta := m\<rparr>)))
   }"

end
