(* ===== verification/DeploymentController.thy ===== *)
theory DeploymentController
  imports NodeController
begin

text \<open>
  \<open>internal/controller/mcudeployment_controller.go\<close>: the state machine of a McuDeployment. One
  call of \<open>Reconcile_deployment\<close> runs the handler of the current phase; a handler reads the
  cluster and the device, and ends in a status patch (\<open>setPhase\<close>, \<open>fail\<close>), a delayed retry or
  an error. The Go methods mutate \<open>dep\<close> in place; here the mutated object is passed on.
\<close>

section \<open>Reconciler and constants\<close>

record dep_reconciler =
  dr_OCI :: oci_client
  dr_TokenSecret :: string

definition ConfirmTimeout :: int where "ConfirmTimeout = 2 * 60 * second"

definition annotationConfirmingSince :: string where
  "annotationConfirmingSince = ''embewi.io/confirming-since''"

definition configFailReason :: "gerr \<Rightarrow> string" where
  "configFailReason err = (if err_is err errConfigMapNotFound then ''ConfigMapNotFound'' else ''ConfigInvalid'')"

section \<open>Conditions\<close>

definition setReadyCondition :: "'w ext \<Rightarrow> condition list \<Rightarrow> condition list" where
  "setReadyCondition E cs =
     (let progressing = kFindStatusCondition E cs ''Progressing'';
          available = kFindStatusCondition E cs ''Available'' in
      if (case (progressing, available) of
            (Some p, Some a) \<Rightarrow> c_Status p = ConditionFalse \<and> c_Status a = ConditionTrue
          | _ \<Rightarrow> False)
      then kSetStatusCondition E cs
             (cond ''Ready'' ConditionTrue ''DeploymentReady'' ''Progressing=False et Available=True'')
      else kSetStatusCondition E cs
             (cond ''Ready'' ConditionFalse ''DeploymentNotReady''
               (''d'' @ e_acute @ ''ploiement en cours ou device non disponible'')))"

definition workload_ready :: condition where
  "workload_ready = cond ''Available'' ConditionTrue ''WorkloadReady'' ''EndpointSlice.ready=true, workload joignable''"

definition setDeploymentConditions ::
  "'w ext \<Rightarrow> mcu_deployment_phase \<Rightarrow> condition list \<Rightarrow> condition list" where
  "setDeploymentConditions E phase cs =
     setReadyCondition E
       (case phase of
          PhaseDeployed \<Rightarrow>
            kSetStatusCondition E
              (kSetStatusCondition E cs
                (cond ''Progressing'' ConditionFalse ''DeploymentComplete''
                  (''OTA termin'' @ e_acute @ '', firmware stable'')))
              workload_ready
        | PhaseConfirming \<Rightarrow>
            kSetStatusCondition E
              (kSetStatusCondition E cs
                (cond ''Progressing'' ConditionTrue ''OTAInProgress'' ''attente confirmation device (pending_verify)''))
              (cond ''Available'' ConditionFalse ''PendingVerification''
                (''image non encore valid'' @ e_acute @ ''e par le device''))
        | _ \<Rightarrow>
            kSetStatusCondition E cs
              (cond ''Progressing'' ConditionTrue ''OTAInProgress'' (''phase: '' @ phase_text phase)))"

definition failed_conditions :: "'w ext \<Rightarrow> string \<Rightarrow> string \<Rightarrow> condition list \<Rightarrow> condition list" where
  "failed_conditions E reason msg cs =
     setReadyCondition E
       (kSetStatusCondition E
         (kSetStatusCondition E cs (cond ''Progressing'' ConditionFalse ''OTAFailed'' msg))
         (cond ''Available'' ConditionFalse ''DeviceDegraded'' (''['' @ reason @ ''] '' @ msg)))"

section \<open>Writing the status\<close>

text \<open>The object \<open>fail\<close> patches, and the one \<open>setPhase\<close> patches.\<close>

definition failed_dep :: "'w ext \<Rightarrow> string \<Rightarrow> string \<Rightarrow> mcudeployment \<Rightarrow> mcudeployment" where
  "failed_dep E reason msg dep =
     upd_dstatus (\<lambda>st. st\<lparr>dst_Phase := PhaseFailed, dst_Message := ''['' @ reason @ ''] '' @ msg,
        dst_Conditions := failed_conditions E reason msg (dst_Conditions st)\<rparr>) dep"

definition phased_dep ::
  "'w ext \<Rightarrow> mcu_deployment_phase \<Rightarrow> string \<Rightarrow> string \<Rightarrow> mcudeployment \<Rightarrow> mcudeployment" where
  "phased_dep E phase boundNode msg dep =
     upd_dstatus (\<lambda>st. st\<lparr>dst_Phase := phase, dst_BoundNode := boundNode, dst_Message := msg,
        dst_Conditions := setDeploymentConditions E phase (dst_Conditions st)\<rparr>) dep"

definition fail :: "'w ext \<Rightarrow> mcudeployment \<Rightarrow> string \<Rightarrow> string \<Rightarrow> ('w sys, gerr + ctrl_result) state" where
  "fail E dep reason msg = do {
     ures \<leftarrow> patchDeploymentStatus E dep (failed_dep E reason msg dep);
     (case ures of Inl err \<Rightarrow> ret (Inl err) | Inr _ \<Rightarrow> ret (Inr res_done))
   }"

definition set_confirming_since :: "string \<Rightarrow> mcudeployment \<Rightarrow> mcudeployment" where
  "set_confirming_since v dep =
     dep\<lparr>d_Meta := (d_Meta dep)\<lparr>m_Annotations :=
        (m_Annotations (d_Meta dep))(annotationConfirmingSince \<mapsto> v)\<rparr>\<rparr>"

definition setPhase_status ::
  "'w ext \<Rightarrow> mcudeployment \<Rightarrow> mcu_deployment_phase \<Rightarrow> string \<Rightarrow> string \<Rightarrow> ('w sys, gerr + ctrl_result) state" where
  "setPhase_status E dep phase boundNode msg = do {
     ures \<leftarrow> patchDeploymentStatus E dep (phased_dep E phase boundNode msg dep);
     (case ures of Inl err \<Rightarrow> ret (Inl err) | Inr _ \<Rightarrow> ret (Inr res_requeue))
   }"

definition setPhase ::
  "'w ext \<Rightarrow> mcudeployment \<Rightarrow> mcu_deployment_phase \<Rightarrow> string \<Rightarrow> string \<Rightarrow> ('w sys, gerr + ctrl_result) state" where
  "setPhase E dep phase boundNode msg =
     (if phase = PhaseConfirming \<and> m_Annotations (d_Meta dep) annotationConfirmingSince = None
      then do {
        t \<leftarrow> now E;
        ures \<leftarrow> patchDeployment E dep (set_confirming_since (tFormat E t) dep);
        (case ures of
           Inl err \<Rightarrow> ret (Inl err)
         | Inr dep' \<Rightarrow> setPhase_status E dep' phase boundNode msg)
      }
      else setPhase_status E dep phase boundNode msg)"

section \<open>Binding\<close>

fun selector_matches :: "(string \<times> string) list \<Rightarrow> (string \<rightharpoonup> string) \<Rightarrow> bool" where
  "selector_matches [] labels = True"
| "selector_matches ((k, v) # sel) labels = (if mget labels k \<noteq> v then False else selector_matches sel labels)"

definition candidates :: "mcudeployment \<Rightarrow> mcunode list \<Rightarrow> mcunode list" where
  "candidates dep nodes =
     filter (\<lambda>n. if ds_NodeName (d_Spec dep) \<noteq> '''' then n_Name n = ds_NodeName (d_Spec dep)
                 else selector_matches (ds_NodeSelector (d_Spec dep)) (m_Labels (n_Meta n))) nodes"

fun first_busy :: "string \<Rightarrow> string \<Rightarrow> mcudeployment list \<Rightarrow> mcudeployment option" where
  "first_busy self nodeName [] = None"
| "first_busy self nodeName (d # ds) =
     (if d_Name d = self then first_busy self nodeName ds
      else if dst_BoundNode (d_Status d) = nodeName \<and> dst_Phase (d_Status d) \<noteq> PhaseFailed then Some d
      else first_busy self nodeName ds)"

definition checkNotBusy :: "'w ext \<Rightarrow> mcudeployment \<Rightarrow> string \<Rightarrow> ('w sys, gerr option) state" where
  "checkNotBusy E dep nodeName = do {
     lres \<leftarrow> listDeployments E (d_Namespace dep);
     (case lres of
        Inl err \<Rightarrow> ret (Some err)
      | Inr items \<Rightarrow>
          (case first_busy (d_Name dep) nodeName items of
             Some d \<Rightarrow> ret (Some (Errorf [] (''node '' @ goq nodeName @ '' d'' @ e_acute @ ''j'' @ a_grave
               @ '' utilis'' @ e_acute @ '' par McuDeployment '' @ goq (d_Name d))))
           | None \<Rightarrow> ret None))
   }"

definition phaseBinding :: "'w ext \<Rightarrow> mcudeployment \<Rightarrow> ('w sys, gerr + ctrl_result) state" where
  "phaseBinding E dep = do {
     lres \<leftarrow> listNodes E (Some (d_Namespace dep));
     (case lres of
        Inl err \<Rightarrow> ret (Inl err)
      | Inr items \<Rightarrow>
          (case candidates dep items of
             [] \<Rightarrow> fail E dep ''NoDeviceMatched'' ''aucun McuNode ne correspond''
           | [n] \<Rightarrow> do {
               b \<leftarrow> checkNotBusy E dep (n_Name n);
               (case b of
                  Some err \<Rightarrow> fail E dep ''DeviceBusy'' (err_text err)
                | None \<Rightarrow> setPhase E dep PhasePulling (n_Name n) '''')
             }
           | ns \<Rightarrow> fail E dep ''AmbiguousBinding''
               (dec (int (length ns)) @ '' nodes correspondent, pin explicite requis'')))
   }"

section \<open>Pulling\<close>

definition pulled_status :: "'w ext \<Rightarrow> mcudeployment \<Rightarrow> firmware_meta \<Rightarrow> mcudeployment" where
  "pulled_status E dep meta =
     upd_dstatus (\<lambda>st. st\<lparr>dst_Phase := PhasePreparing,
        dst_DeploymentID := (if dst_DeploymentID st = '''' then m_UID (d_Meta dep) else dst_DeploymentID st),
        dst_Digest := fm_Digest meta, dst_Size := fm_Size meta,
        dst_Conditions := setDeploymentConditions E PhasePreparing (dst_Conditions st)\<rparr>) dep"

definition phasePulling ::
  "'w ext \<Rightarrow> dep_reconciler \<Rightarrow> mcudeployment \<Rightarrow> ('w sys, gerr + ctrl_result) state" where
  "phasePulling E R dep = do {
     mres \<leftarrow> ResolveFirmware E (dr_OCI R) (fw_Image (ds_Firmware (d_Spec dep)));
     (case mres of
        Inl err \<Rightarrow> ret (Inr (res_after (30 * second)))
      | Inr meta \<Rightarrow> do {
          ures \<leftarrow> patchDeploymentStatus E dep (pulled_status E dep meta);
          (case ures of Inl err \<Rightarrow> ret (Inl err) | Inr _ \<Rightarrow> ret (Inr res_requeue))
        })
   }"

section \<open>The device client\<close>

definition nodeTokenRef :: "dep_reconciler \<Rightarrow> mcunode \<Rightarrow> obj_key \<times> string" where
  "nodeTokenRef R node =
     (let secretName = sr_Name (ns_TokenRef (n_Spec node));
          secretNS = sr_Namespace (ns_TokenRef (n_Spec node));
          secretNS = (if secretNS = '''' then n_Namespace node else secretNS);
          tokenKey = ''token'' in
      if secretName = '''' then
        (let secretName = dr_TokenSecret R;
             secretName = (if secretName = '''' then ''embewi-tokens'' else secretName)
         in (\<lparr>key_Namespace = n_Namespace node, key_Name = secretName\<rparr>, ns_NodeID (n_Spec node)))
      else (\<lparr>key_Namespace = secretNS, key_Name = secretName\<rparr>, tokenKey))"

definition nodeToken :: "'w ext \<Rightarrow> dep_reconciler \<Rightarrow> mcunode \<Rightarrow> ('w sys, gerr + string) state" where
  "nodeToken E R node =
     (case nodeTokenRef R node of (key, tokenKey) \<Rightarrow> do {
        sres \<leftarrow> getSecret E key;
        (case sres of
           Inl err \<Rightarrow> ret (Inl (wrap_err (''secret '' @ goq (key_Namespace key) @ ''/'' @ goq (key_Name key) @ '': '') err))
         | Inr secret \<Rightarrow>
             (case sec_Data secret tokenKey of
                None \<Rightarrow> ret (Inl (Errorf [] (''cl'' @ e_acute @ '' '' @ goq tokenKey @ '' absente du secret ''
                  @ goq (key_Name key) @ '' (namespace '' @ key_Namespace key @ '')'')))
              | Some tok \<Rightarrow> ret (Inr (trimSpace tok))))
      })"

definition nodeClient ::
  "'w ext \<Rightarrow> dep_reconciler \<Rightarrow> mcudeployment \<Rightarrow> ('w sys, gerr + (mcunode \<times> agent_client)) state" where
  "nodeClient E R dep = do {
     nres \<leftarrow> getNode E \<lparr>key_Namespace = d_Namespace dep, key_Name = dst_BoundNode (d_Status dep)\<rparr>;
     (case nres of
        Inl err \<Rightarrow> ret (Inl (wrap_err (''McuNode '' @ goq (dst_BoundNode (d_Status dep)) @ '': '') err))
      | Inr node \<Rightarrow>
          if nst_IP (n_Status node) = '''' then
            ret (Inl (Errorf [] (''McuNode '' @ goq (n_Name node) @ '': IP inconnue (aucun heartbeat re''
              @ [CHR 0xC3, CHR 0xA7] @ ''u)'')))
          else do {
            tres \<leftarrow> nodeToken E R node;
            (case tres of
               Inl err \<Rightarrow> ret (Inl err)
             | Inr token \<Rightarrow> ret (Inr (node, agent_New (nst_IP (n_Status node)) token)))
          })
   }"

section \<open>Configuration\<close>

text \<open>The limits of the device store, on the pairs in the order they are ranged over.\<close>

fun check_limits :: "(string \<times> string) list \<Rightarrow> gerr option" where
  "check_limits [] = None"
| "check_limits ((k, v) # kvs) =
     (if length k > 15 then
        Some (Errorf [Sentinel errConfigPermanent]
          (sentinel_text errConfigPermanent @ '': cl'' @ e_acute @ '' '' @ goq k @ '' d'' @ e_acute
           @ ''passe 15 caract'' @ e_grave @ ''res (limite NVS '' @ [CHR 0xC2, CHR 0xA7] @ ''4a)''))
      else if length v > 63 then
        Some (Errorf [Sentinel errConfigPermanent]
          (sentinel_text errConfigPermanent @ '': valeur de '' @ goq k @ '' d'' @ e_acute
           @ ''passe 63 caract'' @ e_grave @ ''res (limite NVS '' @ [CHR 0xC2, CHR 0xA7] @ ''4a)''))
      else check_limits kvs)"

text \<open>The loop that filters reserved keys and compares with the device: payload and \<open>needsPush\<close>.\<close>

fun diff_config ::
  "(string \<rightharpoonup> string) \<Rightarrow> (string \<times> string) list \<Rightarrow> (string \<times> string) list \<times> bool" where
  "diff_config nvs [] = ([], False)"
| "diff_config nvs ((k, v) # kvs) =
     (case diff_config nvs kvs of (filtered, needsPush) \<Rightarrow>
        if hasPrefix k ''_'' then (filtered, needsPush)
        else ((k, v) # filtered, needsPush \<or> mget nvs k \<noteq> v))"

definition pushConfigIfNeeded ::
  "'w ext \<Rightarrow> agent_client \<Rightarrow> mcudeployment \<Rightarrow> ('w sys, gerr + bool) state" where
  "pushConfigIfNeeded E cli dep =
     (let cmref = ds_ConfigMapRef (d_Spec dep) in do {
        gres \<leftarrow> getConfigMap E \<lparr>key_Namespace = d_Namespace dep, key_Name = cmref\<rparr>;
        (case gres of
           Inl err \<Rightarrow>
             if is_not_found err then
               ret (Inl (Errorf [Sentinel errConfigPermanent, Sentinel errConfigMapNotFound]
                 (sentinel_text errConfigPermanent @ '': '' @ sentinel_text errConfigMapNotFound
                  @ '': McuConfigMap '' @ goq cmref @ '' introuvable'')))
             else ret (Inl (wrap_err (''McuConfigMap '' @ goq cmref @ '': '') err))
         | Inr cm \<Rightarrow>
             (case check_limits (cm_Data cm) of
                Some err \<Rightarrow> ret (Inl err)
              | None \<Rightarrow> do {
                  cres \<leftarrow> GetConfig E cli;
                  (case cres of
                     Inl err \<Rightarrow> ret (Inl (wrap_err ''GET /config: '' err))
                   | Inr current \<Rightarrow>
                       (case diff_config (cr_NVS current) (cm_Data cm) of (filtered, needsPush) \<Rightarrow>
                          if \<not> needsPush then
                            (if cr_ActiveGeneration current < cr_Generation current
                             then ret (Inr True) else ret (Inr False))
                          else do {
                            pres \<leftarrow> PostConfig E cli filtered;
                            (case pres of
                               Inl err \<Rightarrow> ret (Inl (wrap_err ''POST /config: '' err))
                             | Inr _ \<Rightarrow> ret (Inr True))
                          }))
                }))
      })"

definition reconcileConfigOnly ::
  "'w ext \<Rightarrow> dep_reconciler \<Rightarrow> mcudeployment \<Rightarrow> ('w sys, gerr + ctrl_result) state" where
  "reconcileConfigOnly E R dep = do {
     cl \<leftarrow> nodeClient E R dep;
     (case cl of
        Inl err \<Rightarrow> ret (Inr (res_after (30 * second)))
      | Inr (_, cli) \<Rightarrow> do {
          pres \<leftarrow> pushConfigIfNeeded E cli dep;
          (case pres of
             Inl err \<Rightarrow>
               if err_is err errConfigPermanent
               then fail E dep (configFailReason err) (err_text err)
               else ret (Inr (res_after (30 * second)))
           | Inr needsReboot \<Rightarrow>
               if needsReboot then do {
                 rres \<leftarrow> PostReboot E cli;
                 (case rres of
                    Inl err \<Rightarrow> ret (Inr (res_after (30 * second)))
                  | Inr _ \<Rightarrow> ret (Inr res_done))
               }
               else ret (Inr res_done))
        })
   }"

section \<open>Watches\<close>

definition dep_request :: "mcudeployment \<Rightarrow> obj_key" where
  "dep_request d = obj_key_of (d_Meta d)"

definition configMapToDeployments :: "'w ext \<Rightarrow> mcuconfigmap \<Rightarrow> ('w sys, obj_key list) state" where
  "configMapToDeployments E cm = do {
     lres \<leftarrow> listDeployments E (m_Namespace (cm_Meta cm));
     (case lres of
        Inl _ \<Rightarrow> ret []
      | Inr items \<Rightarrow>
          ret (map dep_request (filter (\<lambda>d. ds_ConfigMapRef (d_Spec d) = m_Name (cm_Meta cm)) items)))
   }"

definition nodeToDeployments :: "'w ext \<Rightarrow> mcunode \<Rightarrow> ('w sys, obj_key list) state" where
  "nodeToDeployments E node = do {
     lres \<leftarrow> listDeployments E (n_Namespace node);
     (case lres of
        Inl _ \<Rightarrow> ret []
      | Inr items \<Rightarrow>
          ret (map dep_request (filter (\<lambda>d. dst_BoundNode (d_Status d) = n_Name node \<and>
             (dst_Phase (d_Status d) = PhaseConfirming \<or> dst_Phase (d_Status d) = PhaseDeployed)) items)))
   }"

section \<open>Preparing\<close>

definition node_info_update :: "info_response \<Rightarrow> string \<Rightarrow> mcunode \<Rightarrow> mcunode" where
  "node_info_update info negotiated node =
     upd_nstatus (\<lambda>st.
       (let st1 = st\<lparr>nst_Chip := ir_Chip info, nst_IDFVersion := ir_IDFVersion info,
                     nst_FlashSize := ir_FlashSize info, nst_RAMSize := ir_RAMSize info\<rparr>;
            st2 = (if ir_AppPort info \<noteq> 0 then st1\<lparr>nst_AppPort := ir_AppPort info\<rparr> else st1)
        in st2\<lparr>nst_ApiVersion := negotiated\<rparr>)) node"

text \<open>The node after the call (the server's answer, or the local changes if the patch failed).\<close>

definition persistNodeInfo ::
  "'w ext \<Rightarrow> mcunode \<Rightarrow> info_response \<Rightarrow> ('w sys, gerr option \<times> mcunode) state" where
  "persistNodeInfo E node info =
     (let neg = NegotiateAPIVersion (ir_ApiVersions info);
          negotiated = (case neg of Inl _ \<Rightarrow> '''' | Inr v \<Rightarrow> v);
          node1 = node_info_update info negotiated node in do {
        ures \<leftarrow> patchNodeStatus E False node node1;
        ret (err_of neg, case ures of Inl _ \<Rightarrow> node1 | Inr node2 \<Rightarrow> node2)
      })"

definition prepare_event_reason :: "string \<Rightarrow> string" where
  "prepare_event_reason reason =
     (if reason = ''chip_mismatch'' then ''OTARejectedChip''
      else if reason = ''layout_mismatch'' then ''OTARejectedLayout''
      else if reason = ''idf_incompatible'' then ''OTARejectedIdf''
      else if reason = ''size_too_large'' then ''OTARejectedSize''
      else if reason = ''busy'' then ''OTABusy''
      else ''OTARejected'')"

definition prepare_req :: "mcudeployment \<Rightarrow> mcunode \<Rightarrow> prepare_request" where
  "prepare_req dep node =
     \<lparr>pq_DeploymentID = dst_DeploymentID (d_Status dep), pq_Artifact = fw_Image (ds_Firmware (d_Spec dep)),
      pq_Digest = dst_Digest (d_Status dep), pq_Size = dst_Size (d_Status dep),
      pq_Chip = nst_Chip (n_Status node), pq_IDFVersion = nst_IDFVersion (n_Status node),
      pq_PartitionLayout = ''embewi-ab-v1''\<rparr>"

text \<open>\<open>phasePreparing\<close> from the idempotence check on.\<close>

definition prepare_device ::
  "'w ext \<Rightarrow> mcudeployment \<Rightarrow> mcunode \<Rightarrow> agent_client \<Rightarrow> ('w sys, gerr + ctrl_result) state" where
  "prepare_device E dep node cli = do {
     ires \<leftarrow> GetInfo E cli;
     (case ires of
        Inl err \<Rightarrow> ret (Inr (res_after (15 * second)))
      | Inr info \<Rightarrow> do {
          pn \<leftarrow> persistNodeInfo E node info;
          (case pn of
             (Some err, node') \<Rightarrow> do {
               event (d_Meta dep) ''Warning'' ''APIVersionUnsupported'' (err_text err);
               fail E dep ''APIVersionUnsupported'' (err_text err)
             }
           | (None, node') \<Rightarrow>
               if ir_StagedState info = ''activating'' \<and>
                  ir_StagedDeploymentID info = dst_DeploymentID (d_Status dep)
               then setPhase E dep PhaseConfirming (n_Name node') ''''
               else if ir_StagedState info = ''written'' \<and> ir_StagedDigest info = dst_Digest (d_Status dep) \<and>
                  ir_StagedDeploymentID info = dst_DeploymentID (d_Status dep)
               then setPhase E dep PhaseActivating (n_Name node') ''''
               else do {
                 pres \<leftarrow> OTAPrepare E cli (prepare_req dep node');
                 (case pres of
                    Inl err \<Rightarrow> ret (Inr (res_after (15 * second)))
                  | Inr resp \<Rightarrow>
                      if \<not> pr_Accepted resp then do {
                        event (d_Meta dep) ''Warning'' (prepare_event_reason (pr_Reason resp))
                          (''prepare refus'' @ e_acute @ '' par le device: '' @ pr_Reason resp);
                        fail E dep (pr_Reason resp) (''prepare refus'' @ e_acute @ '': '' @ pr_Reason resp)
                      }
                      else setPhase E dep PhaseWriting (n_Name node') '''')
               })
        })
   }"

definition phasePreparing ::
  "'w ext \<Rightarrow> dep_reconciler \<Rightarrow> mcudeployment \<Rightarrow> ('w sys, gerr + ctrl_result) state" where
  "phasePreparing E R dep = do {
     cl \<leftarrow> nodeClient E R dep;
     (case cl of
        Inl err \<Rightarrow> ret (Inl err)
      | Inr (node, cli) \<Rightarrow>
          if ds_ConfigMapRef (d_Spec dep) \<noteq> '''' then do {
            pres \<leftarrow> pushConfigIfNeeded E cli dep;
            (case pres of
               Inl err \<Rightarrow>
                 if err_is err errConfigPermanent
                 then fail E dep (configFailReason err) (err_text err)
                 else ret (Inr (res_after (15 * second)))
             | Inr _ \<Rightarrow> prepare_device E dep node cli)
          }
          else prepare_device E dep node cli)
   }"

section \<open>Writing\<close>

definition write_error_event :: "gerr \<Rightarrow> (string \<times> string) option" where
  "write_error_event err =
     (case as_OTAWriteError err of
        None \<Rightarrow> None
      | Some (st, h) \<Rightarrow>
          if st = ''digest_mismatch'' then Some (''OTADigestMismatch'', err_text (OTAWriteErr st h))
          else if st = ''write_failed'' then Some (''OTAWriteFailed'', err_text (OTAWriteErr st h))
          else if st = ''ota_begin_failed'' then Some (''OTABeginFailed'', err_text (OTAWriteErr st h))
          else None)"

definition phaseWriting ::
  "'w ext \<Rightarrow> dep_reconciler \<Rightarrow> mcudeployment \<Rightarrow> ('w sys, gerr + ctrl_result) state" where
  "phaseWriting E R dep = do {
     cl \<leftarrow> nodeClient E R dep;
     (case cl of
        Inl err \<Rightarrow> ret (Inl err)
      | Inr (_, cli) \<Rightarrow> do {
          sres \<leftarrow> StreamBlob E (dr_OCI R) (fw_Image (ds_Firmware (d_Spec dep))) (dst_Digest (d_Status dep));
          (case sres of
             Inl err \<Rightarrow> ret (Inr (res_after (30 * second)))
           | Inr stream \<Rightarrow> do {
               w \<leftarrow> OTAWrite E cli (dst_DeploymentID (d_Status dep)) (dst_Digest (d_Status dep))
                      (dst_Size (d_Status dep)) stream;
               (case w of (writeErr, stream') \<Rightarrow>
                  (case writeErr of
                     Some err \<Rightarrow> do {
                       (case write_error_event err of
                          Some (reason, msg) \<Rightarrow> event (d_Meta dep) ''Warning'' reason msg
                        | None \<Rightarrow> ret ());
                       ret (Inr (res_after (30 * second)))
                     }
                   | None \<Rightarrow>
                       (case blob_Err stream' of
                          Some mm \<Rightarrow> do {
                            event (d_Meta dep) ''Warning'' ''OTABlobDigestMismatch'' (err_text mm);
                            ret (Inr (res_after (30 * second)))
                          }
                        | None \<Rightarrow> do {
                            event (d_Meta dep) ''Normal'' ''OTAWritten''
                              (''firmware '' @ e_acute @ ''crit sur le device ('' @ dec (dst_Size (d_Status dep)) @ '' bytes)'');
                            setPhase E dep PhaseActivating (dst_BoundNode (d_Status dep)) ''''
                          })))
             })
        })
   }"

section \<open>Activating and confirming\<close>

definition alreadyActivated :: "mcudeployment \<Rightarrow> info_response \<Rightarrow> bool" where
  "alreadyActivated dep info \<longleftrightarrow>
     (ir_StagedState info = ''activating'' \<and> ir_StagedDeploymentID info = dst_DeploymentID (d_Status dep))
     \<or> ir_State info = ''pending_verify''"

definition phaseActivating ::
  "'w ext \<Rightarrow> dep_reconciler \<Rightarrow> mcudeployment \<Rightarrow> ('w sys, gerr + ctrl_result) state" where
  "phaseActivating E R dep = do {
     cl \<leftarrow> nodeClient E R dep;
     (case cl of
        Inl err \<Rightarrow> ret (Inl err)
      | Inr (node, cli) \<Rightarrow> do {
          ires \<leftarrow> GetInfo E cli;
          (case ires of
             Inl err \<Rightarrow> ret (Inr (res_after (15 * second)))
           | Inr info \<Rightarrow> do {
               pn \<leftarrow> persistNodeInfo E node info;
               (case fst pn of
                  Some err \<Rightarrow> do {
                    event (d_Meta dep) ''Warning'' ''APIVersionUnsupported'' (err_text err);
                    fail E dep ''APIVersionUnsupported'' (err_text err)
                  }
                | None \<Rightarrow>
                    if alreadyActivated dep info
                    then setPhase E dep PhaseConfirming (dst_BoundNode (d_Status dep)) ''''
                    else do {
                      ares \<leftarrow> OTAActivate E cli (dst_DeploymentID (d_Status dep));
                      (case ares of
                         Inl err \<Rightarrow> ret (Inr (res_after (15 * second)))
                       | Inr _ \<Rightarrow> setPhase E dep PhaseConfirming (dst_BoundNode (d_Status dep)) '''')
                    })
             })
        })
   }"

definition confirmed :: "mcudeployment \<Rightarrow> mcunode \<Rightarrow> bool" where
  "confirmed dep node \<longleftrightarrow> nst_State (n_Status node) = ''running'' \<and> nst_OtaValidated (n_Status node) \<and>
     nst_DeploymentID (n_Status node) = dst_DeploymentID (d_Status dep)"

definition phaseConfirming ::
  "'w ext \<Rightarrow> dep_reconciler \<Rightarrow> mcudeployment \<Rightarrow> ('w sys, gerr + ctrl_result) state" where
  "phaseConfirming E R dep = do {
     cl \<leftarrow> nodeClient E R dep;
     (case cl of
        Inl err \<Rightarrow> ret (Inr (res_after (10 * second)))
      | Inr (node, _) \<Rightarrow>
          if confirmed dep node
          then setPhase E dep PhaseDeployed (n_Name node)
                 (''d'' @ e_acute @ ''ploiement confirm'' @ e_acute @ '' par heartbeat'')
          else if nst_State (n_Status node) \<in> {''failed'', ''rollback'', ''degraded''}
          then fail E dep ''DeviceRollback''
                 (''device en '' @ e_acute @ ''tat '' @ goq (nst_State (n_Status node)) @ '' apr'' @ e_grave @ ''s activation'')
          else
            (case m_Annotations (d_Meta dep) annotationConfirmingSince of
               None \<Rightarrow> ret (Inr (res_after (10 * second)))
             | Some sinceStr \<Rightarrow>
                 (case tParse E sinceStr of
                    None \<Rightarrow> ret (Inr (res_after (10 * second)))
                  | Some since \<Rightarrow> do {
                      n \<leftarrow> now E;
                      (if time_since n since > ConfirmTimeout
                       then fail E dep ''ConfirmTimeout''
                              (''aucune confirmation dans les 2m0s apr'' @ e_grave @ ''s activate'')
                       else ret (Inr (res_after (10 * second))))
                    })))
   }"

section \<open>Deployed\<close>

definition deployed_available :: "bool \<Rightarrow> mcunode \<Rightarrow> condition" where
  "deployed_available heartbeatExpired node =
     (if heartbeatExpired then
        cond ''Available'' ConditionFalse ''HeartbeatTimeout'' ''aucun heartbeat depuis plus de 10s''
      else if nst_State (n_Status node) \<in> {''degraded'', ''rollback'', ''failed''} then
        cond ''Available'' ConditionFalse ''DeviceDegraded'' (''device state='' @ nst_State (n_Status node))
      else workload_ready)"

definition available_dep :: "'w ext \<Rightarrow> bool \<Rightarrow> mcunode \<Rightarrow> mcudeployment \<Rightarrow> mcudeployment" where
  "available_dep E heartbeatExpired node dep =
     upd_dstatus (\<lambda>st. st\<lparr>dst_Conditions := setReadyCondition E
       (kSetStatusCondition E (dst_Conditions st) (deployed_available heartbeatExpired node))\<rparr>) dep"

definition reconcileAppPort ::
  "'w ext \<Rightarrow> agent_client \<Rightarrow> mcunode \<Rightarrow> mcudeployment \<Rightarrow> ('w sys, gerr option) state" where
  "reconcileAppPort E cli node dep = do {
     pres \<leftarrow> PostAppPort E cli (ds_AppPort (d_Spec dep));
     (case pres of
        Inl err \<Rightarrow> ret (Some (wrap_err ''POST /app/port: '' err))
      | Inr _ \<Rightarrow> do {
          _ \<leftarrow> patchNodeStatus E False node
            (upd_nstatus (\<lambda>st. st\<lparr>nst_AppPort := ds_AppPort (d_Spec dep)\<rparr>) node);
          event (d_Meta dep) ''Normal'' ''AppPortUpdated''
            (''port applicatif reconfigur'' @ e_acute @ '' '' @ a_grave @ '' '' @ dec (ds_AppPort (d_Spec dep)));
          ret None
        })
   }"

text \<open>The configuration step at the end of \<open>reconcileDeployed\<close>.\<close>

definition deployed_config ::
  "'w ext \<Rightarrow> dep_reconciler \<Rightarrow> mcudeployment \<Rightarrow> ('w sys, gerr + ctrl_result) state" where
  "deployed_config E R dep =
     (if ds_ConfigMapRef (d_Spec dep) \<noteq> '''' then reconcileConfigOnly E R dep else ret (Inr res_done))"

definition reconcileDeployed ::
  "'w ext \<Rightarrow> dep_reconciler \<Rightarrow> mcudeployment \<Rightarrow> ('w sys, gerr + ctrl_result) state" where
  "reconcileDeployed E R dep = do {
     nres \<leftarrow> getNode E \<lparr>key_Namespace = d_Namespace dep, key_Name = dst_BoundNode (d_Status dep)\<rparr>;
     (case nres of
        Inl err \<Rightarrow> ret (Inr (res_after (30 * second)))
      | Inr node \<Rightarrow> do {
          expired \<leftarrow> heartbeat_expired E (n_Status node);
          ures \<leftarrow> patchDeploymentStatus E dep (available_dep E expired node dep);
          (case ures of
             Inl err \<Rightarrow> ret (Inl err)
           | Inr dep' \<Rightarrow>
               if ds_AppPort (d_Spec dep') \<noteq> 0 \<and> ds_AppPort (d_Spec dep') \<noteq> nst_AppPort (n_Status node) then do {
                 cl \<leftarrow> nodeClient E R dep';
                 (case cl of
                    Inl err \<Rightarrow> ret (Inr (res_after (30 * second)))
                  | Inr (_, cli) \<Rightarrow> do {
                      a \<leftarrow> reconcileAppPort E cli node dep';
                      (case a of
                         Some err \<Rightarrow> ret (Inr (res_after (30 * second)))
                       | None \<Rightarrow> deployed_config E R dep')
                    })
               }
               else deployed_config E R dep')
        })
   }"

section \<open>Reconcile\<close>

definition dispatch ::
  "'w ext \<Rightarrow> dep_reconciler \<Rightarrow> mcudeployment \<Rightarrow> ('w sys, gerr + ctrl_result) state" where
  "dispatch E R dep =
     (case dst_Phase (d_Status dep) of
        PhaseFailed \<Rightarrow> ret (Inr res_done)
      | PhaseDeployed \<Rightarrow> reconcileDeployed E R dep
      | PhaseNone \<Rightarrow> phaseBinding E dep
      | PhaseBinding \<Rightarrow> phaseBinding E dep
      | PhasePulling \<Rightarrow> phasePulling E R dep
      | PhasePreparing \<Rightarrow> phasePreparing E R dep
      | PhaseWriting \<Rightarrow> phaseWriting E R dep
      | PhaseActivating \<Rightarrow> phaseActivating E R dep
      | PhaseConfirming \<Rightarrow> phaseConfirming E R dep
      | PhaseOther _ \<Rightarrow> ret (Inr res_done))"

definition Reconcile_deployment ::
  "'w ext \<Rightarrow> dep_reconciler \<Rightarrow> obj_key \<Rightarrow> ('w sys, gerr + ctrl_result) state" where
  "Reconcile_deployment E R key = do {
     gres \<leftarrow> getDeployment E key;
     (case gres of
        Inl err \<Rightarrow> if is_not_found err then ret (Inr res_done) else ret (Inl err)
      | Inr dep \<Rightarrow> dispatch E R dep)
   }"

end
