(* ===== verification/OtaSpec.thy ===== *)
theory OtaSpec
  imports Agent
begin

text \<open>
  Correctness of the firmware transfer of \<open>internal/agent/client.go\<close>: what each \<open>PUT /ota/write\<close>
  carries, how many there are, and what a device that follows the agent API holds after a transfer
  that reported success.
\<close>

section \<open>Ranges\<close>

lemma judge_Resync:
  "judge_response E code offset fin raw = Resync w \<Longrightarrow>
     code = 416 \<and> w = jWritten E raw \<and> offset \<le> w \<and> w < i64 (fin + 1)"
  by (auto simp: judge_response_def Let_def split: if_splits sum.splits)

lemma judge_Confirmed:
  "judge_response E code offset fin raw = Confirmed \<Longrightarrow>
     (code = 200 \<and> (\<exists>st er. jWriteResult E raw = Inr (st, er) \<and> (st = ''written'' \<or> st = ''partial'')))
     \<or> (code = 416 \<and> jWritten E raw = i64 (fin + 1))"
  by (auto simp: judge_response_def Let_def split: if_splits sum.splits)

lemma chunk_end_eq:
  assumes "0 \<le> start" "start < tot" "tot < 2 ^ 63 - 65536"
  shows "chunk_end start tot = min (start + 65535) (tot - 1)"
  using assms by (auto simp: chunk_end_def otaChunkSize_def i64_id Let_def min_def)

lemma chunk_len_eq:
  assumes "0 \<le> start" "start < tot" "tot < 2 ^ 63 - 65536"
  shows "chunk_len start tot = chunk_end start tot - start + 1"
    and "0 < chunk_len start tot" and "chunk_len start tot \<le> 65536"
  using assms by (auto simp: chunk_len_def chunk_end_eq i64_id min_def)

definition slice :: "string \<Rightarrow> int \<Rightarrow> int \<Rightarrow> string" where
  "slice content o1 fin = take (nat (fin - o1 + 1)) (drop (nat o1) content)"

text \<open>A range of the firmware, sent with the bytes its header announces.\<close>

definition ota_put :: "agent_client \<Rightarrow> string \<Rightarrow> string \<Rightarrow> string \<Rightarrow> int \<Rightarrow> call \<Rightarrow> bool" where
  "ota_put c depl dg content tot k \<longleftrightarrow>
     (\<exists>o1 fin. 0 \<le> o1 \<and> o1 \<le> fin \<and> fin < tot \<and> fin - o1 < 65536 \<and>
        length (slice content o1 fin) = nat (fin - o1 + 1) \<and>
        k = CHttp (ota_request c depl dg o1 fin tot (slice content o1 fin)))"

lemma ota_request_doWith [emits_intros]:
  "(\<And>b. P (CHttp (ota_request c depl dg offset fin tot bytes), b)) \<Longrightarrow>
   emits P (doWith E c True ''PUT'' ''/ota/write'' (BBytes bytes) (int (length bytes))
     (ota_headers depl dg offset fin tot))"
  unfolding ota_request_def by (rule emits_doWith) simp

lemma putOTAChunk_loop_emits:
  assumes "\<And>o1 b. start \<le> o1 \<Longrightarrow> o1 \<le> fin \<Longrightarrow>
      P (CHttp (ota_request c depl dg o1 fin tot (drop (nat (o1 - start)) chunk)), b)"
    and "- (2 ^ 63) \<le> fin" "fin < 2 ^ 63 - 1"
  shows "start \<le> offset \<Longrightarrow> offset \<le> fin \<Longrightarrow> remaining = drop (nat (offset - start)) chunk \<Longrightarrow>
    emits P (putOTAChunk_loop E c depl dg chunk start fin tot n offset remaining)"
proof (induction n arbitrary: offset remaining)
  case 0
  then show ?case by (simp add: emits_return)
next
  case (Suc n)
  have fin: "i64 (fin + 1) = fin + 1" using assms(2,3) by (intro i64_id) auto
  have IH: "emits P (putOTAChunk_loop E c depl dg chunk start fin tot n w (drop (nat (w - start)) chunk))"
    if "offset \<le> w" "w < i64 (fin + 1)" for w
    using that Suc.prems fin by (intro Suc.IH) auto
  have PP: "\<And>b. P (CHttp (ota_request c depl dg offset fin tot remaining), b)"
    using Suc.prems by (auto intro: assms(1))
  show ?case
    unfolding putOTAChunk_loop.simps
    by (intro emits_bind ota_request_doWith PP)
       (auto split: sum.splits prod.splits option.splits chunk_verdict.splits
         intro!: emits_return IH Suc.IH Suc.prems dest!: judge_Resync)
qed

lemma putOTAChunk_emits:
  assumes "\<And>o1 b. start \<le> o1 \<Longrightarrow> o1 \<le> fin \<Longrightarrow>
      P (CHttp (ota_request c depl dg o1 fin tot (drop (nat (o1 - start)) chunk)), b)"
    and "- (2 ^ 63) \<le> fin" "fin < 2 ^ 63 - 1" "start \<le> fin"
  shows "emits P (putOTAChunk E c depl dg chunk start fin tot)"
  unfolding putOTAChunk_def using assms by (intro putOTAChunk_loop_emits) auto

lemma drop_slice:
  assumes "0 \<le> start" "start \<le> o1" "o1 \<le> fin"
  shows "drop (nat (o1 - start)) (slice content start fin) = slice content o1 fin"
proof -
  have "nat (fin - start + 1) - nat (o1 - start) = nat (fin - o1 + 1)"
    "nat start + nat (o1 - start) = nat o1" using assms by auto
  then show ?thesis by (simp add: slice_def drop_take add.commute)
qed

lemma length_slice:
  assumes "0 \<le> o1" "o1 \<le> fin" "nat fin < length content"
  shows "length (slice content o1 fin) = nat (fin - o1 + 1)"
  using assms by (auto simp: slice_def)

text \<open>The chunk that one iteration reads is the slice of the content it announces.\<close>

lemma readFull_chunk:
  assumes "0 \<le> start" "start < tot" "tot < 2 ^ 63 - 65536" "bs_rest fw = drop (nat start) content"
    and "readFull E (nat (chunk_len start tot)) [] fw = ((buf, None), fw')"
  shows "buf = slice content start (chunk_end start tot)"
    and "bs_rest fw' = drop (nat (chunk_end start tot + 1)) content"
    and "nat (chunk_end start tot) < length content"
    and "length buf = nat (chunk_len start tot)"
proof -
  note l = chunk_len_eq [OF assms(1-3)]
  note rf = readFull_full [OF assms(5)]
  show b: "buf = slice content start (chunk_end start tot)"
    using rf l(1) assms(4) by (simp add: slice_def)
  have "nat (chunk_end start tot + 1) = nat start + nat (chunk_len start tot)"
    using l assms(1) by auto
  then show "bs_rest fw' = drop (nat (chunk_end start tot + 1)) content"
    using rf assms(4) by (simp add: add.commute)
  from readFull_content [OF assms(5)] show len: "length buf = nat (chunk_len start tot)" by auto
  then have "nat start + nat (chunk_len start tot) \<le> length content"
    using b l by (auto simp: slice_def min_def split: if_splits)
  then show "nat (chunk_end start tot) < length content"
    using l assms(1) by auto
qed

lemma OTAWrite_loop_emits:
  "0 \<le> start \<Longrightarrow> tot < 2 ^ 63 - 65536 \<Longrightarrow> bs_rest fw = drop (nat start) content \<Longrightarrow>
     emits (\<lambda>(k, _). ota_put c depl dg content tot k) (OTAWrite_loop E c depl dg tot start fw)"
proof (induction E c depl dg tot start fw rule: OTAWrite_loop.induct)
  case (1 E c depl dg tot start fw)
  show ?case
  proof (cases "start < tot")
    case False
    then show ?thesis by (subst OTAWrite_loop.simps) (simp add: emits_return)
  next
    case True
    note l = chunk_len_eq [OF "1.prems"(1) True "1.prems"(2)]
    note e = chunk_end_eq [OF "1.prems"(1) True "1.prems"(2)]
    obtain buf err fw' where r: "readFull E (nat (chunk_len start tot)) [] fw = ((buf, err), fw')"
      by (metis surj_pair)
    have ok: "\<not> (chunk_len start tot < 1 \<or> otaChunkSize < chunk_len start tot)"
      using l by (auto simp: otaChunkSize_def)
    show ?thesis
    proof (cases err)
      case (Some x)
      with True r ok show ?thesis by (subst OTAWrite_loop.simps) (simp add: emits_return)
    next
      case None
      note c = readFull_chunk [OF "1.prems"(1) True "1.prems"(2,3) r [unfolded None]]
      have nx: "i64 (chunk_end start tot + 1) = chunk_end start tot + 1"
        using e "1.prems" True by (intro i64_id) auto
      have put: "emits (\<lambda>(k, _). ota_put c depl dg content tot k)
          (putOTAChunk E c depl dg buf start (chunk_end start tot) tot)"
      proof (rule putOTAChunk_emits)
        fix o1 b assume o1: "start \<le> o1" "o1 \<le> chunk_end start tot"
        show "case (CHttp (ota_request c depl dg o1 (chunk_end start tot) tot (drop (nat (o1 - start)) buf)), b)
          of (k, _) \<Rightarrow> ota_put c depl dg content tot k"
          unfolding ota_put_def prod.case
          by (rule exI [of _ o1], rule exI [of _ "chunk_end start tot"])
            (use o1 "1.prems"(1) True e c(1,3) in \<open>auto simp: drop_slice length_slice\<close>)
      qed (use e l "1.prems" True in auto)
      have nxt: "emits (\<lambda>(k, _). ota_put c depl dg content tot k)
          (OTAWrite_loop E c depl dg tot (i64 (chunk_end start tot + 1)) fw')"
        using "1.prems" c(2) nx e True
        by (intro "1.IH" [OF True ok r [symmetric] refl None]) auto
      from True r None ok put nxt show ?thesis
        by (subst OTAWrite_loop.simps) (auto intro!: emits_intros)
    qed
  qed
qed

section \<open>How many requests\<close>

lemma wp_doWith [wp_simps]:
  "wp (doWith E c st m p body n hs) Q s =
     (case hNewRequest E m (ac_baseURL c @ apiPrefix @ p) of
        Some err \<Rightarrow> Q (Inl err) s
      | None \<Rightarrow> wp (httpDo E (agent_request c st m p body n hs)) Q s)"
  by (simp add: doWith_def wp_simps split: option.splits)

lemma putOTAChunk_loop_count:
  "wp (putOTAChunk_loop E c depl dg chunk start fin tot n offset remaining)
     (\<lambda>_ t. length (calls t) \<le> length (calls s) + n) s"
proof (induction n arbitrary: offset remaining s)
  case 0
  then show ?case by (simp add: wp_simps)
next
  case (Suc n)
  have step: "wp (putOTAChunk_loop E c depl dg chunk start fin tot n o1 rem)
      (\<lambda>_ t. length (calls t) \<le> Suc (length (calls s) + n)) u"
    if "length (calls u) \<le> Suc (length (calls s))" for o1 rem and u :: "'a sys"
    using that by (intro wp_conseq [OF Suc.IH [of o1 rem u]]) auto
  show ?case
    by (auto simp: wp_simps intro!: step
        split: option.splits sum.splits prod.splits chunk_verdict.splits)
qed

lemma OTAWrite_loop_count:
  "0 \<le> start \<Longrightarrow> tot < 2 ^ 63 - 65536 \<Longrightarrow>
     wp (OTAWrite_loop E c depl dg tot start fw)
       (\<lambda>_ t. int (length (calls t)) \<le> int (length (calls s)) + 3 * ((max 0 (tot - start) + 65535) div 65536)) s"
proof (induction E c depl dg tot start fw arbitrary: s rule: OTAWrite_loop.induct)
  case (1 E c depl dg tot start fw)
  show ?case
  proof (cases "start < tot")
    case False
    then show ?thesis by (subst OTAWrite_loop.simps) (simp add: wp_simps)
  next
    case True
    note l = chunk_len_eq [OF "1.prems"(1) True "1.prems"(2)]
    note e = chunk_end_eq [OF "1.prems"(1) True "1.prems"(2)]
    obtain buf err fw' where r: "readFull E (nat (chunk_len start tot)) [] fw = ((buf, err), fw')"
      by (metis surj_pair)
    have ok: "\<not> (chunk_len start tot < 1 \<or> otaChunkSize < chunk_len start tot)"
      using l by (auto simp: otaChunkSize_def)
    show ?thesis
    proof (cases err)
      case (Some x)
      with True r ok show ?thesis by (subst OTAWrite_loop.simps) (simp add: wp_simps)
    next
      case None
      let ?nx = "chunk_end start tot + 1"
      have nx: "i64 ?nx = ?nx" using e "1.prems" True by (intro i64_id) auto
      have bound: "3 * ((max 0 (tot - ?nx) + 65535) div 65536) + 3 \<le> 3 * ((max 0 (tot - start) + 65535) div 65536)"
      proof -
        have "tot - start + 65535 = (tot - start - 1) + 65536" by simp
        then have "(tot - start + 65535) div 65536 = (tot - start - 1) div 65536 + 1"
          by (metis div_add_self2 zero_neq_numeral)
        moreover have "(max 0 (tot - ?nx) + 65535) div 65536 \<le> (tot - start - 1) div 65536"
        proof (cases "start + 65535 < tot")
          case True
          then show ?thesis using e by (intro zdiv_mono1) (auto simp: min_def max_def)
        next
          case False
          then show ?thesis using e \<open>start < tot\<close> by (simp add: min_def)
        qed
        ultimately show ?thesis using True by (simp add: max_def)
      qed
      define B where "B = (max 0 (tot - start) + 65535) div 65536"
      have boundB: "3 * ((max 0 (tot - ?nx) + 65535) div 65536) + 3 \<le> 3 * B"
        unfolding B_def by (rule bound)
      have pos: "0 \<le> (max 0 (tot - ?nx) + 65535) div 65536"
        by (intro pos_imp_zdiv_nonneg_iff [THEN iffD2]) auto
      have rest: "wp (OTAWrite_loop E c depl dg tot ?nx fw')
          (\<lambda>_ t. int (length (calls t)) \<le> int (length (calls s)) + 3 * B) u"
        if "length (calls u) \<le> length (calls s) + 3" for u :: "'a sys"
      proof (rule wp_conseq [OF "1.IH" [OF True ok r [symmetric] refl None, unfolded nx, of u]])
        show "0 \<le> ?nx" using e "1.prems"(1) True by (simp add: min_def)
        show "tot < 2 ^ 63 - 65536" by (rule "1.prems"(2))
      qed (use that boundB in linarith)
      have put: "wp (putOTAChunk E c depl dg buf start (chunk_end start tot) tot)
          (\<lambda>_ t. length (calls t) \<le> length (calls s) + 3) s"
        unfolding putOTAChunk_def otaChunkMaxAttempts_def by (rule putOTAChunk_loop_count)
      show ?thesis
        unfolding B_def [symmetric]
        using True r None ok
        by (subst OTAWrite_loop.simps)
          (use boundB pos in \<open>auto simp: wp_simps nx B_def [symmetric] simp del: max_def
             intro!: wp_conseq [OF put] rest split: option.splits\<close>)
    qed
  qed
qed

section \<open>What the device holds\<close>

text \<open>
  The contract of \<open>PUT /ota/write\<close> (\<open>docs/core/agent-api.md\<close>), over the bytes the device has stored
  so far: a range that starts at 0 opens a new session, one that starts where the stored bytes end
  continues it, any other is refused with status 416 and the number of stored bytes. A request whose
  answer is lost or an error may have been applied in part. Only a range that was applied in full is
  answered 200 with \<open>written\<close> or \<open>partial\<close>.
\<close>

definition range_accepted :: "'w ext \<Rightarrow> gerr + http_response \<Rightarrow> bool" where
  "range_accepted E r \<longleftrightarrow>
     (\<exists>rs raw st er. r = Inr rs \<and> rs_StatusCode rs = 200 \<and> readAll (rs_Body rs) = (raw, None) \<and>
        jWriteResult E raw = Inr (st, er) \<and> (st = ''written'' \<or> st = ''partial''))"

definition aligned :: "int \<Rightarrow> string \<Rightarrow> bool" where
  "aligned o1 held \<longleftrightarrow> o1 = 0 \<or> nat o1 = length held"

definition device_law ::
  "'w ext \<Rightarrow> agent_client \<Rightarrow> string \<Rightarrow> string \<Rightarrow> int \<Rightarrow> ('w \<Rightarrow> string) \<Rightarrow> bool" where
  "device_law E c depl dg tot stored \<longleftrightarrow>
     (\<forall>o1 fin bytes w r w'. 0 \<le> o1 \<longrightarrow> o1 \<le> fin \<longrightarrow> fin < tot \<longrightarrow>
        hDo E (ota_request c depl dg o1 fin tot bytes) w = (r, w') \<longrightarrow>
        (stored w' = stored w \<or>
           aligned o1 (stored w) \<and> (\<exists>k. stored w' = take (nat o1) (stored w) @ take k bytes)) \<and>
        (range_accepted E r \<longrightarrow>
           aligned o1 (stored w) \<and> stored w' = take (nat o1) (stored w) @ bytes) \<and>
        (\<forall>rs raw. r = Inr rs \<longrightarrow> rs_StatusCode rs = 416 \<longrightarrow> readAll (rs_Body rs) = (raw, None) \<longrightarrow>
           \<not> aligned o1 (stored w) \<and> stored w' = stored w \<and> jWritten E raw = int (length (stored w))))"

text \<open>Where a transfer stands: a new session is about to start, or a prefix of the content is stored.\<close>

definition resumable :: "string \<Rightarrow> int \<Rightarrow> int \<Rightarrow> string \<Rightarrow> bool" where
  "resumable content offset fin held \<longleftrightarrow>
     offset = 0 \<or> (\<exists>m. offset \<le> int m \<and> int m \<le> fin + 1 \<and> held = take m content)"

lemma take_slice:
  assumes "0 \<le> o1" "o1 \<le> fin" "nat fin < length content"
  shows "take (nat o1) content @ take k (slice content o1 fin) = take (nat o1 + min k (nat (fin - o1 + 1))) content"
proof -
  have "take k (slice content o1 fin) = take (min k (nat (fin - o1 + 1))) (drop (nat o1) content)"
    by (simp add: slice_def min.commute)
  then show ?thesis by (simp add: take_add)
qed

lemma resumable_step:
  assumes "0 \<le> o1" "o1 \<le> fin" "nat fin < length content" "resumable content o1 fin held"
    and "held' = held \<or> aligned o1 held \<and> (\<exists>k. held' = take (nat o1) held @ take k (slice content o1 fin))"
  shows "resumable content o1 fin held'"
  using assms(5)
proof (elim disjE conjE exE)
  fix k assume a: "aligned o1 held" and h: "held' = take (nat o1) held @ take k (slice content o1 fin)"
  show ?thesis
  proof (cases "o1 = 0")
    case False
    with assms(4) obtain m where m: "o1 \<le> int m" "int m \<le> fin + 1" "held = take m content"
      by (auto simp: resumable_def)
    then have "nat o1 \<le> m" using assms(1) by linarith
    then have "take (nat o1) held = take (nat o1) content" using m(3) by (simp add: min_absorb1)
    then have "held' = take (nat o1 + min k (nat (fin - o1 + 1))) content"
      using h take_slice [OF assms(1-3)] by simp
    then show ?thesis using assms(1,2) by (auto simp: resumable_def intro!: exI)
  qed (simp add: resumable_def)
qed (use assms(4) in simp)

lemma accepted_prefix:
  assumes "0 \<le> o1" "o1 \<le> fin" "nat fin < length content" "resumable content o1 fin held"
    and "held' = take (nat o1) held @ slice content o1 fin"
  shows "held' = take (nat (fin + 1)) content"
proof -
  have "take (nat o1) held = take (nat o1) content"
    using assms(1,4) by (auto simp: resumable_def min_absorb1 nat_le_iff)
  moreover have "nat o1 + nat (fin - o1 + 1) = nat (fin + 1)" using assms(1,2) by simp
  ultimately show ?thesis
    using assms(5) take_slice [OF assms(1-3), of "nat (fin - o1 + 1)"] by (simp add: slice_def)
qed

lemma device_law_step:
  assumes "device_law E c depl dg tot stored" "0 \<le> o1" "o1 \<le> fin" "fin < tot"
    and "nat fin < length content" "resumable content o1 fin (stored w)"
    and "hDo E (ota_request c depl dg o1 fin tot (slice content o1 fin)) w = (r, w')"
  shows "resumable content o1 fin (stored w')"
    and "range_accepted E r \<Longrightarrow> stored w' = take (nat (fin + 1)) content"
    and "r = Inr rs \<Longrightarrow> rs_StatusCode rs = 416 \<Longrightarrow> readAll (rs_Body rs) = (raw, None) \<Longrightarrow>
      jWritten E raw = z \<Longrightarrow> o1 \<le> z \<and> z \<le> fin + 1 \<and> stored w' = take (nat z) content"
proof -
  note law = assms(1) [unfolded device_law_def, rule_format, OF assms(2-4,7)]
  show "resumable content o1 fin (stored w')"
    using law by (intro resumable_step [OF assms(2,3,5,6)]) blast
  show "stored w' = take (nat (fin + 1)) content" if "range_accepted E r"
    using law that by (intro accepted_prefix [OF assms(2,3,5,6)]) blast
  show "o1 \<le> z \<and> z \<le> fin + 1 \<and> stored w' = take (nat z) content"
    if "r = Inr rs" "rs_StatusCode rs = 416" "readAll (rs_Body rs) = (raw, None)" "jWritten E raw = z"
  proof -
    from law that have n: "\<not> aligned o1 (stored w)" "stored w' = stored w" "z = int (length (stored w))"
      by blast+
    with assms(6) obtain m where m: "o1 \<le> int m" "int m \<le> fin + 1" "stored w = take m content"
      by (auto simp: resumable_def aligned_def)
    then have "length (stored w) = m" using assms(5) by simp
    with n m show ?thesis by simp
  qed
qed

lemma putOTAChunk_loop_stores:
  assumes "device_law E c depl dg tot stored" "0 \<le> start" "fin < tot" "tot < 2 ^ 63"
    and "nat fin < length content" "chunk = slice content start fin"
  shows "start \<le> offset \<Longrightarrow> offset \<le> fin \<Longrightarrow> remaining = slice content offset fin \<Longrightarrow>
    resumable content offset fin (stored (world s)) \<Longrightarrow>
    wp (putOTAChunk_loop E c depl dg chunk start fin tot n offset remaining)
      (\<lambda>r t. r = None \<longrightarrow> stored (world t) = take (nat (fin + 1)) content) s"
proof (induction n arbitrary: offset remaining s)
  case 0
  then show ?case by (simp add: wp_simps)
next
  case (Suc n)
  let ?rq = "ota_request c depl dg offset fin tot remaining"
  have fin: "i64 (fin + 1) = fin + 1" using Suc.prems assms(2-4) by (intro i64_id) auto
  have o1: "0 \<le> offset" using Suc.prems assms(2) by simp
  note step = device_law_step [OF assms(1) o1 Suc.prems(2) assms(3,5) Suc.prems(4), folded Suc.prems(3)]
  have again: "wp (putOTAChunk_loop E c depl dg chunk start fin tot n offset remaining)
      (\<lambda>r t. r = None \<longrightarrow> stored (world t) = take (nat (fin + 1)) content)
      (s\<lparr>world := w', calls := cs\<rparr>)" if "hDo E ?rq (world s) = (r, w')" for r w' cs
    using Suc.prems step(1) [OF that] by (intro Suc.IH) auto
  have stay: "wp (putOTAChunk_loop E c depl dg chunk start fin tot n offset remaining)
      (\<lambda>r t. r = None \<longrightarrow> stored (world t) = take (nat (fin + 1)) content) s"
    using Suc.prems by (intro Suc.IH) auto
  have resync: "wp (putOTAChunk_loop E c depl dg chunk start fin tot n z (drop (nat (z - start)) chunk))
      (\<lambda>r t. r = None \<longrightarrow> stored (world t) = take (nat (fin + 1)) content)
      (s\<lparr>world := w', calls := cs\<rparr>)"
    if h: "hDo E ?rq (world s) = (Inr rs, w')" and j: "judge_response E (rs_StatusCode rs) offset fin raw = Resync z"
      and ra: "readAll (rs_Body rs) = (raw, None)" for rs w' cs raw z
  proof -
    from judge_Resync [OF j] have z: "rs_StatusCode rs = 416" "z = jWritten E raw" "offset \<le> z" "z < i64 (fin + 1)"
      by auto
    from step(3) [OF h refl z(1) ra z(2) [symmetric]]
    have "resumable content z fin (stored w')"
      using o1 by (auto simp: resumable_def intro!: exI [of _ "nat z"])
    with z Suc.prems(1) fin assms(2,6) show ?thesis
      by (intro Suc.IH) (auto simp: drop_slice)
  qed
  have okay: "stored w' = take (nat (fin + 1)) content"
    if h: "hDo E ?rq (world s) = (Inr rs, w')" and j: "judge_response E (rs_StatusCode rs) offset fin raw = Confirmed"
      and ra: "readAll (rs_Body rs) = (raw, None)" for rs w' raw
    using judge_Confirmed [OF j] step(2) [OF h] step(3) [OF h refl _ ra refl] ra fin
    by (auto simp: range_accepted_def)
  show ?case
    by (auto simp: wp_simps ota_request_def [symmetric] intro: again stay resync okay
        split: option.splits sum.splits prod.splits chunk_verdict.splits)
qed

lemma OTAWrite_loop_stores:
  "device_law E c depl dg tot stored \<Longrightarrow> 0 \<le> start \<Longrightarrow> start \<le> tot \<Longrightarrow> 0 < tot \<Longrightarrow> tot < 2 ^ 63 - 65536 \<Longrightarrow>
     bs_rest fw = drop (nat start) content \<Longrightarrow>
     start = 0 \<or> stored (world s) = take (nat start) content \<Longrightarrow>
     wp (OTAWrite_loop E c depl dg tot start fw)
       (\<lambda>r t. fst r = None \<longrightarrow> stored (world t) = take (nat tot) content) s"
proof (induction E c depl dg tot start fw arbitrary: s rule: OTAWrite_loop.induct)
  case (1 E c depl dg tot start fw)
  show ?case
  proof (cases "start < tot")
    case False
    with "1.prems" show ?thesis by (subst OTAWrite_loop.simps) (auto simp: wp_simps)
  next
    case True
    note l = chunk_len_eq [OF "1.prems"(2) True "1.prems"(5)]
    note e = chunk_end_eq [OF "1.prems"(2) True "1.prems"(5)]
    obtain buf err fw' where r: "readFull E (nat (chunk_len start tot)) [] fw = ((buf, err), fw')"
      by (metis surj_pair)
    have ok: "\<not> (chunk_len start tot < 1 \<or> otaChunkSize < chunk_len start tot)"
      using l by (auto simp: otaChunkSize_def)
    show ?thesis
    proof (cases err)
      case (Some x)
      with True r ok show ?thesis by (subst OTAWrite_loop.simps) (simp add: wp_simps)
    next
      case None
      let ?nx = "chunk_end start tot + 1"
      note c = readFull_chunk [OF "1.prems"(2) True "1.prems"(5,6) r [unfolded None]]
      have nx: "i64 ?nx = ?nx" using e "1.prems" True by (intro i64_id) auto
      have bounds: "start \<le> chunk_end start tot" "chunk_end start tot < tot" using e True by auto
      have put: "wp (putOTAChunk E c depl dg buf start (chunk_end start tot) tot)
          (\<lambda>r t. r = None \<longrightarrow> stored (world t) = take (nat ?nx) content) s"
        unfolding putOTAChunk_def
        using bounds "1.prems" c(1,3)
        by (intro putOTAChunk_loop_stores) (auto simp: resumable_def intro!: exI [of _ "nat start"])
      have rest: "wp (OTAWrite_loop E c depl dg tot ?nx fw')
          (\<lambda>r t. fst r = None \<longrightarrow> stored (world t) = take (nat tot) content) u"
        if "stored (world u) = take (nat ?nx) content" for u
        using that bounds "1.prems" c(2)
        by (intro "1.IH" [OF True ok r [symmetric] refl None, unfolded nx]) auto
      show ?thesis
        using True r None ok
        by (subst OTAWrite_loop.simps)
          (auto simp: wp_simps nx intro!: wp_conseq [OF put] rest split: option.splits)
    qed
  qed
qed

section \<open>What the blob stream has seen\<close>

text \<open>
  After a transfer without error, the stream has delivered exactly the announced bytes, and keeps
  every property that a filled buffer keeps.
\<close>

lemma OTAWrite_loop_stream:
  assumes "\<And>want b out b'. readFull E want [] b = ((out, None), b') \<Longrightarrow> I b \<Longrightarrow> I b'"
  shows "0 \<le> start \<Longrightarrow> start \<le> tot \<Longrightarrow> tot < 2 ^ 63 - 65536 \<Longrightarrow>
     bs_rest fw = drop (nat start) content \<Longrightarrow> nat start \<le> length content \<Longrightarrow> I fw \<Longrightarrow>
     wp (OTAWrite_loop E c depl dg tot start fw)
       (\<lambda>r t. fst r = None \<longrightarrow> I (snd r) \<and> bs_rest (snd r) = drop (nat tot) content \<and>
          nat tot \<le> length content) s"
  using assms
proof (induction E c depl dg tot start fw arbitrary: s rule: OTAWrite_loop.induct)
  case (1 E c depl dg tot start fw)
  show ?case
  proof (cases "start < tot")
    case False
    with "1.prems" show ?thesis by (subst OTAWrite_loop.simps) (auto simp: wp_simps)
  next
    case True
    note l = chunk_len_eq [OF "1.prems"(1) True "1.prems"(3)]
    note e = chunk_end_eq [OF "1.prems"(1) True "1.prems"(3)]
    obtain buf err fw' where r: "readFull E (nat (chunk_len start tot)) [] fw = ((buf, err), fw')"
      by (metis surj_pair)
    have ok: "\<not> (chunk_len start tot < 1 \<or> otaChunkSize < chunk_len start tot)"
      using l by (auto simp: otaChunkSize_def)
    show ?thesis
    proof (cases err)
      case (Some x)
      with True r ok show ?thesis by (subst OTAWrite_loop.simps) (simp add: wp_simps)
    next
      case None
      let ?nx = "chunk_end start tot + 1"
      note c = readFull_chunk [OF "1.prems"(1) True "1.prems"(3,4) r [unfolded None]]
      have nx: "i64 ?nx = ?nx" using e "1.prems" True by (intro i64_id) auto
      have I: "I fw'" using "1.prems"(6,7) r None by blast
      have rest: "wp (OTAWrite_loop E c depl dg tot ?nx fw')
          (\<lambda>r t. fst r = None \<longrightarrow> I (snd r) \<and> bs_rest (snd r) = drop (nat tot) content \<and>
             nat tot \<le> length content) u" for u
      proof (rule "1.IH" [OF True ok r [symmetric] refl None, unfolded nx])
        show "nat ?nx \<le> length content" using c(3) by linarith
        show "0 \<le> ?nx" "?nx \<le> tot" using e True "1.prems"(1) by auto
      qed (fact "1.prems" c(2) I)+
      have put: "wp (putOTAChunk E c depl dg buf start (chunk_end start tot) tot) (\<lambda>r t. True) u" for u
        by simp
      show ?thesis
        using True r None ok
        by (subst OTAWrite_loop.simps)
          (auto simp: wp_simps nx intro!: wp_conseq [OF put] rest split: option.splits)
    qed
  qed
qed

text \<open>
  A body whose last bytes come together with its end (\<open>hb_eager\<close>): once everything has been read the
  digest has been compared.
\<close>

definition digest_checked :: "'w ext \<Rightarrow> blob_stream \<Rightarrow> bool" where
  "digest_checked E b \<longleftrightarrow>
     hb_eager (bs_body b) \<and> hb_end (bs_body b) = REOF \<and> list_all (\<lambda>x. x \<noteq> []) (hb_segs (bs_body b)) \<and>
     (hb_segs (bs_body b) = [] \<longrightarrow>
        ''sha256:'' @ xSHA256Hex E (bs_hashed b) = bs_wantDigest b \<or> bs_mismatch b \<noteq> None)"

lemma body_read_segs:
  "body_read n b = (r, b') \<Longrightarrow> list_all (\<lambda>x. x \<noteq> []) (hb_segs b) \<Longrightarrow> list_all (\<lambda>x. x \<noteq> []) (hb_segs b')"
  by (cases "hb_segs b") (auto simp: body_read_def Let_def split: if_splits)

lemma body_read_eager:
  "body_read n b = ((out, e), b') \<Longrightarrow> hb_eager b \<Longrightarrow> hb_segs b' = [] \<Longrightarrow> e = Some (hb_end b)"
  by (auto simp: body_read_def Let_def split: list.splits if_splits)

lemma blob_Read_digest_checked:
  assumes "blob_Read E n b = (r, b')" "digest_checked E b"
  shows "digest_checked E b'"
proof -
  obtain out e where r: "r = (out, e)" by (cases r)
  note body = bs_body_blob_Read [OF assms(1)]
  note f = blob_Read_facts [OF assms(1) [unfolded r]]
  have "hb_segs (bs_body b') = [] \<Longrightarrow> e = Some REOF"
    using body_read_eager [OF body [unfolded r]] assms(2) by (auto simp: digest_checked_def)
  then show ?thesis
    using assms(2) body_read_frame [OF body] body_read_segs [OF body] f(3) f(8)
    by (auto simp: digest_checked_def)
qed

lemma OTAWrite_detects:
  assumes "run_state (OTAWrite E c depl dg tot fw) s = ((None, fw'), t)"
    and "0 \<le> tot" "tot < 2 ^ 63 - 65536" "nat tot = length content" "content \<noteq> []"
    and "blob_inv E content fw" "bs_hashed fw = []" "bs_wantDigest fw = dg'"
    and "hb_eager (bs_body fw)" "hb_end (bs_body fw) = REOF"
    and "list_all (\<lambda>x. x \<noteq> []) (hb_segs (bs_body fw))"
  shows "blob_Err fw' = None \<longleftrightarrow> ''sha256:'' @ xSHA256Hex E content = dg'"
proof -
  let ?I = "\<lambda>b. digest_checked E b \<and> blob_inv E content b \<and> bs_wantDigest b = dg'"
  have rest: "bs_rest fw = content" using assms(6,7) by (simp add: blob_inv_def)
  then have "hb_segs (bs_body fw) \<noteq> []" using assms(5) by (auto simp: bs_rest_def body_content_def)
  then have I: "?I fw" using assms by (simp add: digest_checked_def)
  have pres: "?I b'" if "readFull E want [] b = ((out, None), b')" "?I b" for want b out b'
  proof -
    have "digest_checked E (snd (readFull E want [] b))"
      using that(2) by (rule conjunct1 [THEN readFull_preserves [where I = "digest_checked E"]])
        (rule blob_Read_digest_checked)
    then show ?thesis
      using readFull_inv [of E content b want "[]"] readFull_wantDigest [of E want "[]" b] that by simp
  qed
  have "wp (OTAWrite E c depl dg tot fw) (\<lambda>r t. fst r = None \<longrightarrow>
      ?I (snd r) \<and> bs_rest (snd r) = drop (nat tot) content \<and> nat tot \<le> length content) s"
    unfolding OTAWrite_def
    by (rule OTAWrite_loop_stream [where I = ?I, OF pres order_refl assms(2,3) _ _ I])
      (assumption | simp add: rest)+
  from wpD [OF this assms(1)] have f: "?I fw'" "bs_rest fw' = []" using assms(4) by auto
  then have "hb_segs (bs_body fw') = []"
    by (cases "hb_segs (bs_body fw')") (auto simp: digest_checked_def bs_rest_def body_content_def)
  with f show ?thesis by (auto simp: digest_checked_def blob_inv_def blob_Err_def)
qed

text \<open>A body whose end is only reported by one more read: that read never happens.\<close>

lemma readFull_quiet:
  assumes "want \<le> length acc + length (bs_rest b)" "\<not> hb_eager (bs_body b)" "bs_mismatch b = None"
  shows "bs_mismatch (snd (readFull E want acc b)) = None \<and> \<not> hb_eager (bs_body (snd (readFull E want acc b)))"
  using assms
proof (induction E want acc b rule: readFull.induct)
  case (1 E want acc b)
  show ?case
  proof (cases "want \<le> length acc")
    case True
    with "1.prems" show ?thesis by (subst (1 2) readFull.simps) simp
  next
    case False
    obtain out e b' where r: "blob_Read E (want - length acc) b = ((out, e), b')"
      by (metis surj_pair)
    note body = bs_body_blob_Read [OF r]
    have "hb_segs (bs_body b) \<noteq> []"
      using False "1.prems"(1) by (auto simp: bs_rest_def body_content_def)
    then obtain seg rest where "hb_segs (bs_body b) = seg # rest" by (cases "hb_segs (bs_body b)") auto
    then have e: "e = None"
      using body "1.prems"(2) by (simp add: body_read_def Let_def)
    have "bs_mismatch b' = None" using blob_Read_facts(7) [OF r] e "1.prems"(3) by auto
    moreover have "\<not> hb_eager (bs_body b')" using body_read_frame [OF body] "1.prems"(2) by simp
    moreover have "want \<le> length (acc @ out) + length (bs_rest b')"
      using "1.prems"(1) blob_Read_facts(2) [OF r] by simp
    ultimately have "bs_mismatch (snd (readFull E want (acc @ out) b')) = None \<and>
        \<not> hb_eager (bs_body (snd (readFull E want (acc @ out) b')))"
      by (intro "1.IH" [OF False r [symmetric] refl e])
    with False r e show ?thesis by (subst (1 2) readFull.simps) simp
  qed
qed

lemma OTAWrite_unchecked:
  assumes "run_state (OTAWrite E c depl dg tot fw) s = ((None, fw'), t)"
    and "0 \<le> tot" "tot < 2 ^ 63 - 65536"
    and "bs_mismatch fw = None" "\<not> hb_eager (bs_body fw)"
  shows "blob_Err fw' = None"
proof -
  let ?I = "\<lambda>b. \<not> hb_eager (bs_body b) \<and> bs_mismatch b = None"
  have pres: "?I b'" if "readFull E want [] b = ((out, None), b')" "?I b" for want b out b'
    using readFull_quiet [of want "[]" b E] readFull_content [OF that(1)] that by auto
  have "wp (OTAWrite E c depl dg tot fw) (\<lambda>r t. fst r = None \<longrightarrow>
      ?I (snd r) \<and> bs_rest (snd r) = drop (nat tot) (bs_rest fw) \<and> nat tot \<le> length (bs_rest fw)) s"
    unfolding OTAWrite_def
    by (rule OTAWrite_loop_stream [where I = ?I, OF pres order_refl assms(2,3)])
      (assumption | simp add: assms)+
  from wpD [OF this assms(1)] show ?thesis by (simp add: blob_Err_def)
qed

section \<open>Progress\<close>

text \<open>
  A device that answers every range it can place, one that opens a session or continues the stored bytes,
  and does not lose it.
\<close>

definition accepts_aligned ::
  "'w ext \<Rightarrow> agent_client \<Rightarrow> string \<Rightarrow> string \<Rightarrow> int \<Rightarrow> ('w \<Rightarrow> string) \<Rightarrow> bool" where
  "accepts_aligned E c depl dg tot stored \<longleftrightarrow>
     hNewRequest E ''PUT'' (ac_baseURL c @ apiPrefix @ ''/ota/write'') = None \<and>
     (\<forall>o1 fin bytes w. 0 \<le> o1 \<longrightarrow> o1 \<le> fin \<longrightarrow> fin < tot \<longrightarrow> aligned o1 (stored w) \<longrightarrow>
        range_accepted E (fst (hDo E (ota_request c depl dg o1 fin tot bytes) w)))"

lemma putOTAChunk_live:
  assumes "device_law E c depl dg tot stored" "accepts_aligned E c depl dg tot stored"
    and "0 \<le> start" "start \<le> fin" "fin < tot" "aligned start (stored (world s))"
  shows "wp (putOTAChunk E c depl dg chunk start fin tot)
    (\<lambda>r t. r = None \<and> stored (world t) = take (nat start) (stored (world s)) @ chunk) s"
proof -
  have acc: "range_accepted E (fst (hDo E (ota_request c depl dg start fin tot chunk) (world s)))"
    using assms(2-6) by (simp add: accepts_aligned_def)
  obtain rs w raw st er where h: "hDo E (ota_request c depl dg start fin tot chunk) (world s) = (Inr rs, w)"
      "rs_StatusCode rs = 200" "readAll (rs_Body rs) = (raw, None)" "jWriteResult E raw = Inr (st, er)"
      "st = ''written'' \<or> st = ''partial''"
    using acc unfolding range_accepted_def by (metis prod.collapse)
  moreover have "hNewRequest E ''PUT'' (ac_baseURL c @ apiPrefix @ ''/ota/write'') = None"
    using assms(2) by (simp add: accepts_aligned_def)
  moreover have "stored w = take (nat start) (stored (world s)) @ chunk"
    using assms(1,3-5) h(1) acc unfolding device_law_def by auto
  ultimately show ?thesis
    by (auto simp: putOTAChunk_def otaChunkMaxAttempts_def numeral_3_eq_3 wp_simps
        ota_request_def [symmetric] judge_response_def)
qed

lemma OTAWrite_loop_live:
  "device_law E c depl dg tot stored \<Longrightarrow> accepts_aligned E c depl dg tot stored \<Longrightarrow>
     0 \<le> start \<Longrightarrow> tot < 2 ^ 63 - 65536 \<Longrightarrow> bs_rest fw = drop (nat start) content \<Longrightarrow> nat tot \<le> length content \<Longrightarrow>
     start = 0 \<or> stored (world s) = take (nat start) content \<Longrightarrow>
     wp (OTAWrite_loop E c depl dg tot start fw) (\<lambda>r t. fst r = None) s"
proof (induction E c depl dg tot start fw arbitrary: s rule: OTAWrite_loop.induct)
  case (1 E c depl dg tot start fw)
  show ?case
  proof (cases "start < tot")
    case False
    then show ?thesis by (subst OTAWrite_loop.simps) (simp add: wp_simps)
  next
    case True
    note l = chunk_len_eq [OF "1.prems"(3) True "1.prems"(4)]
    note e = chunk_end_eq [OF "1.prems"(3) True "1.prems"(4)]
    let ?nx = "chunk_end start tot + 1"
    have nx: "i64 ?nx = ?nx" using e "1.prems" True by (intro i64_id) auto
    have "tot - start \<le> int (length (bs_rest fw))" using "1.prems"(3,5,6) by simp
    then have len: "nat (chunk_len start tot) \<le> length (bs_rest fw)" using l e True by auto
    from readFull_enough [OF len, of E] obtain buf fw' where
      r: "readFull E (nat (chunk_len start tot)) [] fw = ((buf, None), fw')" by blast
    have ok: "\<not> (chunk_len start tot < 1 \<or> otaChunkSize < chunk_len start tot)"
      using l by (auto simp: otaChunkSize_def)
    note c = readFull_chunk [OF "1.prems"(3) True "1.prems"(4,5) r]
    have bounds: "start \<le> chunk_end start tot" "chunk_end start tot < tot" using e True by auto
    have al: "aligned start (stored (world s))" using "1.prems"(3,6,7) True by (auto simp: aligned_def)
    have put: "wp (putOTAChunk E c depl dg buf start (chunk_end start tot) tot)
        (\<lambda>r t. r = None \<and> stored (world t) = take (nat ?nx) content) s"
    proof (rule wp_conseq [OF putOTAChunk_live [OF "1.prems"(1-3) bounds al]], elim conjE, intro conjI)
      fix t :: "'a sys" assume t: "stored (world t) = take (nat start) (stored (world s)) @ buf"
      show "stored (world t) = take (nat ?nx) content"
        by (rule accepted_prefix [OF "1.prems"(3) bounds(1) c(3) _ t [unfolded c(1)]])
          (use "1.prems"(3,7) bounds in \<open>auto simp: resumable_def intro!: exI [of _ "nat start"]\<close>)
    qed simp
    have rec: "wp (OTAWrite_loop E c depl dg tot ?nx fw') (\<lambda>r t. fst r = None) u"
      if "stored (world u) = take (nat ?nx) content" for u
      using that bounds "1.prems" c(2)
      by (intro "1.IH" [OF True ok r [symmetric] refl refl, unfolded nx]) auto
    show ?thesis
      using True r ok
      by (subst OTAWrite_loop.simps)
        (auto simp: wp_simps nx intro!: wp_conseq [OF put] rec)
  qed
qed

text \<open>What the requests of a transfer leave alone stays as it was.\<close>

lemma putOTAChunk_loop_keeps:
  assumes "\<And>o1 fin bytes w. J w \<Longrightarrow> J (snd (hDo E (ota_request c depl dg o1 fin tot bytes) w))"
  shows "J (world s) \<Longrightarrow> wp (putOTAChunk_loop E c depl dg chunk start fin tot n offset remaining) (\<lambda>_ t. J (world t)) s"
proof (induction n arbitrary: offset remaining s)
  case (Suc n)
  have "J w'" if "hDo E (ota_request c depl dg offset fin tot remaining) (world s) = (r, w')" for r w'
    using assms [OF Suc.prems, of offset fin remaining] that by simp
  then show ?case
    using Suc.prems
    by (auto simp: wp_simps ota_request_def [symmetric] intro!: Suc.IH
        split: option.splits sum.splits prod.splits chunk_verdict.splits)
qed (simp add: wp_simps)

lemma OTAWrite_loop_keeps:
  "(\<And>o1 fin bytes w. J w \<Longrightarrow> J (snd (hDo E (ota_request c depl dg o1 fin tot bytes) w))) \<Longrightarrow>
     J (world s) \<Longrightarrow> wp (OTAWrite_loop E c depl dg tot start fw) (\<lambda>_ t. J (world t)) s"
proof (induction E c depl dg tot start fw arbitrary: s rule: OTAWrite_loop.induct)
  case (1 E c depl dg tot start fw)
  have put: "wp (putOTAChunk E c depl dg buf start fin tot) (\<lambda>_ t. J (world t)) s" for buf fin
    unfolding putOTAChunk_def by (rule putOTAChunk_loop_keeps [OF "1.prems"])
  show ?case
    by (subst OTAWrite_loop.simps)
      (auto simp: wp_simps "1.prems"(2) intro!: wp_conseq [OF put] "1.IH" "1.prems"(1) split: option.splits prod.splits)
qed

text \<open>A size that is not positive: nothing is sent and the result is no error.\<close>

lemma OTAWrite_empty: "tot \<le> 0 \<Longrightarrow> run_state (OTAWrite E c depl dg tot fw) s = ((None, fw), s)"
  unfolding OTAWrite_def by (subst OTAWrite_loop.simps) simp

end
