(* ===== verification/TestBed.thy ===== *)
theory TestBed
  imports World
begin

text \<open>
  A concrete environment for the examples that accompany the properties: every Kubernetes call fails
  and no request goes out until an example says otherwise by a record update; conditions, finalizers
  and retries behave as the libraries document.
\<close>

section \<open>Library functions\<close>

definition bed_set_condition :: "condition list \<Rightarrow> condition \<Rightarrow> condition list" where
  "bed_set_condition cs c =
     (if \<exists>x \<in> set cs. c_Type x = c_Type c
      then map (\<lambda>x. if c_Type x = c_Type c then c else x) cs else cs @ [c])"

definition bed_find_condition :: "condition list \<Rightarrow> string \<Rightarrow> condition option" where
  "bed_find_condition cs t = find (\<lambda>x. c_Type x = t) cs"

fun bed_retry :: "nat \<Rightarrow> ('s \<Rightarrow> (gerr + 'a) \<times> 's) \<Rightarrow> 's \<Rightarrow> (gerr + 'a) \<times> 's" where
  "bed_retry 0 fn s = fn s"
| "bed_retry (Suc n) fn s =
     (case fn s of
        (Inl e, t) \<Rightarrow> if is_conflict e then bed_retry n fn t else (Inl e, t)
      | (Inr x, t) \<Rightarrow> (Inr x, t))"

abbreviation down :: "'w \<Rightarrow> (gerr + 'a) \<times> 'w" where
  "down w \<equiv> (Inl (ApiOther ''unavailable''), w)"

abbreviation undecodable :: "gerr + 'a" where
  "undecodable \<equiv> Inl (DecodeErr ''invalid'')"

definition bedE :: "'w ext" where
  "bedE = \<lparr>
     kGetNode = (\<lambda>_. down), kGetDeployment = (\<lambda>_. down), kGetConfigMap = (\<lambda>_. down),
     kGetSecret = (\<lambda>_. down), kGetService = (\<lambda>_. down), kGetSlice = (\<lambda>_. down),
     kListNodes = (\<lambda>_. down), kListDeployments = (\<lambda>_. down),
     kPatchDeployment = (\<lambda>_ d w. (Inr d, w)), kPatchDeploymentStatus = (\<lambda>_ d w. (Inr d, w)),
     kPatchNodeStatus = (\<lambda>_ _ n w. (Inr n, w)), kPatchSecret = (\<lambda>_ x w. (Inr x, w)),
     kUpdateNode = (\<lambda>n w. (Inr n, w)), kCreateService = (\<lambda>x w. (Inr x, w)),
     kPatchService = (\<lambda>_ x w. (Inr x, w)), kCreateSlice = (\<lambda>x w. (Inr x, w)),
     kPatchSlice = (\<lambda>_ x w. (Inr x, w)),
     kSetStatusCondition = bed_set_condition, kFindStatusCondition = bed_find_condition,
     kContainsFinalizer = (\<lambda>m f. f \<in> set (m_Finalizers m)),
     kAddFinalizer = (\<lambda>m f. if f \<in> set (m_Finalizers m) then (m, False)
        else (m\<lparr>m_Finalizers := m_Finalizers m @ [f]\<rparr>, True)),
     kRemoveFinalizer = (\<lambda>m f. m\<lparr>m_Finalizers := removeAll f (m_Finalizers m)\<rparr>),
     kSetControllerReference = (\<lambda>n m. Inr (m\<lparr>m_OwnerReferences := [m_UID (n_Meta n)]\<rparr>)),
     kRetryOnConflict = bed_retry 4,
     hNewRequest = (\<lambda>_ _. None), hDo = (\<lambda>_ w. (Inl (NetErr ''unreachable''), w)),
     jInfo = (\<lambda>_. undecodable), jHealth = (\<lambda>_. undecodable), jPrepare = (\<lambda>_. undecodable),
     jConfig = (\<lambda>_. undecodable), jManifest = (\<lambda>_. undecodable),
     jWriteResult = (\<lambda>_. Inr (''written'', '''')), jWritten = (\<lambda>_. 0),
     jHeartbeat = (\<lambda>_. undecodable), jLog = (\<lambda>_. undecodable),
     xSHA256Hex = (\<lambda>x. x), xBase64Encode = (\<lambda>x. x), xBase64Decode = Some,
     xEd25519Verify = (\<lambda>key digest sig. sig = key @ digest),
     tNow = (\<lambda>w. (0, w)), tFormat = (\<lambda>_. ''t''), tParse = (\<lambda>_. Some 0)\<rparr>"

lemma bed_find_set_same: "bed_find_condition (bed_set_condition cs c) (c_Type c) = Some c"
proof (cases "\<exists>x \<in> set cs. c_Type x = c_Type c")
  case True
  then have "find (\<lambda>x. c_Type x = c_Type c) (map (\<lambda>x. if c_Type x = c_Type c then c else x) cs) = Some c"
    by (induction cs) auto
  with True show ?thesis by (simp add: bed_set_condition_def bed_find_condition_def)
next
  case False
  then have "find (\<lambda>x. c_Type x = c_Type c) (cs @ [c]) = Some c"
    by (induction cs) auto
  with False show ?thesis by (simp add: bed_set_condition_def bed_find_condition_def)
qed

lemma bed_find_set_other:
  assumes "t \<noteq> c_Type c"
  shows "bed_find_condition (bed_set_condition cs c) t = bed_find_condition cs t"
proof (cases "\<exists>x \<in> set cs. c_Type x = c_Type c")
  case True
  moreover have "find (\<lambda>x. c_Type x = t) (map (\<lambda>x. if c_Type x = c_Type c then c else x) cs) =
      find (\<lambda>x. c_Type x = t) cs"
    using assms by (induction cs) auto
  ultimately show ?thesis by (simp add: bed_set_condition_def bed_find_condition_def)
next
  case False
  moreover have "find (\<lambda>x. c_Type x = t) (cs @ [c]) = find (\<lambda>x. c_Type x = t) cs"
    using assms by (induction cs) auto
  ultimately show ?thesis by (simp add: bed_set_condition_def bed_find_condition_def)
qed

lemma bed_retry_runs: "retry_runs fn s (bed_retry n fn s)"
proof (induction n arbitrary: s)
  case (Suc n)
  show ?case
  proof (cases "fn s")
    case (Pair r t)
    show ?thesis
    proof (cases "\<exists>e. r = Inl e \<and> is_conflict e")
      case True
      then obtain e where "fn s = (Inl e, t)" "is_conflict e" using Pair by auto
      with Suc.IH [of t] show ?thesis by (auto intro: retry_runs.again)
    next
      case False
      then have "bed_retry (Suc n) fn s = fn s" using Pair by (auto split: sum.splits)
      then show ?thesis by (metis retry_runs.last)
    qed
  qed
qed (simp add: retry_runs.last)

text \<open>The laws, for the environment and for every variation of its other fields.\<close>

lemma bed_cond_laws:
  "kSetStatusCondition E = bed_set_condition \<Longrightarrow> kFindStatusCondition E = bed_find_condition \<Longrightarrow> cond_laws E"
  by (simp add: cond_laws_def bed_find_set_same bed_find_set_other)

lemma bed_retry_law: "kRetryOnConflict E = bed_retry n \<Longrightarrow> retry_law E"
  by (simp add: retry_law_def bed_retry_runs)

section \<open>Objects\<close>

definition bed_sys :: "'w \<Rightarrow> 'w sys" where
  "bed_sys w = \<lparr>world = w, mstate = metrics_init, calls = []\<rparr>"

lemma bed_sys_sel [simp]: "world (bed_sys w) = w" "mstate (bed_sys w) = metrics_init" "calls (bed_sys w) = []"
  by (simp_all add: bed_sys_def)

definition bed_meta :: "string \<Rightarrow> object_meta" where
  "bed_meta nm = new_meta nm ''ns'' Map.empty"

definition bed_node :: mcunode where
  "bed_node = \<lparr>n_Meta = bed_meta ''node1'',
     n_Spec = \<lparr>ns_NodeID = ''id1'', ns_TokenRef = \<lparr>sr_Name = ''tok'', sr_Namespace = ''''\<rparr>,
       ns_TLSSecretRef = \<lparr>sr_Name = '''', sr_Namespace = ''''\<rparr>\<rparr>,
     n_Status = \<lparr>nst_IP = ''10.0.0.1'', nst_State = ''running'', nst_FirmwareName = '''',
       nst_FirmwareVersion = '''', nst_FirmwareDigest = '''', nst_DeploymentID = ''dep1'',
       nst_OtaValidated = True, nst_HeapFree = 0, nst_RSSI = 0, nst_UptimeMs = 0,
       nst_ConfigGeneration = 0, nst_TempCelsius = 0, nst_TaskHwmMin = 0, nst_Chip = ''esp32'',
       nst_IDFVersion = '''', nst_FlashSize = 0, nst_RAMSize = 0, nst_AppPort = 0,
       nst_ApiVersion = '''', nst_TLSCertDigest = '''', nst_LastRebootRequested = '''',
       nst_Ready = False, nst_LastHeartbeat = Some 0, nst_Conditions = []\<rparr>\<rparr>"

definition bed_dep :: "mcu_deployment_phase \<Rightarrow> mcudeployment" where
  "bed_dep p = \<lparr>d_Meta = bed_meta ''dep'',
     d_Spec = \<lparr>ds_NodeName = ''node1'', ds_NodeSelector = [],
       ds_Firmware = \<lparr>fw_Image = ''reg/app:1'', fw_Name = '''', fw_Version = ''''\<rparr>,
       ds_ConfigMapRef = '''', ds_AppPort = 0\<rparr>,
     d_Status = \<lparr>dst_Phase = p, dst_BoundNode = ''node1'', dst_DeploymentID = ''dep1'',
       dst_Message = '''', dst_Digest = ''sha256:abc'', dst_Size = 3, dst_Conditions = []\<rparr>\<rparr>"

definition bed_secret :: "(string \<rightharpoonup> string) \<Rightarrow> secret" where
  "bed_secret d = \<lparr>sec_Meta = bed_meta ''tok'', sec_Data = d\<rparr>"

definition bed_ok :: "string \<Rightarrow> http_response" where
  "bed_ok txt = \<lparr>rs_StatusCode = 200, rs_Body = \<lparr>hb_segs = [txt], hb_end = REOF, hb_eager = True\<rparr>\<rparr>"

lemmas bed_defs = bedE_def bed_sys_def bed_meta_def bed_node_def bed_dep_def bed_secret_def bed_ok_def
  new_meta_def

end
