(* ===== verification/DeploymentSpec.thy ===== *)
theory DeploymentSpec
  imports DeploymentController OtaSpec TestBed
begin

text \<open>
  Correctness of the deployment state machine of
  \<open>internal/controller/mcudeployment_controller.go\<close>: which calls the handler of a phase can make,
  where the phase can go, what a status patch says, and what has been observed before it.
\<close>

section \<open>Allowed phase changes\<close>

inductive phase_step :: "mcu_deployment_phase \<Rightarrow> mcu_deployment_phase \<Rightarrow> bool" where
  bind: "p = PhaseNone \<or> p = PhaseBinding \<Longrightarrow> phase_step p PhasePulling"
| unbindable: "p = PhaseNone \<or> p = PhaseBinding \<Longrightarrow> phase_step p PhaseFailed"
| pulled: "phase_step PhasePulling PhasePreparing"
| prepared: "phase_step PhasePreparing PhaseWriting"
| already_written: "phase_step PhasePreparing PhaseActivating"
| already_activating: "phase_step PhasePreparing PhaseConfirming"
| rejected: "phase_step PhasePreparing PhaseFailed"
| written: "phase_step PhaseWriting PhaseActivating"
| activated: "phase_step PhaseActivating PhaseConfirming"
| incompatible: "phase_step PhaseActivating PhaseFailed"
| confirm: "phase_step PhaseConfirming PhaseDeployed"
| unconfirmed: "phase_step PhaseConfirming PhaseFailed"
| refresh: "phase_step PhaseDeployed PhaseDeployed"
| misconfigured: "phase_step PhaseDeployed PhaseFailed"

inductive_simps phase_step_simps [simp]:
  "phase_step PhaseNone q" "phase_step PhaseBinding q" "phase_step PhasePulling q"
  "phase_step PhasePreparing q" "phase_step PhaseWriting q" "phase_step PhaseActivating q"
  "phase_step PhaseConfirming q" "phase_step PhaseDeployed q" "phase_step PhaseFailed q"
  "phase_step (PhaseOther x) q"

inductive_cases phase_step_to_Deployed: "phase_step p PhaseDeployed"

fun rank :: "mcu_deployment_phase \<Rightarrow> nat" where
  "rank PhaseNone = 0" | "rank PhaseBinding = 0" | "rank PhasePulling = 1" | "rank PhasePreparing = 2"
| "rank PhaseWriting = 3" | "rank PhaseActivating = 4" | "rank PhaseConfirming = 5"
| "rank PhaseDeployed = 6" | "rank PhaseFailed = 7" | "rank (PhaseOther x) = 8"

lemma phase_step_rank: "phase_step p q \<Longrightarrow> rank p < rank q \<or> p = PhaseDeployed \<and> q = PhaseDeployed"
  by (erule phase_step.cases) auto

section \<open>Allowed calls\<close>

text \<open>The device operations a phase may use, and whether it may read from the registry.\<close>

fun device_ops :: "mcu_deployment_phase \<Rightarrow> (string \<times> string) list" where
  "device_ops PhasePreparing =
     [(''GET'', ''/config''), (''POST'', ''/config''), (''GET'', ''/info''), (''POST'', ''/ota/prepare'')]"
| "device_ops PhaseWriting = [(''PUT'', ''/ota/write'')]"
| "device_ops PhaseActivating = [(''GET'', ''/info''), (''POST'', ''/ota/activate'')]"
| "device_ops PhaseDeployed =
     [(''POST'', ''/app/port''), (''GET'', ''/config''), (''POST'', ''/config''), (''POST'', ''/reboot'')]"
| "device_ops _ = []"

definition device_request :: "string \<times> string \<Rightarrow> http_request \<Rightarrow> bool" where
  "device_request mp q \<longleftrightarrow> (\<exists>c st body n hs. q = agent_request c st (fst mp) (snd mp) body n hs)"

definition registry_request :: "http_request \<Rightarrow> bool" where
  "registry_request q \<longleftrightarrow> (\<exists>url hs. q = oci_get url hs)"

definition request_ok :: "mcu_deployment_phase \<Rightarrow> http_request \<Rightarrow> bool" where
  "request_ok p q \<longleftrightarrow>
     (\<exists>mp \<in> set (device_ops p). device_request mp q) \<or>
     (p = PhasePulling \<or> p = PhaseWriting) \<and> registry_request q"

text \<open>The four shapes of a status this controller writes over a base object.\<close>

definition status_write :: "'w ext \<Rightarrow> mcu_deployment_phase \<Rightarrow> mcudeployment \<Rightarrow> mcudeployment \<Rightarrow> bool" where
  "status_write E p b d \<longleftrightarrow>
     (\<exists>reason msg. d = failed_dep E reason msg b) \<or>
     (\<exists>q bn msg. d = phased_dep E q bn msg b \<and>
        (q = PhaseConfirming \<longrightarrow> annotation_echo E \<longrightarrow>
           m_Annotations (d_Meta b) annotationConfirmingSince \<noteq> None)) \<or>
     (\<exists>meta. d = pulled_status E b meta) \<or>
     (p = PhaseDeployed \<and> dst_Phase (d_Status b) = PhaseDeployed \<and>
        (\<exists>expired node. d = available_dep E expired node b))"

lemma status_write_intros [simp]:
  "status_write E p b (failed_dep E reason msg b)"
  "q = PhaseConfirming \<longrightarrow> annotation_echo E \<longrightarrow> m_Annotations (d_Meta b) annotationConfirmingSince \<noteq> None \<Longrightarrow>
     status_write E p b (phased_dep E q bn msg b)"
  "status_write E p b (pulled_status E b meta)"
  "dst_Phase (d_Status b) = PhaseDeployed \<Longrightarrow> status_write E PhaseDeployed b (available_dep E expired node b)"
  unfolding status_write_def by blast+

text \<open>A node patch of this controller leaves what the heartbeat reports alone.\<close>

record node_report =
  np_IP :: string
  np_State :: string
  np_FirmwareDigest :: string
  np_DeploymentID :: string
  np_OtaValidated :: bool
  np_HeapFree :: int
  np_RSSI :: int
  np_UptimeMs :: int
  np_ConfigGeneration :: int
  np_TempCelsius :: f64
  np_TaskHwmMin :: int
  np_Ready :: bool
  np_LastHeartbeat :: "int option"
  np_Conditions :: "condition list"

definition heartbeat_fields :: "mcunode_status \<Rightarrow> node_report" where
  "heartbeat_fields st = \<lparr>np_IP = nst_IP st, np_State = nst_State st, np_FirmwareDigest = nst_FirmwareDigest st,
     np_DeploymentID = nst_DeploymentID st, np_OtaValidated = nst_OtaValidated st, np_HeapFree = nst_HeapFree st,
     np_RSSI = nst_RSSI st, np_UptimeMs = nst_UptimeMs st, np_ConfigGeneration = nst_ConfigGeneration st,
     np_TempCelsius = nst_TempCelsius st, np_TaskHwmMin = nst_TaskHwmMin st, np_Ready = nst_Ready st,
     np_LastHeartbeat = nst_LastHeartbeat st, np_Conditions = nst_Conditions st\<rparr>"

fun phase_call :: "'w ext \<Rightarrow> mcu_deployment_phase \<Rightarrow> call \<Rightarrow> bool" where
  "phase_call E p (CPatchDeploymentStatus b d) \<longleftrightarrow>
     phase_step p (dst_Phase (d_Status d)) \<and> status_write E p b d"
| "phase_call E p (CPatchDeployment b d) \<longleftrightarrow> d_Status d = d_Status b \<and> d_Spec d = d_Spec b"
| "phase_call E p (CPatchNodeStatus lock b n) \<longleftrightarrow>
     p \<in> {PhasePreparing, PhaseActivating, PhaseDeployed} \<and>
     heartbeat_fields (n_Status n) = heartbeat_fields (n_Status b) \<and> n_Spec n = n_Spec b \<and> n_Meta n = n_Meta b"
| "phase_call E p (CHttp q) \<longleftrightarrow> request_ok p q"
| "phase_call E p (CGetNode k) \<longleftrightarrow> True"
| "phase_call E p (CGetConfigMap k) \<longleftrightarrow> True"
| "phase_call E p (CGetSecret k) \<longleftrightarrow> True"
| "phase_call E p (CListNodes ns) \<longleftrightarrow> p = PhaseNone \<or> p = PhaseBinding"
| "phase_call E p (CListDeployments ns) \<longleftrightarrow> p = PhaseNone \<or> p = PhaseBinding"
| "phase_call E p (CEvent k ty reason msg) \<longleftrightarrow> True"
| "phase_call E p CTime \<longleftrightarrow> True"
| "phase_call E p _ \<longleftrightarrow> False"

abbreviation legal :: "'w ext \<Rightarrow> mcu_deployment_phase \<Rightarrow> call \<times> bool \<Rightarrow> bool" where
  "legal E p \<equiv> \<lambda>(k, _). phase_call E p k"

lemma agent_request_ok:
  "(m, pa) \<in> set (device_ops p) \<Longrightarrow> request_ok p (agent_request c st m pa body n hs)"
  by (force simp: request_ok_def device_request_def)

lemma agent_call_ok: "agent_call m pa c k \<Longrightarrow> (m, pa) \<in> set (device_ops p) \<Longrightarrow> phase_call E p k"
  by (auto simp: agent_call_def agent_request_ok)

lemma oci_get_ok: "p = PhasePulling \<or> p = PhaseWriting \<Longrightarrow> request_ok p (oci_get url hs)"
  by (auto simp: request_ok_def registry_request_def)

lemma phase_sel [simp]:
  "dst_Phase (d_Status (failed_dep E r m d)) = PhaseFailed"
  "dst_Phase (d_Status (phased_dep E p bn m d)) = p"
  "dst_Phase (d_Status (pulled_status E d meta)) = PhasePreparing"
  "dst_Phase (d_Status (available_dep E x n d)) = dst_Phase (d_Status d)"
  "d_Status (set_confirming_since v d) = d_Status d"
  "d_Spec (set_confirming_since v d) = d_Spec d"
  by (simp_all add: failed_dep_def phased_dep_def pulled_status_def available_dep_def set_confirming_since_def)

lemma heartbeat_fields_info [simp]:
  "heartbeat_fields (n_Status (node_info_update info v n)) = heartbeat_fields (n_Status n)"
  "n_Spec (node_info_update info v n) = n_Spec n" "n_Meta (node_info_update info v n) = n_Meta n"
  by (simp_all add: node_info_update_def heartbeat_fields_def Let_def)

lemma heartbeat_fields_port [simp]:
  "heartbeat_fields (st\<lparr>nst_AppPort := x\<rparr>) = heartbeat_fields st"
  by (simp add: heartbeat_fields_def)

lemma emits_fail: "phase_step p PhaseFailed \<Longrightarrow> emits (legal E p) (fail E dep reason msg)"
  unfolding fail_def by (intro emits_intros) simp

lemma set_confirming_since_annotation [simp]:
  "m_Annotations (d_Meta (set_confirming_since v d)) annotationConfirmingSince = Some v"
  by (simp add: set_confirming_since_def)

lemma emits_setPhase_status:
  "phase_step p q \<Longrightarrow>
   q = PhaseConfirming \<longrightarrow> annotation_echo E \<longrightarrow> m_Annotations (d_Meta dep) annotationConfirmingSince \<noteq> None \<Longrightarrow>
     emits (legal E p) (setPhase_status E dep q bn msg)"
  unfolding setPhase_status_def by (intro emits_intros) simp_all

lemma emits_setPhase:
  assumes "phase_step p q"
  shows "emits (legal E p) (setPhase E dep q bn msg)"
proof -
  have echoed: "m_Annotations (d_Meta d') annotationConfirmingSince \<noteq> None"
    if "kPatchDeployment E dep (set_confirming_since v dep) w = (Inr d', w')" "annotation_echo E" for v w d' w'
    using that unfolding annotation_echo_def by (metis option.distinct(1) set_confirming_since_annotation)
  have stamped: "emits (legal E p)
      (do { ures \<leftarrow> patchDeployment E dep (set_confirming_since v dep);
            (case ures of Inl err \<Rightarrow> ret (Inl err) | Inr dep' \<Rightarrow> setPhase_status E dep' q bn msg) })" for v
    by (rule emits_ext_bind) (auto split: sum.splits intro!: emits_return emits_setPhase_status assms dest: echoed)
  show ?thesis
    unfolding setPhase_def
    by (intro emits_if emits_bind emits_now stamped emits_setPhase_status assms) auto
qed

lemma emits_nodeClient: "emits (legal E p) (nodeClient E R dep)"
  unfolding nodeClient_def nodeToken_def by (intro emits_intros) simp_all

lemma emits_pushConfigIfNeeded:
  "(''GET'', ''/config'') \<in> set (device_ops p) \<Longrightarrow> (''POST'', ''/config'') \<in> set (device_ops p) \<Longrightarrow>
     emits (legal E p) (pushConfigIfNeeded E cli dep)"
  unfolding pushConfigIfNeeded_def config_request_def
  by (intro emits_intros) (simp_all add: agent_call_ok agent_request_ok config_request_def)

lemma emits_persistNodeInfo:
  "p \<in> {PhasePreparing, PhaseActivating, PhaseDeployed} \<Longrightarrow> emits (legal E p) (persistNodeInfo E node info)"
  unfolding persistNodeInfo_def by (intro emits_intros) simp

lemmas handler_emits = emits_fail emits_setPhase emits_nodeClient emits_pushConfigIfNeeded emits_persistNodeInfo

section \<open>The handlers\<close>

text \<open>
  What the dispatcher relies on of a handler, and what follows for the calls of one run of it.
\<close>

locale phase_handler =
  fixes handler :: "'w ext \<Rightarrow> dep_reconciler \<Rightarrow> mcudeployment \<Rightarrow> ('w sys, gerr + ctrl_result) state"
    and src :: "mcu_deployment_phase \<Rightarrow> bool"
  assumes handler_legal: "src (dst_Phase (d_Status dep)) \<Longrightarrow> emits (legal E (dst_Phase (d_Status dep))) (handler E R dep)"
begin

lemma new_call:
  assumes "src (dst_Phase (d_Status dep))" "run_state (handler E R dep) s = (r, t)"
    and "(k, b) \<in> set (drop (length (calls s)) (calls t))"
  shows "phase_call E (dst_Phase (d_Status dep)) k"
  using emits_new [OF handler_legal [OF assms(1)] assms(2,3)] by simp

lemma moves:
  assumes "src (dst_Phase (d_Status dep))" "run_state (handler E R dep) s = (r, t)"
    and "(CPatchDeploymentStatus bd d, b) \<in> set (drop (length (calls s)) (calls t))"
  shows "phase_step (dst_Phase (d_Status dep)) (dst_Phase (d_Status d))"
  using new_call [OF assms] by simp

lemma node_report_untouched:
  assumes "src (dst_Phase (d_Status dep))" "run_state (handler E R dep) s = (r, t)"
    and "(CPatchNodeStatus lock bn n, b) \<in> set (drop (length (calls s)) (calls t))"
  shows "heartbeat_fields (n_Status n) = heartbeat_fields (n_Status bn)"
  using new_call [OF assms] by simp

end

lemma emits_phaseBinding:
  "p = PhaseNone \<or> p = PhaseBinding \<Longrightarrow> emits (legal E p) (phaseBinding E dep)"
  unfolding phaseBinding_def checkNotBusy_def
  by (intro emits_intros handler_emits) (auto simp: phase_step.simps)

lemma emits_phasePulling: "emits (legal E PhasePulling) (phasePulling E R dep)"
  unfolding phasePulling_def by (intro emits_intros) (simp_all add: oci_get_ok)

lemma emits_prepare_device: "emits (legal E PhasePreparing) (prepare_device E dep node cli)"
  unfolding prepare_device_def
  by (intro emits_intros handler_emits) (simp_all add: agent_call_ok)

lemma emits_phasePreparing: "emits (legal E PhasePreparing) (phasePreparing E R dep)"
  unfolding phasePreparing_def
  by (intro emits_intros handler_emits emits_prepare_device) simp_all

definition ota_put_call :: "agent_client \<Rightarrow> call \<times> bool \<Rightarrow> bool" where
  "ota_put_call cl c \<longleftrightarrow> (\<exists>body n hs. fst c = CHttp (agent_request cl True ''PUT'' ''/ota/write'' body n hs))"

lemma ota_put_callI [simp]:
  "ota_put_call cl (CHttp (agent_request cl True ''PUT'' ''/ota/write'' body n hs), b)"
  by (auto simp: ota_put_call_def)

lemma emits_OTAWrite_http:
  fixes E :: "'w ext"
  shows "emits (ota_put_call c) (OTAWrite E c depl dg tot fw)"
proof -
  have put: "emits (ota_put_call c) (putOTAChunk_loop E c depl dg chunk start fin tot n offset remaining)"
    for E :: "'w ext" and c depl dg tot chunk start fin n offset remaining
  proof (induction n arbitrary: offset remaining)
    case (Suc n)
    show ?case
      unfolding putOTAChunk_loop.simps
      by (intro emits_intros Suc.IH) (auto split: chunk_verdict.splits intro!: emits_return Suc.IH)
  qed (simp add: emits_return)
  have "emits (ota_put_call c) (OTAWrite_loop E c depl dg tot start fw)" for start
  proof (induction E c depl dg tot start fw rule: OTAWrite_loop.induct)
    case (1 E c depl dg tot start fw)
    show ?case
      using "1.IH" put
      by (subst OTAWrite_loop.simps) (intro emits_intros, auto simp: putOTAChunk_def)
  qed
  then show ?thesis by (simp add: OTAWrite_def)
qed

lemma emits_OTAWrite_legal: "emits (legal E PhaseWriting) (OTAWrite E c depl dg tot fw)"
  by (rule emits_mono [OF emits_OTAWrite_http]) (auto simp: ota_put_call_def agent_request_ok)

lemma emits_phaseWriting: "emits (legal E PhaseWriting) (phaseWriting E R dep)"
  unfolding phaseWriting_def
  by (intro emits_intros handler_emits emits_OTAWrite_legal) (simp_all add: oci_get_ok)

lemma emits_phaseActivating: "emits (legal E PhaseActivating) (phaseActivating E R dep)"
  unfolding phaseActivating_def
  by (intro emits_intros handler_emits) (simp_all add: agent_call_ok)

lemma emits_phaseConfirming: "emits (legal E PhaseConfirming) (phaseConfirming E R dep)"
  unfolding phaseConfirming_def
  by (intro emits_intros handler_emits) simp_all

lemma emits_deployed_config: "emits (legal E PhaseDeployed) (deployed_config E R dep)"
  unfolding deployed_config_def reconcileConfigOnly_def
  by (intro emits_intros handler_emits) (simp_all add: agent_call_ok)

lemma emits_reconcileAppPort: "emits (legal E PhaseDeployed) (reconcileAppPort E cli node dep)"
  unfolding reconcileAppPort_def
  by (intro emits_intros) (simp_all add: agent_call_ok)

lemma emits_reconcileDeployed:
  "dst_Phase (d_Status dep) = PhaseDeployed \<Longrightarrow> emits (legal E PhaseDeployed) (reconcileDeployed E R dep)"
  unfolding reconcileDeployed_def heartbeat_expired_def
  by (intro emits_intros handler_emits emits_deployed_config emits_reconcileAppPort) simp_all

interpretation binding: phase_handler "\<lambda>E R dep. phaseBinding E dep" "\<lambda>p. p = PhaseNone \<or> p = PhaseBinding"
  by unfold_locales (rule emits_phaseBinding)

interpretation pulling: phase_handler phasePulling "\<lambda>p. p = PhasePulling"
  by unfold_locales (simp add: emits_phasePulling)

interpretation preparing: phase_handler phasePreparing "\<lambda>p. p = PhasePreparing"
  by unfold_locales (simp add: emits_phasePreparing)

interpretation writing: phase_handler phaseWriting "\<lambda>p. p = PhaseWriting"
  by unfold_locales (simp add: emits_phaseWriting)

interpretation activating: phase_handler phaseActivating "\<lambda>p. p = PhaseActivating"
  by unfold_locales (simp add: emits_phaseActivating)

interpretation confirming: phase_handler phaseConfirming "\<lambda>p. p = PhaseConfirming"
  by unfold_locales (simp add: emits_phaseConfirming)

interpretation deployed: phase_handler reconcileDeployed "\<lambda>p. p = PhaseDeployed"
  by unfold_locales (simp add: emits_reconcileDeployed)

interpretation dispatcher: phase_handler dispatch "\<lambda>p. True"
proof unfold_locales
  fix dep :: mcudeployment and E :: "'a ext" and R
  show "emits (legal E (dst_Phase (d_Status dep))) (dispatch E R dep)"
    using binding.handler_legal [of dep E] pulling.handler_legal [of dep E R]
      preparing.handler_legal [of dep E R] writing.handler_legal [of dep E R]
      activating.handler_legal [of dep E R] confirming.handler_legal [of dep E R]
      deployed.handler_legal [of dep E R]
    unfolding dispatch_def by (cases "dst_Phase (d_Status dep)") (simp_all add: emits_return)
qed

section \<open>Conditions\<close>

definition cond_is :: "'w ext \<Rightarrow> condition list \<Rightarrow> string \<Rightarrow> condition_status \<Rightarrow> bool" where
  "cond_is E cs ty st \<longleftrightarrow> (\<exists>c. kFindStatusCondition E cs ty = Some c \<and> c_Status c = st)"

lemma cond_is_set [simp]:
  assumes "cond_laws E"
  shows "cond_is E (kSetStatusCondition E cs (cond ty st r m)) ty' st' =
    (if ty' = ty then st' = st else cond_is E cs ty' st')"
  using cond_laws_same [OF assms, of cs "cond ty st r m"] cond_laws_other [OF assms, of ty' "cond ty st r m" cs]
  by (auto simp: cond_is_def)

definition ready_consistent :: "'w ext \<Rightarrow> condition list \<Rightarrow> bool" where
  "ready_consistent E cs \<longleftrightarrow>
     (cond_is E cs ''Ready'' ConditionTrue \<longleftrightarrow>
        cond_is E cs ''Progressing'' ConditionFalse \<and> cond_is E cs ''Available'' ConditionTrue)"

lemma setReadyCondition_cases:
  assumes "cond_laws E"
  shows "cond_is E (setReadyCondition E cs) ''Ready'' ConditionTrue \<longleftrightarrow>
      cond_is E cs ''Progressing'' ConditionFalse \<and> cond_is E cs ''Available'' ConditionTrue"
    and "ty \<noteq> ''Ready'' \<Longrightarrow> cond_is E (setReadyCondition E cs) ty st = cond_is E cs ty st"
proof -
  have *: "(case (kFindStatusCondition E cs ''Progressing'', kFindStatusCondition E cs ''Available'') of
      (Some p, Some a) \<Rightarrow> c_Status p = ConditionFalse \<and> c_Status a = ConditionTrue | _ \<Rightarrow> False) \<longleftrightarrow>
      cond_is E cs ''Progressing'' ConditionFalse \<and> cond_is E cs ''Available'' ConditionTrue"
    by (auto simp: cond_is_def split: option.splits)
  show "cond_is E (setReadyCondition E cs) ''Ready'' ConditionTrue \<longleftrightarrow>
      cond_is E cs ''Progressing'' ConditionFalse \<and> cond_is E cs ''Available'' ConditionTrue"
    unfolding setReadyCondition_def Let_def * using assms by simp
  show "cond_is E (setReadyCondition E cs) ty st = cond_is E cs ty st" if "ty \<noteq> ''Ready''"
    unfolding setReadyCondition_def Let_def * using assms that by simp
qed

lemma ready_consistent_set: "cond_laws E \<Longrightarrow> ready_consistent E (setReadyCondition E cs)"
  by (simp add: ready_consistent_def setReadyCondition_cases)

lemma setDeploymentConditions_Ready:
  "cond_laws E \<Longrightarrow>
     cond_is E (setDeploymentConditions E p cs) ''Ready'' ConditionTrue \<longleftrightarrow> p = PhaseDeployed"
  by (simp add: setDeploymentConditions_def setReadyCondition_cases workload_ready_def
      split: mcu_deployment_phase.splits)

lemma failed_conditions_Ready:
  "cond_laws E \<Longrightarrow> \<not> cond_is E (failed_conditions E r m cs) ''Ready'' ConditionTrue"
  by (simp add: failed_conditions_def setReadyCondition_cases)

lemma conditions_consistent:
  assumes "cond_laws E"
  shows "ready_consistent E (setDeploymentConditions E p cs)" "ready_consistent E (failed_conditions E r m cs)"
  by (simp_all add: setDeploymentConditions_def failed_conditions_def ready_consistent_set [OF assms])

lemma status_write_ready:
  assumes "cond_laws E" "status_write E p b d"
  shows "ready_consistent E (dst_Conditions (d_Status d))"
    and "cond_is E (dst_Conditions (d_Status d)) ''Ready'' ConditionTrue \<Longrightarrow> dst_Phase (d_Status d) = PhaseDeployed"
  using assms(2)
  by (auto simp: status_write_def failed_dep_def phased_dep_def pulled_status_def available_dep_def
      ready_consistent_set conditions_consistent setDeploymentConditions_Ready failed_conditions_Ready assms(1))

lemma status_write_spec: "status_write E p b d \<Longrightarrow> d_Spec d = d_Spec b \<and> d_Meta d = d_Meta b"
  by (auto simp: status_write_def failed_dep_def phased_dep_def pulled_status_def available_dep_def)

section \<open>Confirmation\<close>

lemma nodeClient_node:
  "wp (nodeClient E R dep)
     (\<lambda>r t. \<forall>node cli. r = Inr (node, cli) \<longrightarrow>
        (\<exists>w. kGetNode E \<lparr>key_Namespace = d_Namespace dep, key_Name = dst_BoundNode (d_Status dep)\<rparr>
          (world s) = (Inr node, w)) \<and> nst_IP (n_Status node) \<noteq> '''' \<and>
        ac_baseURL cli = ''https://'' @ nst_IP (n_Status node)) s"
  by (auto simp: nodeClient_def nodeToken_def wp_simps agent_New_def split: sum.splits prod.splits option.splits)

definition deploys :: "call \<times> bool \<Rightarrow> bool" where
  "deploys c \<longleftrightarrow> (\<exists>b d. fst c = CPatchDeploymentStatus b d \<and> dst_Phase (d_Status d) = PhaseDeployed)"

text \<open>The node a run of a handler reads first, under the name the deployment is bound to.\<close>

definition bound_node :: "'w ext \<Rightarrow> mcudeployment \<Rightarrow> 'w \<Rightarrow> mcunode \<Rightarrow> bool" where
  "bound_node E dep w node \<longleftrightarrow>
     (\<exists>w'. kGetNode E \<lparr>key_Namespace = d_Namespace dep, key_Name = dst_BoundNode (d_Status dep)\<rparr> w = (Inr node, w'))"

lemma phaseConfirming_deploys:
  "adds (\<lambda>c. deploys c \<longrightarrow> (\<exists>node. bound_node E dep (world s) node \<and> confirmed dep node))
     (phaseConfirming E R dep) s"
  (is "adds ?P _ s")
proof -
  have quiet: "emits ?P (nodeClient E R dep)"
    unfolding nodeClient_def nodeToken_def by (intro emits_intros) (simp_all add: deploys_def)
  have sp: "emits ?P (setPhase E dep q bn msg)" if "\<exists>node. bound_node E dep (world s) node \<and> confirmed dep node" for q bn msg
    using that unfolding setPhase_def setPhase_status_def by (intro emits_intros) (auto simp: deploys_def)
  have fl: "emits ?P (fail E dep r m)" for r m
    unfolding fail_def by (intro emits_intros) (auto simp: deploys_def)
  show ?thesis
    unfolding phaseConfirming_def
    apply (rule adds_bind [OF quiet], rule wp_conseq [OF nodeClient_node])
    subgoal premises prems for cl t
      using prems unfolding bound_node_def [symmetric]
      by (intro emits_adds emits_intros sp fl) (auto simp: deploys_def)
    done
qed

text \<open>What happens to a deployment that is not confirmed.\<close>

lemma phaseConfirming_after:
  assumes "run_state (nodeClient E R dep) s = (Inr (node, cli), u)" "\<not> confirmed dep node"
    and "m_Annotations (d_Meta dep) annotationConfirmingSince = Some v" "tParse E v = Some since"
    and "tNow E (world u) = (n, w)"
  shows "run_state (phaseConfirming E R dep) s =
    (if nst_State (n_Status node) \<in> {''failed'', ''rollback'', ''degraded''}
     then run_state (fail E dep ''DeviceRollback''
            (''device en '' @ e_acute @ ''tat '' @ goq (nst_State (n_Status node)) @ '' apr'' @ e_grave @ ''s activation'')) u
     else let u' = u\<lparr>world := w, calls := calls u @ [(CTime, True)]\<rparr> in
       if time_since n since > ConfirmTimeout
       then run_state (fail E dep ''ConfirmTimeout''
              (''aucune confirmation dans les 2m0s apr'' @ e_grave @ ''s activate'')) u'
       else (Inr (res_after (10 * second)), u'))"
  using assms by (simp add: phaseConfirming_def now_def Let_def)

lemma run_fail:
  "kPatchDeploymentStatus E dep (failed_dep E reason msg dep) (world s) = (r, w) \<Longrightarrow>
   run_state (fail E dep reason msg) s =
     ((case r of Inl err \<Rightarrow> Inl err | Inr _ \<Rightarrow> Inr res_done),
      s\<lparr>world := w, calls := calls s @ [(CPatchDeploymentStatus dep (failed_dep E reason msg dep), \<not> isl r)]\<rparr>)"
  by (cases r) (simp_all add: fail_def ext_call_def)

section \<open>Binding\<close>

lemma first_busy_None:
  "first_busy self n ds = None \<longleftrightarrow>
     (\<forall>d \<in> set ds. d_Name d \<noteq> self \<longrightarrow> dst_BoundNode (d_Status d) = n \<longrightarrow> dst_Phase (d_Status d) = PhaseFailed)"
  by (induction ds) auto

lemma first_busy_Some:
  "first_busy self n ds = Some d \<Longrightarrow>
     d \<in> set ds \<and> d_Name d \<noteq> self \<and> dst_BoundNode (d_Status d) = n \<and> dst_Phase (d_Status d) \<noteq> PhaseFailed"
  by (induction ds) (auto split: if_splits)

lemma selector_matches_iff: "selector_matches sel labels \<longleftrightarrow> (\<forall>(k, v) \<in> set sel. mget labels k = v)"
  by (induction sel) (auto split: if_splits)

definition binds :: "call \<times> bool \<Rightarrow> mcudeployment \<Rightarrow> bool" where
  "binds c d \<longleftrightarrow> (\<exists>b. fst c = CPatchDeploymentStatus b d) \<and> dst_Phase (d_Status d) = PhasePulling"

text \<open>What the two lists of a binding run were, when it binds.\<close>

definition free_candidate :: "'w ext \<Rightarrow> mcudeployment \<Rightarrow> 'w \<Rightarrow> string \<Rightarrow> bool" where
  "free_candidate E dep w nodeName \<longleftrightarrow>
     (\<exists>nodes n w1 deps w2. kListNodes E (Some (d_Namespace dep)) w = (Inr nodes, w1) \<and>
        candidates dep nodes = [n] \<and> n_Name n = nodeName \<and>
        kListDeployments E (d_Namespace dep) w1 = (Inr deps, w2) \<and>
        first_busy (d_Name dep) nodeName deps = None)"

lemma phaseBinding_binds:
  "adds (\<lambda>c. \<forall>d. binds c d \<longrightarrow> free_candidate E dep (world s) (dst_BoundNode (d_Status d)))
     (phaseBinding E dep) s"
  by (auto simp: adds_def phaseBinding_def checkNotBusy_def fail_def setPhase_def setPhase_status_def binds_def
      wp_simps phased_dep_def failed_dep_def free_candidate_def split: sum.splits prod.splits list.splits option.splits)

lemma d_Name_phased [simp]: "d_Name (phased_dep E p bn m d) = d_Name d"
  "dst_BoundNode (d_Status (phased_dep E p bn m d)) = bn"
  by (simp_all add: phased_dep_def)

section \<open>Configuration\<close>

definition within_limits :: "string \<times> string \<Rightarrow> bool" where
  "within_limits kv \<longleftrightarrow> length (fst kv) \<le> 15 \<and> length (snd kv) \<le> 63"

lemma check_limits_None: "check_limits kvs = None \<longleftrightarrow> list_all within_limits kvs"
  by (induction kvs) (auto simp: within_limits_def split: if_splits)

lemma check_limits_permanent: "check_limits kvs = Some err \<Longrightarrow> err_is err errConfigPermanent \<and> \<not> err_is err errConfigMapNotFound"
  by (induction kvs) (auto split: if_splits)

abbreviation user_pairs :: "(string \<times> string) list \<Rightarrow> (string \<times> string) list" where
  "user_pairs kvs \<equiv> filter (\<lambda>kv. \<not> hasPrefix (fst kv) ''_'') kvs"

lemma diff_config_eq:
  "diff_config nvs kvs = (user_pairs kvs, \<exists>kv \<in> set (user_pairs kvs). mget nvs (fst kv) \<noteq> snd kv)"
  by (induction kvs) auto

text \<open>What is pushed: the user pairs of a configuration within the limits of the device store.\<close>

definition config_push :: "agent_client \<Rightarrow> call \<times> bool \<Rightarrow> bool" where
  "config_push cli c \<longleftrightarrow>
     (\<forall>q. fst c = CHttp q \<longrightarrow> rq_Method q = ''POST'' \<longrightarrow>
        (\<exists>data. q = config_request cli data \<and> list_all within_limits data \<and>
           list_all (\<lambda>kv. \<not> hasPrefix (fst kv) ''_'') data \<and> data \<noteq> []))"

lemma pushConfigIfNeeded_push: "emits (config_push cli) (pushConfigIfNeeded E cli dep)"
proof -
  have "config_push cli (CHttp (config_request cli data), b)"
    if "check_limits kvs = None" "diff_config nvs kvs = (data, True)" for kvs nvs data b
  proof -
    from that have data: "data = user_pairs kvs" "data \<noteq> []"
      by (force simp: diff_config_eq filter_empty_conv)+
    from that(1) have "list_all within_limits data"
      by (auto simp: data check_limits_None list_all_iff)
    with data show ?thesis by (auto simp: config_push_def list_all_iff intro!: exI [of _ data])
  qed
  moreover have "config_push cli (k, b)" if "agent_call ''GET'' p c k" for p c k b
    using that by (auto simp: agent_call_def agent_request_def config_push_def)
  ultimately show ?thesis
    unfolding pushConfigIfNeeded_def Let_def
    by (intro emits_intros) (auto simp: config_push_def)
qed

text \<open>A device that holds the configuration is only read; a reboot is still due if it has not loaded it.\<close>

lemma pushConfigIfNeeded_synced:
  assumes "kGetConfigMap E \<lparr>key_Namespace = d_Namespace dep, key_Name = ds_ConfigMapRef (d_Spec dep)\<rparr> (world s) = (Inr cm, w)"
    and "check_limits (cm_Data cm) = None"
    and "run_state (GetConfig E cli) (s\<lparr>world := w, calls := calls s @
      [(CGetConfigMap \<lparr>key_Namespace = d_Namespace dep, key_Name = ds_ConfigMapRef (d_Spec dep)\<rparr>, True)]\<rparr>) = (Inr current, u)"
    and "\<not> snd (diff_config (cr_NVS current) (cm_Data cm))"
  shows "run_state (pushConfigIfNeeded E cli dep) s =
    (Inr (cr_ActiveGeneration current < cr_Generation current), u)"
proof -
  obtain data where "diff_config (cr_NVS current) (cm_Data cm) = (data, False)"
    using assms(4) by (cases "diff_config (cr_NVS current) (cm_Data cm)") auto
  then show ?thesis using assms(1-3) by (simp add: pushConfigIfNeeded_def Let_def ext_call_def)
qed

section \<open>Writing and activating\<close>

text \<open>A run of \<open>phaseWriting\<close> that moves on: the transfer returned no error and no mismatch.\<close>

lemma phaseWriting_moves:
  assumes "run_state (nodeClient E R dep) s = (Inr (node, cli), u)"
    and "run_state (StreamBlob E (dr_OCI R) (fw_Image (ds_Firmware (d_Spec dep))) (dst_Digest (d_Status dep))) u = (Inr stream, v)"
    and "run_state (OTAWrite E cli (dst_DeploymentID (d_Status dep)) (dst_Digest (d_Status dep)) (dst_Size (d_Status dep)) stream) v
      = ((we, stream'), z)"
  shows "adds (\<lambda>c. \<forall>b d. fst c = CPatchDeploymentStatus b d \<longrightarrow> we = None \<and> blob_Err stream' = None) (phaseWriting E R dep) s"
  (is "adds ?P _ s")
proof -
  have q1: "emits ?P (nodeClient E R dep)"
    unfolding nodeClient_def nodeToken_def by (intro emits_intros) simp_all
  have q2: "emits ?P (StreamBlob E (dr_OCI R) (fw_Image (ds_Firmware (d_Spec dep))) (dst_Digest (d_Status dep)))"
    by (intro emits_intros) simp
  have q3: "emits ?P (OTAWrite E cli (dst_DeploymentID (d_Status dep)) (dst_Digest (d_Status dep)) (dst_Size (d_Status dep)) stream)"
    by (rule emits_mono [OF emits_OTAWrite_http]) (auto simp: ota_put_call_def)
  show ?thesis
    unfolding phaseWriting_def
    by (rule adds_run_bind [OF q1 assms(1)], unfold sum.case prod.case,
        rule adds_run_bind [OF q2 assms(2)], unfold sum.case,
        rule adds_run_bind [OF q3 assms(3)], unfold prod.case,
        rule emits_adds)
      (auto simp: setPhase_def setPhase_status_def intro!: emits_intros split: option.splits)
qed

lemma phaseWriting_needs:
  assumes "run_state (phaseWriting E R dep) s = (r, t)"
    and "(CPatchDeploymentStatus b d, ok) \<in> set (drop (length (calls s)) (calls t))"
  obtains node cli u stream v we stream' z where
    "run_state (nodeClient E R dep) s = (Inr (node, cli), u)"
    "run_state (StreamBlob E (dr_OCI R) (fw_Image (ds_Firmware (d_Spec dep))) (dst_Digest (d_Status dep))) u = (Inr stream, v)"
    "run_state (OTAWrite E cli (dst_DeploymentID (d_Status dep)) (dst_Digest (d_Status dep)) (dst_Size (d_Status dep)) stream) v
      = ((None, stream'), z)"
    "blob_Err stream' = None"
proof -
  let ?P = "\<lambda>c :: call \<times> bool. \<forall>b d. fst c \<noteq> CPatchDeploymentStatus b d"
  obtain cl u where n: "run_state (nodeClient E R dep) s = (cl, u)" by (metis surj_pair)
  have q1: "emits ?P (nodeClient E R dep)"
    unfolding nodeClient_def nodeToken_def by (intro emits_intros) simp_all
  have q2: "emits ?P (StreamBlob E (dr_OCI R) (fw_Image (ds_Firmware (d_Spec dep))) (dst_Digest (d_Status dep)))"
    by (intro emits_intros) simp
  have no: "\<not> adds ?P (phaseWriting E R dep) s" using adds_new [OF _ assms] by fastforce
  show ?thesis
  proof (cases cl)
    case (Inl e)
    then have "adds ?P (phaseWriting E R dep) s"
      unfolding phaseWriting_def
      by (intro adds_run_bind [OF q1 n]) (simp add: emits_adds emits_return)
    with no show ?thesis by simp
  next
    case (Inr nc)
    obtain node cli where nc: "nc = (node, cli)" by (cases nc)
    obtain st v where b: "run_state (StreamBlob E (dr_OCI R) (fw_Image (ds_Firmware (d_Spec dep))) (dst_Digest (d_Status dep))) u = (st, v)"
      by (metis surj_pair)
    show ?thesis
    proof (cases st)
      case (Inl e)
      with Inr nc have "adds ?P (phaseWriting E R dep) s"
        unfolding phaseWriting_def
        by (intro adds_run_bind [OF q1 n], simp) (rule adds_run_bind [OF q2 b], simp add: emits_adds emits_return)
      with no show ?thesis by simp
    next
      case (Inr stream)
      obtain we stream' z where w: "run_state (OTAWrite E cli (dst_DeploymentID (d_Status dep)) (dst_Digest (d_Status dep))
          (dst_Size (d_Status dep)) stream) v = ((we, stream'), z)"
        by (metis surj_pair)
      from adds_new [OF phaseWriting_moves [OF n [unfolded \<open>cl = Inr nc\<close> nc] b [unfolded Inr] w] assms]
      have "we = None" "blob_Err stream' = None" by auto
      with that n b w Inr \<open>cl = Inr nc\<close> nc show ?thesis by blast
    qed
  qed
qed

lemma StreamBlob_fresh:
  "run_state (StreamBlob E c img dg) s = (Inr fw, t) \<Longrightarrow>
     bs_hashed fw = [] \<and> bs_wantDigest fw = dg \<and> bs_mismatch fw = None \<and> blob_inv E (bs_rest fw) fw"
proof -
  have "wp (StreamBlob E c img dg) (\<lambda>r t. \<forall>fw. r = Inr fw \<longrightarrow>
      bs_hashed fw = [] \<and> bs_wantDigest fw = dg \<and> bs_mismatch fw = None \<and> blob_inv E (bs_rest fw) fw) s"
    by (auto simp: StreamBlob_def wp_simps Let_def blob_inv_def bs_rest_def split: sum.splits prod.splits option.splits)
  then show "run_state (StreamBlob E c img dg) s = (Inr fw, t) \<Longrightarrow> ?thesis" by (auto dest: wpD)
qed

text \<open>A device that reports the activation is not asked to activate again.\<close>

lemma phaseActivating_idempotent:
  assumes "run_state (nodeClient E R dep) s = (Inr (node, cli), u)"
    and "run_state (GetInfo E cli) u = (Inr info, v)" "alreadyActivated dep info"
  shows "adds (\<lambda>c. \<forall>q. fst c = CHttp q \<longrightarrow> rq_Method q = ''GET'') (phaseActivating E R dep) s"
  (is "adds ?P _ s")
proof -
  have q1: "emits ?P (nodeClient E R dep)"
    unfolding nodeClient_def nodeToken_def by (intro emits_intros) simp_all
  have q2: "emits ?P (GetInfo E cli)"
    by (intro emits_intros) (auto simp: agent_call_def agent_request_def)
  have q3: "emits ?P (persistNodeInfo E node info)"
    unfolding persistNodeInfo_def by (intro emits_intros) simp
  show ?thesis
    unfolding phaseActivating_def
    by (rule adds_run_bind [OF q1 assms(1)], unfold sum.case prod.case,
        rule adds_run_bind [OF q2 assms(2)], unfold sum.case, rule emits_adds, rule emits_bind [OF q3])
      (auto simp: assms(3) setPhase_def setPhase_status_def fail_def intro!: emits_intros split: option.splits)
qed

section \<open>Histories\<close>

text \<open>
  What a deployment can become: its status changes by an accepted status patch of a run of the
  dispatcher, everything else may be edited at any time.
\<close>

inductive dep_history :: "'w ext \<Rightarrow> dep_reconciler \<Rightarrow> mcudeployment \<Rightarrow> mcudeployment \<Rightarrow> bool"
  for E R where
  start: "dep_history E R d d"
| edit: "dep_history E R d d1 \<Longrightarrow> d_Status d2 = d_Status d1 \<Longrightarrow> dep_history E R d d2"
| reconcile: "dep_history E R d d1 \<Longrightarrow> run_state (dispatch E R d1) s = (r, t) \<Longrightarrow>
     (CPatchDeploymentStatus b d2, True) \<in> set (drop (length (calls s)) (calls t)) \<Longrightarrow>
     dep_history E R d d2"

abbreviation phase_of :: "mcudeployment \<Rightarrow> mcu_deployment_phase" where
  "phase_of d \<equiv> dst_Phase (d_Status d)"

lemma deploying_run:
  assumes "run_state (dispatch E R d1) s = (r, t)"
    and "(CPatchDeploymentStatus b d2, True) \<in> set (drop (length (calls s)) (calls t))"
    and "phase_of d2 = PhaseDeployed" "phase_of d1 \<noteq> PhaseDeployed"
  shows "phase_of d1 = PhaseConfirming \<and> (\<exists>node. bound_node E d1 (world s) node \<and> confirmed d1 node)"
proof -
  have "phase_step (phase_of d1) (phase_of d2)" using dispatcher.moves [OF TrueI assms(1,2)] .
  with assms(3,4) have c: "phase_of d1 = PhaseConfirming" by (auto elim: phase_step_to_Deployed)
  then have "run_state (phaseConfirming E R d1) s = (r, t)" using assms(1) by (simp add: dispatch_def)
  from adds_new [OF phaseConfirming_deploys this assms(2)] assms(3) c show ?thesis by (auto simp: deploys_def)
qed

lemma history_deployed:
  "dep_history E R d d' \<Longrightarrow> phase_of d' = PhaseDeployed \<Longrightarrow> phase_of d = PhaseDeployed \<or>
     (\<exists>d1 d2 b s r t node. dep_history E R d d1 \<and> phase_of d1 = PhaseConfirming \<and>
        run_state (dispatch E R d1) s = (r, t) \<and>
        (CPatchDeploymentStatus b d2, True) \<in> set (drop (length (calls s)) (calls t)) \<and>
        phase_of d2 = PhaseDeployed \<and> bound_node E d1 (world s) node \<and> confirmed d1 node)"
proof (induction rule: dep_history.induct)
  case (reconcile d d1 s r t b d2)
  then show ?case
    using deploying_run [OF reconcile.hyps(2,3) reconcile.prems] by (cases "phase_of d1 = PhaseDeployed") blast+
qed auto

end
