(* ===== verification/DeploymentProps.thy ===== *)
theory DeploymentProps
  imports DeploymentSpec
begin

text \<open>
  The properties of the deployment state machine, each with an example that instantiates it on the
  environment of \<open>TestBed\<close>.
\<close>

section \<open>Examples\<close>

definition bed_R :: dep_reconciler where
  "bed_R = \<lparr>dr_OCI = oci_New [], dr_TokenSecret = ''''\<rparr>"

text \<open>The node is running the deployment and the token Secret exists.\<close>

definition bed_up_at :: "int \<Rightarrow> mcunode \<Rightarrow> unit ext" where
  "bed_up_at t n = bedE\<lparr>tNow := (\<lambda>w. (t, w)), kGetNode := (\<lambda>_ w. (Inr n, w)),
     kGetSecret := (\<lambda>_ w. (Inr (bed_secret [''token'' \<mapsto> ''x'']), w))\<rparr>"

abbreviation bed_up :: "mcunode \<Rightarrow> unit ext" where
  "bed_up \<equiv> bed_up_at 0"

lemma bed_up_simps [simp]:
  "kGetNode (bed_up_at t n) k w = (Inr n, w)"
  "kGetSecret (bed_up_at t n) k w = (Inr (bed_secret [''token'' \<mapsto> ''x'']), w)"
  "kPatchDeploymentStatus (bed_up_at t n) b d w = (Inr d, w)" "kPatchDeployment (bed_up_at t n) b d w = (Inr d, w)"
  "tNow (bed_up_at t n) w = (t, w)" "tParse (bed_up_at t n) v = Some 0"
  "kSetStatusCondition (bed_up_at t n) = bed_set_condition"
  "kFindStatusCondition (bed_up_at t n) = bed_find_condition"
  by (simp_all add: bed_up_at_def bedE_def)

definition bed_cli :: agent_client where
  "bed_cli = agent_New ''10.0.0.1'' (trimSpace ''x'')"

definition bed_client_calls :: "(call \<times> bool) list" where
  "bed_client_calls = [(CGetNode \<lparr>key_Namespace = ''ns'', key_Name = ''node1''\<rparr>, True),
     (CGetSecret \<lparr>key_Namespace = ''ns'', key_Name = ''tok''\<rparr>, True)]"

lemma bed_nodeClient_in:
  assumes "\<And>k w. kGetNode E k w = (Inr n, w)" "\<And>k w. kGetSecret E k w = (Inr (bed_secret [''token'' \<mapsto> ''x'']), w)"
    and "nst_IP (n_Status n) = ''10.0.0.1''" "n_Spec n = n_Spec bed_node" "n_Meta n = n_Meta bed_node"
    and "d_Namespace dep = ''ns''" "dst_BoundNode (d_Status dep) = ''node1''"
  shows "run_state (nodeClient E bed_R dep) (bed_sys w) =
    (Inr (n, bed_cli), bed_sys w\<lparr>calls := bed_client_calls\<rparr>)"
  using assms
  by (simp add: nodeClient_def nodeToken_def nodeTokenRef_def ext_call_def bed_meta_def bed_node_def
      new_meta_def bed_secret_def bed_R_def bed_cli_def bed_client_calls_def bed_sys_def Let_def)

lemma bed_nodeClient:
  assumes "nst_IP (n_Status n) = ''10.0.0.1''" "n_Spec n = n_Spec bed_node" "n_Meta n = n_Meta bed_node"
    and "d_Namespace dep = ''ns''" "dst_BoundNode (d_Status dep) = ''node1''"
  shows "run_state (nodeClient (bed_up_at t n) bed_R dep) (bed_sys ()) =
    (Inr (n, bed_cli), bed_sys ()\<lparr>calls := bed_client_calls\<rparr>)"
  using assms by (intro bed_nodeClient_in) simp_all

lemma bed_dep_place [simp]:
  "d_Namespace (bed_dep p) = ''ns''" "dst_BoundNode (d_Status (bed_dep p)) = ''node1''"
  by (simp_all add: bed_dep_def bed_meta_def new_meta_def)

definition bed_deployed :: mcudeployment where
  "bed_deployed = phased_dep (bed_up bed_node) PhaseDeployed ''node1''
     (''d'' @ e_acute @ ''ploiement confirm'' @ e_acute @ '' par heartbeat'') (bed_dep PhaseConfirming)"

lemma bed_node_confirmed: "confirmed (bed_dep p) bed_node"
  by (simp add: confirmed_def bed_dep_def bed_node_def)

lemma bed_confirm_run:
  "run_state (dispatch (bed_up bed_node) bed_R (bed_dep PhaseConfirming)) (bed_sys ()) =
     (Inr res_requeue, bed_sys ()\<lparr>calls := bed_client_calls @
        [(CPatchDeploymentStatus (bed_dep PhaseConfirming) bed_deployed, True)]\<rparr>)"
proof -
  have "dst_Phase (d_Status (bed_dep PhaseConfirming)) = PhaseConfirming" by (simp add: bed_dep_def)
  moreover have "n_Name bed_node = ''node1''" by (simp add: bed_node_def bed_meta_def new_meta_def)
  moreover have "nst_IP (n_Status bed_node) = ''10.0.0.1''" by (simp add: bed_node_def)
  ultimately show ?thesis
    using bed_nodeClient [of bed_node "bed_dep PhaseConfirming" 0]
    by (simp add: dispatch_def phaseConfirming_def bed_node_confirmed setPhase_def setPhase_status_def
        ext_call_def bed_deployed_def)
qed

lemma bed_history: "dep_history (bed_up bed_node) bed_R (bed_dep PhaseConfirming) bed_deployed"
  by (rule dep_history.reconcile [OF dep_history.start bed_confirm_run]) (simp add: bed_client_calls_def)

lemma bed_phases [simp]: "phase_of bed_deployed = PhaseDeployed" "phase_of (bed_dep p) = p"
  by (simp_all add: bed_deployed_def bed_dep_def)

section \<open>The state machine\<close>

text \<open>
  C1: Whatever the cluster and the device answer, one run of the deployment reconciler makes only
  calls that its phase allows: a status patch follows the transition relation, registry reads happen
  in Pulling and Writing only, each device operation belongs to its phase, a node patch leaves the
  reported fields alone, and no Secret, Service, node object or metric is written.
\<close>

theorem dispatch_legal:
  "emits (legal E (phase_of dep)) (dispatch E R dep)"
  by (rule dispatcher.handler_legal) simp

text \<open>
  C2: A deployment that is Deployed and was not at first passed through Confirming, and the patch that
  made it Deployed came from a run that read its bound node as running, with a validated image, and
  reporting this very deployment id.
\<close>

theorem deployed_only_when_confirmed:
  assumes "dep_history E R d d'" "phase_of d' = PhaseDeployed" "phase_of d \<noteq> PhaseDeployed"
  shows "\<exists>d1 d2 b s r t node. dep_history E R d d1 \<and> phase_of d1 = PhaseConfirming \<and>
    run_state (dispatch E R d1) s = (r, t) \<and>
    (CPatchDeploymentStatus b d2, True) \<in> set (drop (length (calls s)) (calls t)) \<and>
    phase_of d2 = PhaseDeployed \<and> bound_node E d1 (world s) node \<and>
    nst_State (n_Status node) = ''running'' \<and> nst_OtaValidated (n_Status node) \<and>
    nst_DeploymentID (n_Status node) = dst_DeploymentID (d_Status d1)"
  using history_deployed [OF assms(1,2)] assms(3) unfolding confirmed_def by blast

theorem deployed_only_when_confirmed_witness:
  "\<exists>d1 d2 b s r t node. dep_history (bed_up bed_node) bed_R (bed_dep PhaseConfirming) d1 \<and>
    phase_of d1 = PhaseConfirming \<and>
    run_state (dispatch (bed_up bed_node) bed_R d1) s = (r, t) \<and>
    (CPatchDeploymentStatus b d2, True) \<in> set (drop (length (calls s)) (calls t)) \<and>
    phase_of d2 = PhaseDeployed \<and> bound_node (bed_up bed_node) d1 (world s) node \<and>
    nst_State (n_Status node) = ''running'' \<and> nst_OtaValidated (n_Status node) \<and>
    nst_DeploymentID (n_Status node) = dst_DeploymentID (d_Status d1)"
  by (rule deployed_only_when_confirmed [OF bed_history]) simp_all

text \<open>
  C25: In Confirming, once the node and the token could be read, a deployment that is not confirmed
  fails exactly when the device reports a failed, rolled back or degraded image, or more than two
  minutes have passed since the activation; otherwise it waits.
\<close>

theorem confirming_verdict:
  assumes "run_state (nodeClient E R dep) s = (Inr (node, cli), u)" "\<not> confirmed dep node"
    and "m_Annotations (d_Meta dep) annotationConfirmingSince = Some v" "tParse E v = Some since"
    and "tNow E (world u) = (n, w)" "run_state (phaseConfirming E R dep) s = (r, t)"
  shows "if nst_State (n_Status node) \<in> {''failed'', ''rollback'', ''degraded''} \<or> n - since > 2 * 60 * second
     then \<exists>reason msg ok. last (calls t) = (CPatchDeploymentStatus dep (failed_dep E reason msg dep), ok)
     else r = Inr (res_after (10 * second)) \<and> calls t = calls u @ [(CTime, True)]"
proof -
  note run = phaseConfirming_after [OF assms(1-5), unfolded assms(6)]
  have limit: "time_since n since > ConfirmTimeout \<longleftrightarrow> n - since > 2 * 60 * second"
    unfolding ConfirmTimeout_def by (rule time_since_gt) (simp_all add: second_def)
  have failed: "\<exists>ok. last (calls (snd (run_state (fail E dep reason msg) x))) =
      (CPatchDeploymentStatus dep (failed_dep E reason msg dep), ok)" for reason msg x
    by (cases "kPatchDeploymentStatus E dep (failed_dep E reason msg dep) (world x)") (simp add: run_fail)
  have snd_t: "run_state m x = (r, t) \<Longrightarrow> t = snd (run_state m x)" for m :: "('a sys, gerr + ctrl_result) state" and x
    by simp
  show ?thesis
    using run limit by (auto simp: Let_def split: if_splits dest!: sym [of "(r, t)"] snd_t intro: failed)
qed

text \<open>Three minutes after the activation the device still runs without a validated image.\<close>

definition bed_unvalidated :: mcunode where
  "bed_unvalidated = upd_nstatus (\<lambda>st. st\<lparr>nst_OtaValidated := False\<rparr>) bed_node"

definition bed_waiting :: mcudeployment where
  "bed_waiting = set_confirming_since ''t'' (bed_dep PhaseConfirming)"

theorem confirming_verdict_witness:
  "\<exists>reason msg ok. last (calls (snd (run_state (phaseConfirming (bed_up_at (180 * second) bed_unvalidated) bed_R bed_waiting) (bed_sys ()))))
     = (CPatchDeploymentStatus bed_waiting (failed_dep (bed_up_at (180 * second) bed_unvalidated) reason msg bed_waiting), ok)"
proof -
  have cl: "run_state (nodeClient (bed_up_at (180 * second) bed_unvalidated) bed_R bed_waiting) (bed_sys ()) =
      (Inr (bed_unvalidated, bed_cli), bed_sys ()\<lparr>calls := bed_client_calls\<rparr>)"
    by (rule bed_nodeClient)
      (simp_all add: bed_unvalidated_def bed_waiting_def set_confirming_since_def bed_node_def bed_dep_def bed_meta_def new_meta_def)
  have nc: "\<not> confirmed bed_waiting bed_unvalidated"
    by (simp add: confirmed_def bed_unvalidated_def)
  have "n - since > 2 * 60 * second" if "n = 180 * second" "since = 0" for n since
    using that by (simp add: second_def)
  with confirming_verdict [OF cl nc _ bed_up_simps(6) bed_up_simps(5) prod.collapse [symmetric]]
  show ?thesis by (auto simp: bed_waiting_def second_def)
qed

text \<open>
  C27: Every status the deployment reconciler writes has the condition Ready true exactly when
  Progressing is false and Available is true, and Ready is true in the phase Deployed only.
\<close>

theorem ready_condition_consistent:
  assumes "cond_laws E"
  shows "emits (\<lambda>(k, _). \<forall>b d. k = CPatchDeploymentStatus b d \<longrightarrow>
     (cond_is E (dst_Conditions (d_Status d)) ''Ready'' ConditionTrue \<longleftrightarrow>
        cond_is E (dst_Conditions (d_Status d)) ''Progressing'' ConditionFalse \<and>
        cond_is E (dst_Conditions (d_Status d)) ''Available'' ConditionTrue) \<and>
     (cond_is E (dst_Conditions (d_Status d)) ''Ready'' ConditionTrue \<longrightarrow> phase_of d = PhaseDeployed))
     (dispatch E R dep)"
  by (rule emits_mono [OF dispatcher.handler_legal [OF TrueI]])
     (auto dest: status_write_ready(1) [OF assms, unfolded ready_consistent_def] status_write_ready(2) [OF assms])

theorem ready_condition_consistent_witness:
  "emits (\<lambda>(k, _). \<forall>b d. k = CPatchDeploymentStatus b d \<longrightarrow>
     (cond_is (bed_up bed_node) (dst_Conditions (d_Status d)) ''Ready'' ConditionTrue \<longleftrightarrow>
        cond_is (bed_up bed_node) (dst_Conditions (d_Status d)) ''Progressing'' ConditionFalse \<and>
        cond_is (bed_up bed_node) (dst_Conditions (d_Status d)) ''Available'' ConditionTrue) \<and>
     (cond_is (bed_up bed_node) (dst_Conditions (d_Status d)) ''Ready'' ConditionTrue \<longrightarrow> phase_of d = PhaseDeployed))
     (dispatch (bed_up bed_node) bed_R (bed_dep PhaseConfirming))"
  by (rule ready_condition_consistent) (simp add: bed_cond_laws)

text \<open>
  C26: No deployment enters Confirming without the annotation from which the two-minute deadline is
  computed, whichever phase it comes from.
\<close>

theorem confirming_has_deadline:
  assumes "annotation_echo E"
  shows "emits (\<lambda>(k, _). \<forall>b d. k = CPatchDeploymentStatus b d \<longrightarrow> phase_of d = PhaseConfirming \<longrightarrow>
     m_Annotations (d_Meta d) annotationConfirmingSince \<noteq> None) (dispatch E R dep)"
proof (rule emits_mono [OF dispatcher.handler_legal [OF TrueI]])
  fix c assume l: "legal E (phase_of dep) c"
  have "m_Annotations (d_Meta d) annotationConfirmingSince \<noteq> None"
    if "c = (CPatchDeploymentStatus b d, ok)" "phase_of d = PhaseConfirming" for b d ok
  proof -
    have w: "status_write E (phase_of dep) b d" using l that by simp
    then show ?thesis
      using that(2) assms status_write_spec [OF w] by (auto simp: status_write_def)
  qed
  then show "case c of (k, _) \<Rightarrow> \<forall>b d. k = CPatchDeploymentStatus b d \<longrightarrow> phase_of d = PhaseConfirming \<longrightarrow>
     m_Annotations (d_Meta d) annotationConfirmingSince \<noteq> None" by (cases c) auto
qed

theorem confirming_has_deadline_witness:
  "emits (\<lambda>(k, _). \<forall>b d. k = CPatchDeploymentStatus b d \<longrightarrow> phase_of d = PhaseConfirming \<longrightarrow>
     m_Annotations (d_Meta d) annotationConfirmingSince \<noteq> None)
     (dispatch (bed_up bed_node) bed_R (bed_dep PhaseActivating))"
  by (rule confirming_has_deadline) (simp add: annotation_echo_def)

section \<open>Binding\<close>

text \<open>
  A binding run that moves a deployment to Pulling bound it to the only node that its name or
  selector designates, and the list of deployments it read shows no other deployment on that node
  except failed ones.
\<close>

theorem binds_free_candidate:
  assumes "run_state (phaseBinding E dep) s = (r, t)"
    and "(CPatchDeploymentStatus b d, ok) \<in> set (drop (length (calls s)) (calls t))"
    and "phase_of d = PhasePulling"
  shows "\<exists>nodes n w1 deps w2.
    kListNodes E (Some (d_Namespace dep)) (world s) = (Inr nodes, w1) \<and> candidates dep nodes = [n] \<and>
    dst_BoundNode (d_Status d) = n_Name n \<and>
    kListDeployments E (d_Namespace dep) w1 = (Inr deps, w2) \<and>
    (\<forall>d' \<in> set deps. d_Name d' \<noteq> d_Name dep \<longrightarrow> dst_BoundNode (d_Status d') = n_Name n \<longrightarrow>
       phase_of d' = PhaseFailed)"
  using adds_new [OF phaseBinding_binds assms(1,2)] assms(3)
  by (auto simp: binds_def free_candidate_def first_busy_None)

definition bed_cluster :: "unit ext" where
  "bed_cluster = bedE\<lparr>kListNodes := (\<lambda>_ w. (Inr [bed_node], w)),
     kListDeployments := (\<lambda>_ w. (Inr [bed_dep PhaseNone], w))\<rparr>"

lemma bed_cluster_simps [simp]:
  "kListNodes bed_cluster ns w = (Inr [bed_node], w)"
  "kListDeployments bed_cluster n w = (Inr [bed_dep PhaseNone], w)"
  "kPatchDeploymentStatus bed_cluster b d w = (Inr d, w)"
  by (simp_all add: bed_cluster_def bedE_def)

lemma bed_candidates: "candidates (bed_dep p) [bed_node] = [bed_node]" "n_Name bed_node = ''node1''"
  by (simp_all add: candidates_def bed_dep_def bed_node_def bed_meta_def new_meta_def)

lemma bed_bind_run:
  "run_state (phaseBinding bed_cluster (bed_dep PhaseNone)) (bed_sys ()) =
     (Inr res_requeue, bed_sys ()\<lparr>calls := [(CListNodes (Some ''ns''), True), (CListDeployments ''ns'', True),
       (CPatchDeploymentStatus (bed_dep PhaseNone) (phased_dep bed_cluster PhasePulling ''node1'' '''' (bed_dep PhaseNone)), True)]\<rparr>)"
  by (simp add: phaseBinding_def checkNotBusy_def ext_call_def bed_candidates setPhase_def setPhase_status_def)

theorem binds_free_candidate_witness:
  "\<exists>nodes n w1 deps w2.
    kListNodes bed_cluster (Some ''ns'') () = (Inr nodes, w1) \<and> candidates (bed_dep PhaseNone) nodes = [n] \<and>
    ''node1'' = n_Name n \<and> kListDeployments bed_cluster ''ns'' w1 = (Inr deps, w2) \<and>
    (\<forall>d' \<in> set deps. d_Name d' \<noteq> d_Name (bed_dep PhaseNone) \<longrightarrow> dst_BoundNode (d_Status d') = n_Name n \<longrightarrow>
       phase_of d' = PhaseFailed)"
proof -
  have m: "(CPatchDeploymentStatus (bed_dep PhaseNone)
      (phased_dep bed_cluster PhasePulling ''node1'' '''' (bed_dep PhaseNone)), True)
    \<in> set (drop (length (calls (bed_sys ()))) [(CListNodes (Some ''ns''), True), (CListDeployments ''ns'', True),
       (CPatchDeploymentStatus (bed_dep PhaseNone) (phased_dep bed_cluster PhasePulling ''node1'' '''' (bed_dep PhaseNone)), True)])"
    by simp
  from binds_free_candidate [OF bed_bind_run] m show ?thesis by simp
qed

abbreviation bedU :: "unit ext" where
  "bedU \<equiv> bedE"

text \<open>
  An error of the API server while the deployments are listed ends the deployment: it is patched to
  the terminal phase Failed with the reason DeviceBusy, and the run reports no error to retry.
\<close>

theorem list_error_is_terminal:
  assumes "kListNodes E (Some (d_Namespace dep)) (world s) = (Inr nodes, w1)" "candidates dep nodes = [n]"
    and "kListDeployments E (d_Namespace dep) w1 = (Inl err, w2)"
    and "kPatchDeploymentStatus E dep (failed_dep E ''DeviceBusy'' (err_text err) dep) w2 = (Inr d, w3)"
  shows "\<exists>t. run_state (phaseBinding E dep) s = (Inr res_done, t) \<and>
    last (calls t) = (CPatchDeploymentStatus dep (failed_dep E ''DeviceBusy'' (err_text err) dep), True) \<and>
    phase_of (failed_dep E ''DeviceBusy'' (err_text err) dep) = PhaseFailed"
  using assms by (simp add: phaseBinding_def checkNotBusy_def ext_call_def run_fail)

definition bed_nolist :: "unit ext" where
  "bed_nolist = bedE\<lparr>kListNodes := (\<lambda>_ w. (Inr [bed_node], w))\<rparr>"

theorem list_error_is_terminal_witness:
  "\<exists>t. run_state (phaseBinding bed_nolist (bed_dep PhaseNone)) (bed_sys ()) = (Inr res_done, t) \<and>
    last (calls t) = (CPatchDeploymentStatus (bed_dep PhaseNone)
      (failed_dep bed_nolist ''DeviceBusy'' (err_text (ApiOther ''unavailable'')) (bed_dep PhaseNone)), True) \<and>
    phase_of (failed_dep bed_nolist ''DeviceBusy'' (err_text (ApiOther ''unavailable'')) (bed_dep PhaseNone)) = PhaseFailed"
proof (rule list_error_is_terminal)
  show "kListNodes bed_nolist (Some (d_Namespace (bed_dep PhaseNone))) (world (bed_sys ())) = (Inr [bed_node], ())"
    "kListDeployments bed_nolist (d_Namespace (bed_dep PhaseNone)) () = (Inl (ApiOther ''unavailable''), ())"
    "kPatchDeploymentStatus bed_nolist (bed_dep PhaseNone)
       (failed_dep bed_nolist ''DeviceBusy'' (err_text (ApiOther ''unavailable'')) (bed_dep PhaseNone)) () =
     (Inr (failed_dep bed_nolist ''DeviceBusy'' (err_text (ApiOther ''unavailable'')) (bed_dep PhaseNone)), ())"
    by (simp_all add: bed_nolist_def bedE_def)
qed (rule bed_candidates(1))

section \<open>Configuration\<close>

text \<open>
  C22: The only POST a configuration step sends to the device is \<open>POST /config\<close>, and its payload is not
  empty, has no reserved key (prefix \<open>_\<close>) and only keys of at most 15 and values of at most 63 bytes.
\<close>

theorem config_payload_safe:
  "emits (\<lambda>(k, _). \<forall>q. k = CHttp q \<longrightarrow> rq_Method q = ''POST'' \<longrightarrow>
     (\<exists>data. q = config_request cli data \<and> data \<noteq> [] \<and>
        (\<forall>(key, v) \<in> set data. length key \<le> 15 \<and> length v \<le> 63 \<and> \<not> hasPrefix key ''_'')))
     (pushConfigIfNeeded E cli dep)"
  by (rule emits_mono [OF pushConfigIfNeeded_push])
     (fastforce simp: config_push_def list_all_iff within_limits_def)

theorem config_payload_safe_witness:
  "emits (\<lambda>(k, _). \<forall>q. k = CHttp q \<longrightarrow> rq_Method q = ''POST'' \<longrightarrow>
     (\<exists>data. q = config_request bed_cli data \<and> data \<noteq> [] \<and>
        (\<forall>(key, v) \<in> set data. length key \<le> 15 \<and> length v \<le> 63 \<and> \<not> hasPrefix key ''_'')))
     (pushConfigIfNeeded bedU bed_cli (bed_dep PhasePreparing))"
  by (rule config_payload_safe)

text \<open>
  A McuConfigMap with a key or a value over the limits of the device store is refused as a
  permanent error with the reason ConfigInvalid before the device has been contacted at all.
\<close>

theorem invalid_config_stays_away:
  assumes "kGetConfigMap E \<lparr>key_Namespace = d_Namespace dep, key_Name = ds_ConfigMapRef (d_Spec dep)\<rparr> (world s) = (Inr cm, w)"
    and "(key, v) \<in> set (cm_Data cm)" "length key > 15 \<or> length v > 63"
  shows "\<exists>err. run_state (pushConfigIfNeeded E cli dep) s =
     (Inl err, s\<lparr>world := w, calls := calls s @
        [(CGetConfigMap \<lparr>key_Namespace = d_Namespace dep, key_Name = ds_ConfigMapRef (d_Spec dep)\<rparr>, True)]\<rparr>) \<and>
     err_is err errConfigPermanent \<and> configFailReason err = ''ConfigInvalid''"
proof -
  have "\<not> within_limits (key, v)" using assms(3) by (auto simp: within_limits_def)
  with assms(2) have "check_limits (cm_Data cm) \<noteq> None"
    by (auto simp: check_limits_None list_all_iff simp del: not_None_eq)
  then obtain err where e: "check_limits (cm_Data cm) = Some err" by auto
  with check_limits_permanent [OF e] assms(1) show ?thesis
    by (intro exI [of _ err]) (simp add: pushConfigIfNeeded_def ext_call_def configFailReason_def Let_def)
qed

definition bed_config :: "(string \<times> string) list \<Rightarrow> unit ext" where
  "bed_config kvs = bedE\<lparr>kGetConfigMap := (\<lambda>k w. (Inr \<lparr>cm_Meta = bed_meta ''cm'', cm_Data = kvs\<rparr>, w))\<rparr>"

lemma bed_config_get [simp]:
  "kGetConfigMap (bed_config kvs) k w = (Inr \<lparr>cm_Meta = bed_meta ''cm'', cm_Data = kvs\<rparr>, w)"
  by (simp add: bed_config_def)

theorem invalid_config_stays_away_witness:
  "\<exists>err. fst (run_state (pushConfigIfNeeded (bed_config [(''sixteen_chars_xx'', ''v'')]) bed_cli (bed_dep PhasePreparing)) (bed_sys ())) = Inl err \<and>
     err_is err errConfigPermanent \<and> configFailReason err = ''ConfigInvalid''"
proof -
  have "(''sixteen_chars_xx'', ''v'') \<in> set (cm_Data \<lparr>cm_Meta = bed_meta ''cm'', cm_Data = [(''sixteen_chars_xx'', ''v'')]\<rparr>)"
    "length ''sixteen_chars_xx'' > 15 \<or> length ''v'' > 63" by simp_all
  from invalid_config_stays_away [OF bed_config_get this, where dep = "bed_dep PhasePreparing" and s = "bed_sys ()" and cli = bed_cli]
  show ?thesis by auto
qed

text \<open>
  A device whose store already has the configuration is only read; the step asks for a reboot
  exactly when the device runs an older generation than the stored one.
\<close>

theorem synced_config_only_read:
  assumes "kGetConfigMap E \<lparr>key_Namespace = d_Namespace dep, key_Name = ds_ConfigMapRef (d_Spec dep)\<rparr> (world s) = (Inr cm, w)"
    and "check_limits (cm_Data cm) = None"
    and "run_state (GetConfig E cli) (s\<lparr>world := w, calls := calls s @
      [(CGetConfigMap \<lparr>key_Namespace = d_Namespace dep, key_Name = ds_ConfigMapRef (d_Spec dep)\<rparr>, True)]\<rparr>) = (Inr current, u)"
    and "\<forall>(k, v) \<in> set (cm_Data cm). \<not> hasPrefix k ''_'' \<longrightarrow> cr_NVS current k = Some v"
  shows "run_state (pushConfigIfNeeded E cli dep) s =
    (Inr (cr_ActiveGeneration current < cr_Generation current), u)"
  using pushConfigIfNeeded_synced [OF assms(1-3)] assms(4) by (fastforce simp: diff_config_eq mget_def)

definition bed_synced :: "unit ext" where
  "bed_synced = (bed_config [(''a'', ''1'')])\<lparr>hDo := (\<lambda>_ w. (Inr (bed_ok ''c''), w)),
     jConfig := (\<lambda>_. Inr \<lparr>cr_Generation = 2, cr_ActiveGeneration = 1, cr_Active = Map.empty, cr_NVS = [''a'' \<mapsto> ''1'']\<rparr>)\<rparr>"

theorem synced_config_only_read_witness:
  "fst (run_state (pushConfigIfNeeded bed_synced bed_cli (bed_dep PhaseDeployed)) (bed_sys ())) = Inr True"
proof -
  let ?cur = "\<lparr>cr_Generation = 2, cr_ActiveGeneration = 1, cr_Active = Map.empty, cr_NVS = [''a'' \<mapsto> ''1'']\<rparr>"
  have g: "kGetConfigMap bed_synced k w = (Inr \<lparr>cm_Meta = bed_meta ''cm'', cm_Data = [(''a'', ''1'')]\<rparr>, w)" for k w
    by (simp add: bed_synced_def bed_config_def)
  have c: "run_state (GetConfig bed_synced bed_cli) x =
      (Inr ?cur, x\<lparr>calls := calls x @ [(CHttp (agent_request bed_cli False ''GET'' ''/config'' BNone (-1) []), True)]\<rparr>)" for x
    by (simp add: GetConfig_def agent_do_def doWith_def ext_call_def bed_synced_def bed_config_def bedE_def bed_ok_def)
  from synced_config_only_read [OF g _ c, where dep = "bed_dep PhaseDeployed" and s = "bed_sys ()"]
  show ?thesis by simp
qed

section \<open>Activating\<close>

text \<open>
  A device that says it is already activating this deployment, or that it runs an image still to be
  verified, is not told to activate again: the run of Activating only reads from it.
\<close>

theorem activate_once:
  assumes "run_state (nodeClient E R dep) s = (Inr (node, cli), u)"
    and "run_state (GetInfo E cli) u = (Inr info, v)" "alreadyActivated dep info"
    and "run_state (phaseActivating E R dep) s = (r, t)"
    and "(CHttp q, ok) \<in> set (drop (length (calls s)) (calls t))"
  shows "rq_Method q = ''GET''"
  using adds_new [OF phaseActivating_idempotent [OF assms(1-3)] assms(4,5)] by simp

definition bed_info :: info_response where
  "bed_info = \<lparr>ir_NodeID = ''id1'', ir_ApiVersions = [''v1alpha1''], ir_Chip = ''esp32'', ir_IDFVersion = '''',
     ir_FlashSize = 0, ir_RAMSize = 0, ir_PartitionLayout = '''', ir_ActiveSlot = '''', ir_FwName = '''',
     ir_FwVersion = '''', ir_FwDigest = '''', ir_StagedState = ''activating'', ir_StagedSlot = '''',
     ir_StagedDigest = '''', ir_StagedDeploymentID = ''dep1'', ir_State = ''running'', ir_AppPort = 0,
     ir_ConfigGeneration = 0\<rparr>"

definition bed_activating :: "unit ext" where
  "bed_activating = (bed_up bed_node)\<lparr>hDo := (\<lambda>_ w. (Inr (bed_ok ''i''), w)), jInfo := (\<lambda>_. Inr bed_info)\<rparr>"

theorem activate_once_witness:
  "\<exists>q ok. (CHttp q, ok) \<in> set (calls (snd (run_state (phaseActivating bed_activating bed_R (bed_dep PhaseActivating)) (bed_sys ())))) \<and>
     rq_Method q = ''GET''"
proof -
  have cl: "run_state (nodeClient bed_activating bed_R (bed_dep PhaseActivating)) (bed_sys ()) =
      (Inr (bed_node, bed_cli), bed_sys ()\<lparr>calls := bed_client_calls\<rparr>)"
    by (rule bed_nodeClient_in) (simp_all add: bed_activating_def bed_up_at_def bed_node_def)
  let ?q = "agent_request bed_cli False ''GET'' ''/info'' BNone (-1) []"
  have i: "run_state (GetInfo bed_activating bed_cli) x = (Inr bed_info, x\<lparr>calls := calls x @ [(CHttp ?q, True)]\<rparr>)" for x
    by (simp add: GetInfo_def agent_do_def doWith_def ext_call_def bed_activating_def bed_up_at_def bedE_def bed_ok_def)
  have a: "alreadyActivated (bed_dep PhaseActivating) bed_info"
    by (simp add: alreadyActivated_def bed_info_def bed_dep_def)
  have v: "NegotiateAPIVersion (ir_ApiVersions bed_info) = Inr ''v1alpha1''"
    by (simp add: NegotiateAPIVersion_def SupportedAPIVersion_def bed_info_def)
  obtain r t where run: "run_state (phaseActivating bed_activating bed_R (bed_dep PhaseActivating)) (bed_sys ()) = (r, t)"
    by (metis surj_pair)
  have "(CHttp ?q, True) \<in> set (calls t)"
    using run i [of "bed_sys ()\<lparr>calls := bed_client_calls\<rparr>"]
    by (auto simp: phaseActivating_def cl persistNodeInfo_def v ext_call_def err_of_def a setPhase_def
        setPhase_status_def now_def Let_def split: prod.splits sum.splits if_splits)
  moreover from this have "rq_Method ?q = ''GET''"
    by (intro activate_once [OF cl i a run]) simp
  ultimately show ?thesis using run by auto
qed

section \<open>Writing\<close>

lemma phaseWriting_ends:
  assumes "run_state (nodeClient E R dep) s = (Inr (node, cli), u)"
    and "run_state (StreamBlob E (dr_OCI R) (fw_Image (ds_Firmware (d_Spec dep))) (dst_Digest (d_Status dep))) u = (Inr blob, v)"
    and "run_state (OTAWrite E cli (dst_DeploymentID (d_Status dep)) (dst_Digest (d_Status dep)) (dst_Size (d_Status dep)) blob) v
      = ((None, blob'), z)" "blob_Err blob' = None"
    and "run_state (phaseWriting E R dep) s = (r, t)"
  shows "\<exists>b d x. kPatchDeploymentStatus E b d (world z) = (x, world t)"
proof -
  let ?d = "phased_dep E PhaseActivating (dst_BoundNode (d_Status dep)) '''' dep"
  obtain x w where p: "kPatchDeploymentStatus E dep ?d (world z) = (x, w)" by (metis surj_pair)
  then have "world t = w"
    using assms(5) by (auto simp: phaseWriting_def assms(1-4) emit_def setPhase_def setPhase_status_def ext_call_def split: sum.splits)
  with p show ?thesis by blast
qed

text \<open>
  C7: When a run of Writing for a firmware of at least one byte moves the deployment on, then at the end of
  that run the device holds exactly the first \<open>size\<close> bytes of the blob that the registry delivered in it, if
  the device follows the transfer protocol and no other party writes to it; and if the blob has that size and
  the registry's stream announced its end with the last bytes, they have the digest of the deployment.
\<close>

theorem written_firmware_is_stored:
  assumes "run_state (phaseWriting E R dep) s = (r, t)"
    and "(CPatchDeploymentStatus b d, ok) \<in> set (drop (length (calls s)) (calls t))"
    and "0 < dst_Size (d_Status dep)" "dst_Size (d_Status dep) < 2 ^ 63 - 65536"
    and "\<forall>node cli u. run_state (nodeClient E R dep) s = (Inr (node, cli), u) \<longrightarrow>
      device_law E cli (dst_DeploymentID (d_Status dep)) (dst_Digest (d_Status dep)) (dst_Size (d_Status dep)) stored"
    and "\<forall>b d w x w'. kPatchDeploymentStatus E b d w = (x, w') \<longrightarrow> stored w' = stored w"
  shows "\<exists>node cli u blob v.
    run_state (nodeClient E R dep) s = (Inr (node, cli), u) \<and>
    run_state (StreamBlob E (dr_OCI R) (fw_Image (ds_Firmware (d_Spec dep))) (dst_Digest (d_Status dep))) u = (Inr blob, v) \<and>
    stored (world t) = take (nat (dst_Size (d_Status dep))) (bs_rest blob) \<and>
    (hb_eager (bs_body blob) \<and> hb_end (bs_body blob) = REOF \<and> list_all (\<lambda>x. x \<noteq> []) (hb_segs (bs_body blob)) \<and>
       length (bs_rest blob) = nat (dst_Size (d_Status dep)) \<longrightarrow>
     ''sha256:'' @ xSHA256Hex E (stored (world t)) = dst_Digest (d_Status dep))"
proof -
  obtain node cli u blob v we blob' z where n: "run_state (nodeClient E R dep) s = (Inr (node, cli), u)"
    and b: "run_state (StreamBlob E (dr_OCI R) (fw_Image (ds_Firmware (d_Spec dep))) (dst_Digest (d_Status dep))) u = (Inr blob, v)"
    and w: "run_state (OTAWrite E cli (dst_DeploymentID (d_Status dep)) (dst_Digest (d_Status dep)) (dst_Size (d_Status dep)) blob) v
      = ((None, blob'), z)"
    and ok: "blob_Err blob' = None"
    using phaseWriting_needs [OF assms(1,2)] by metis
  note fresh = StreamBlob_fresh [OF b]
  have law: "device_law E cli (dst_DeploymentID (d_Status dep)) (dst_Digest (d_Status dep)) (dst_Size (d_Status dep)) stored"
    using assms(5) n by blast
  have last: "stored (world t) = stored (world z)"
    using phaseWriting_ends [OF n b w ok assms(1)] assms(6) by blast
  have st: "stored (world z) = take (nat (dst_Size (d_Status dep))) (bs_rest blob)"
    using wpD [OF OTAWrite_loop_stores [OF law order_refl _ assms(3,4), of blob "bs_rest blob" v]
      w [unfolded OTAWrite_def]] assms(3) by simp
  have "''sha256:'' @ xSHA256Hex E (stored (world z)) = dst_Digest (d_Status dep)"
    if "hb_eager (bs_body blob)" "hb_end (bs_body blob) = REOF" "list_all (\<lambda>x. x \<noteq> []) (hb_segs (bs_body blob))"
      "length (bs_rest blob) = nat (dst_Size (d_Status dep))"
  proof -
    have "bs_rest blob \<noteq> []" using that(4) assms(3) by auto
    from OTAWrite_detects [OF w _ assms(4) that(4) [symmetric] this] fresh that assms(3) ok st
    show ?thesis by simp
  qed
  with n b st show ?thesis unfolding last by blast
qed

text \<open>
  A device that stores the ranges of a firmware of three bytes, and a registry that serves \<open>abc\<close>; what
  the device stores is the world.
\<close>

definition bed_range :: "string \<Rightarrow> (int \<times> int) option" where
  "bed_range txt = find (\<lambda>(o1, fin). contentRange o1 fin 3 = txt) [(0, 0), (0, 1), (0, 2), (1, 1), (1, 2), (2, 2)]"

definition bed_store :: "http_request \<Rightarrow> string \<Rightarrow> (gerr + http_response) \<times> string" where
  "bed_store q held =
     (case (rq_Body q, Option.bind (map_of (rq_Headers q) ''Content-Range'') bed_range) of
        (BBytes bytes, Some (o1, fin)) \<Rightarrow>
          if aligned o1 held then (Inr (bed_ok ''{}''), take (nat o1) held @ bytes)
          else (Inr ((bed_ok held)\<lparr>rs_StatusCode := 416\<rparr>), held)
      | _ \<Rightarrow> (Inl (NetErr ''refused''), held))"

definition bed_device :: "string ext" where
  "bed_device = bedE\<lparr>kGetNode := (\<lambda>_ w. (Inr bed_node, w)),
     kGetSecret := (\<lambda>_ w. (Inr (bed_secret [''token'' \<mapsto> ''x'']), w)),
     hDo := (\<lambda>q w. if rq_Method q = ''GET'' then (Inr (bed_ok ''abc''), w) else bed_store q w),
     jWritten := (\<lambda>raw. int (length raw))\<rparr>"

lemma bed_digits: "dec 0 = ''0''" "dec 1 = ''1''" "dec 2 = ''2''" "dec 3 = ''3''"
  by (simp_all add: dec_def dec_nat.simps char_of_def bit_0)

lemma bed_range_eq:
  assumes "0 \<le> o1" "o1 \<le> fin" "fin < 3"
  shows "bed_range (contentRange o1 fin 3) = Some (o1, fin)"
proof -
  have "o1 = 0 \<and> fin = 0 \<or> o1 = 0 \<and> fin = 1 \<or> o1 = 0 \<and> fin = 2 \<or> o1 = 1 \<and> fin = 1 \<or> o1 = 1 \<and> fin = 2 \<or> o1 = 2 \<and> fin = 2"
    using assms by presburger
  then show ?thesis by (elim disjE) (simp_all add: bed_range_def contentRange_def bed_digits)
qed

lemma bed_store_put:
  assumes "0 \<le> o1" "o1 \<le> fin" "fin < 3"
  shows "bed_store (ota_request c depl dg o1 fin 3 bytes) held =
    (if aligned o1 held then (Inr (bed_ok ''{}''), take (nat o1) held @ bytes)
     else (Inr ((bed_ok held)\<lparr>rs_StatusCode := 416\<rparr>), held))"
  using bed_range_eq [OF assms] by (simp add: bed_store_def ota_request_def agent_request_def ota_headers_def)

text \<open>Any environment whose device works like this keeps the laws of the transfer.\<close>

lemma bed_store_laws:
  assumes put: "\<And>q w. rq_Method q = ''PUT'' \<Longrightarrow> rq_Timeout q = None \<Longrightarrow>
      fst (hDo E q w) = fst (bed_store q (stored w)) \<and> stored (snd (hDo E q w)) = snd (bed_store q (stored w))"
    and json: "\<And>raw. jWriteResult E raw = Inr (''written'', '''')" "\<And>raw. jWritten E raw = int (length raw)"
    and rq: "\<And>m u. hNewRequest E m u = None"
  shows "device_law E c depl dg 3 stored" "accepts_aligned E c depl dg 3 stored"
proof -
  have m: "rq_Method (ota_request c depl dg o1 fin tot bytes) = ''PUT''" "rq_Timeout (ota_request c depl dg o1 fin tot bytes) = None"
    for o1 fin tot bytes
    by (simp_all add: ota_request_def agent_request_def)
  show "device_law E c depl dg 3 stored"
    unfolding device_law_def
  proof (intro allI impI)
    fix o1 fin bytes w r w'
    assume "0 \<le> o1" "o1 \<le> fin" "fin < (3 :: int)" "hDo E (ota_request c depl dg o1 fin 3 bytes) w = (r, w')"
    then have r: "(r, stored w') = (if aligned o1 (stored w) then (Inr (bed_ok ''{}''), take (nat o1) (stored w) @ bytes)
        else (Inr ((bed_ok (stored w))\<lparr>rs_StatusCode := 416\<rparr>), stored w))"
      using put [OF m, of o1 fin 3 bytes w] by (simp add: bed_store_put)
    show "(stored w' = stored w \<or>
         aligned o1 (stored w) \<and> (\<exists>k. stored w' = take (nat o1) (stored w) @ take k bytes)) \<and>
        (range_accepted E r \<longrightarrow> aligned o1 (stored w) \<and> stored w' = take (nat o1) (stored w) @ bytes) \<and>
        (\<forall>rs raw. r = Inr rs \<longrightarrow> rs_StatusCode rs = 416 \<longrightarrow> readAll (rs_Body rs) = (raw, None) \<longrightarrow>
           \<not> aligned o1 (stored w) \<and> stored w' = stored w \<and> jWritten E raw = int (length (stored w)))"
    proof (cases "aligned o1 (stored w)")
      case True
      with r have "r = Inr (bed_ok ''{}'')" "stored w' = take (nat o1) (stored w) @ take (length bytes) bytes" by simp_all
      with True show ?thesis by (auto simp: bed_ok_def intro: exI [of _ "length bytes"])
    next
      case False
      with r have "r = Inr ((bed_ok (stored w))\<lparr>rs_StatusCode := 416\<rparr>)" "stored w' = stored w" by simp_all
      with False show ?thesis by (auto simp: bed_ok_def range_accepted_def readAll_def body_content_def json)
    qed
  qed
  show "accepts_aligned E c depl dg 3 stored"
    unfolding accepts_aligned_def
  proof (intro conjI allI impI rq)
    fix o1 fin bytes w
    assume "0 \<le> o1" "o1 \<le> fin" "fin < (3 :: int)" "aligned o1 (stored w)"
    then have "fst (hDo E (ota_request c depl dg o1 fin 3 bytes) w) = Inr (bed_ok ''{}'')"
      using put [OF m, of o1 fin 3 bytes w] by (simp add: bed_store_put)
    then show "range_accepted E (fst (hDo E (ota_request c depl dg o1 fin 3 bytes) w))"
      by (simp add: range_accepted_def json bed_ok_def readAll_def)
  qed
qed

lemma bed_device_laws: "device_law bed_device c depl dg 3 (\<lambda>w. w)" "accepts_aligned bed_device c depl dg 3 (\<lambda>w. w)"
  by (intro bed_store_laws; simp add: bed_device_def bedE_def)+

definition bed_blob :: blob_stream where
  "bed_blob = \<lparr>bs_body = \<lparr>hb_segs = [''abc''], hb_end = REOF, hb_eager = True\<rparr>, bs_hashed = [],
     bs_wantDigest = ''sha256:abc'', bs_read = 0, bs_mismatch = None\<rparr>"

lemma bed_read: "readFull bed_device 3 [] bed_blob =
  ((''abc'', None), bed_blob\<lparr>bs_body := \<lparr>hb_segs = [], hb_end = REOF, hb_eager = True\<rparr>, bs_hashed := ''abc'', bs_read := 3\<rparr>)"
  by (subst readFull.simps)
     (simp add: bed_blob_def blob_Read_def body_read_def bed_device_def bedE_def)

lemma bed_put: "run_state (putOTAChunk bed_device c depl dg ''abc'' 0 2 3) x =
  (None, x\<lparr>world := ''abc'', calls := calls x @ [(CHttp (ota_request c depl dg 0 2 3 ''abc''), True)]\<rparr>)"
proof -
  have "hNewRequest bed_device m u = None" "jWriteResult bed_device raw = Inr (''written'', '''')" for m u raw
    by (simp_all add: bed_device_def bedE_def)
  moreover have "hDo bed_device (agent_request c True ''PUT'' ''/ota/write'' (BBytes ''abc'') 3 (ota_headers depl dg 0 2 3)) w =
      (Inr (bed_ok ''{}''), ''abc'')" for w
    using bed_store_put [of 0 2 c depl dg "''abc''" w]
    by (simp add: ota_request_def bed_device_def agent_request_def aligned_def)
  ultimately show ?thesis
    by (simp add: putOTAChunk_def otaChunkMaxAttempts_def numeral_3_eq_3 doWith_def ext_call_def
        ota_request_def judge_response_def bed_ok_def readAll_def)
qed

lemma bed_write: "run_state (OTAWrite bed_device c depl dg 3 bed_blob) x =
  ((None, bed_blob\<lparr>bs_body := \<lparr>hb_segs = [], hb_end = REOF, hb_eager = True\<rparr>, bs_hashed := ''abc'', bs_read := 3\<rparr>),
   x\<lparr>world := ''abc'', calls := calls x @ [(CHttp (ota_request c depl dg 0 2 3 ''abc''), True)]\<rparr>)"
proof -
  have "chunk_end 0 3 = 2" "chunk_len 0 3 = 3" "i64 3 = 3"
    by (simp_all add: chunk_end_def chunk_len_def otaChunkSize_def i64_def)
  then show ?thesis
    unfolding OTAWrite_def
    by (subst OTAWrite_loop.simps) (simp add: otaChunkSize_def bed_read bed_put, subst OTAWrite_loop.simps, simp)
qed

lemma bed_parse: "parseRef ''reg/app:1'' = Inr \<lparr>ref_registry = ''reg'', ref_repo = ''app'', ref_tag = ''1''\<rparr>"
  using parseRef_tagged [of "''reg''" "''1''" "''app''"] by simp

lemma bed_stream: "\<exists>q. run_state (StreamBlob bed_device oc ''reg/app:1'' ''sha256:abc'') x =
  (Inr bed_blob, x\<lparr>calls := calls x @ [(CHttp q, True)]\<rparr>)"
proof -
  have "hNewRequest bed_device m u = None" for m u by (simp add: bed_device_def bedE_def)
  moreover have "hDo bed_device (oci_get url hs) w = (Inr (bed_ok ''abc''), w)" for url hs w
    by (simp add: bed_device_def oci_get_def)
  ultimately show ?thesis
    by (simp add: StreamBlob_def bed_parse Let_def ext_call_def bed_ok_def bed_blob_def) (rule exI, rule refl)
qed

definition bed_empty_device :: "string sys" where
  "bed_empty_device = bed_sys ''''"

lemma bed_writing_run: "\<exists>t. run_state (phaseWriting bed_device bed_R (bed_dep PhaseWriting)) (bed_empty_device) = (Inr res_requeue, t) \<and>
  (CPatchDeploymentStatus (bed_dep PhaseWriting) (phased_dep bed_device PhaseActivating ''node1'' '''' (bed_dep PhaseWriting)), True)
    \<in> set (drop (length (calls (bed_empty_device))) (calls t))"
proof -
  have cl: "run_state (nodeClient bed_device bed_R (bed_dep PhaseWriting)) (bed_empty_device) =
      (Inr (bed_node, bed_cli), bed_empty_device\<lparr>calls := bed_client_calls\<rparr>)"
    unfolding bed_empty_device_def by (rule bed_nodeClient_in) (simp_all add: bed_device_def bed_node_def)
  obtain q where st: "run_state (StreamBlob bed_device (dr_OCI bed_R) ''reg/app:1'' ''sha256:abc'') (bed_empty_device\<lparr>calls := bed_client_calls\<rparr>) =
      (Inr bed_blob, bed_empty_device\<lparr>calls := bed_client_calls @ [(CHttp q, True)]\<rparr>)"
    using bed_stream [of "dr_OCI bed_R" "bed_empty_device\<lparr>calls := bed_client_calls\<rparr>"] by auto
  have dep: "fw_Image (ds_Firmware (d_Spec (bed_dep PhaseWriting))) = ''reg/app:1''"
    "dst_Digest (d_Status (bed_dep PhaseWriting)) = ''sha256:abc''" "dst_Size (d_Status (bed_dep PhaseWriting)) = 3"
    by (simp_all add: bed_dep_def)
  have patch: "kPatchDeploymentStatus bed_device b d w = (Inr d, w)" for b d w
    by (simp add: bed_device_def bedE_def)
  have "bs_mismatch bed_blob = None" "calls bed_empty_device = []"
    by (simp_all add: bed_blob_def bed_empty_device_def)
  then show ?thesis
    by (simp add: phaseWriting_def cl st dep bed_write blob_Err_def emit_def setPhase_def
        setPhase_status_def ext_call_def patch)
qed

theorem written_firmware_is_stored_witness:
  "\<exists>t blob v. run_state (phaseWriting bed_device bed_R (bed_dep PhaseWriting)) bed_empty_device = (Inr res_requeue, t) \<and>
    run_state (StreamBlob bed_device (dr_OCI bed_R) ''reg/app:1'' ''sha256:abc'') (bed_empty_device\<lparr>calls := bed_client_calls\<rparr>) = (Inr blob, v) \<and>
    world t = take 3 (bs_rest blob)"
proof -
  obtain t where t: "run_state (phaseWriting bed_device bed_R (bed_dep PhaseWriting)) (bed_empty_device) = (Inr res_requeue, t)"
    "(CPatchDeploymentStatus (bed_dep PhaseWriting) (phased_dep bed_device PhaseActivating ''node1'' '''' (bed_dep PhaseWriting)), True)
      \<in> set (drop (length (calls (bed_empty_device))) (calls t))"
    using bed_writing_run by blast
  have dep: "fw_Image (ds_Firmware (d_Spec (bed_dep PhaseWriting))) = ''reg/app:1''"
    "dst_Digest (d_Status (bed_dep PhaseWriting)) = ''sha256:abc''" "dst_Size (d_Status (bed_dep PhaseWriting)) = 3"
    by (simp_all add: bed_dep_def)
  have cl: "run_state (nodeClient bed_device bed_R (bed_dep PhaseWriting)) (bed_empty_device) =
      (Inr (bed_node, bed_cli), bed_empty_device\<lparr>calls := bed_client_calls\<rparr>)"
    unfolding bed_empty_device_def by (rule bed_nodeClient_in) (simp_all add: bed_device_def bed_node_def)
  have "kPatchDeploymentStatus bed_device b d w = (Inr d, w)" for b d w
    by (simp add: bed_device_def bedE_def)
  then have "\<exists>node cli u blob v.
    run_state (nodeClient bed_device bed_R (bed_dep PhaseWriting)) bed_empty_device = (Inr (node, cli), u) \<and>
    run_state (StreamBlob bed_device (dr_OCI bed_R) (fw_Image (ds_Firmware (d_Spec (bed_dep PhaseWriting)))) (dst_Digest (d_Status (bed_dep PhaseWriting)))) u = (Inr blob, v) \<and>
    world t = take (nat (dst_Size (d_Status (bed_dep PhaseWriting)))) (bs_rest blob) \<and>
    (hb_eager (bs_body blob) \<and> hb_end (bs_body blob) = REOF \<and> list_all (\<lambda>x. x \<noteq> []) (hb_segs (bs_body blob)) \<and>
       length (bs_rest blob) = nat (dst_Size (d_Status (bed_dep PhaseWriting))) \<longrightarrow>
     ''sha256:'' @ xSHA256Hex bed_device (world t) = dst_Digest (d_Status (bed_dep PhaseWriting)))"
    by (intro written_firmware_is_stored [OF t, where stored = "\<lambda>w. w"]) (simp_all add: bed_device_laws dep)
  with t(1) show ?thesis unfolding dep cl by auto
qed

end
