(* ===== verification/Setup.thy ===== *)
theory Setup
  imports DeploymentController
begin

text \<open>
  \<open>cmd/controller/main.go\<close> and the registration of the two controllers: the command line, what flags
  and environment variables make of the components, the order in which they are registered with the
  manager and what stops the program, and the watches that wake the controllers. What the controller
  runtime answers at each step is an argument.
\<close>

section \<open>The command line\<close>

record main_flags =
  mf_metricsAddr :: string
  mf_probeAddr :: string
  mf_heartbeatAddr :: string
  mf_heartbeatCert :: string
  mf_heartbeatKey :: string
  mf_tokenSecret :: string
  mf_leaderElect :: bool

definition default_flags :: main_flags where
  "default_flags = \<lparr>mf_metricsAddr = '':8082'', mf_probeAddr = '':8083'', mf_heartbeatAddr = '':8080'',
     mf_heartbeatCert = '''', mf_heartbeatKey = '''', mf_tokenSecret = ''embewi-tokens'', mf_leaderElect = False\<rparr>"

definition set_string_flag :: "string \<Rightarrow> string \<Rightarrow> main_flags \<Rightarrow> main_flags option" where
  "set_string_flag name v fl =
     (if name = ''metrics-bind-address'' then Some (fl\<lparr>mf_metricsAddr := v\<rparr>)
      else if name = ''health-probe-address'' then Some (fl\<lparr>mf_probeAddr := v\<rparr>)
      else if name = ''heartbeat-address'' then Some (fl\<lparr>mf_heartbeatAddr := v\<rparr>)
      else if name = ''heartbeat-tls-cert'' then Some (fl\<lparr>mf_heartbeatCert := v\<rparr>)
      else if name = ''heartbeat-tls-key'' then Some (fl\<lparr>mf_heartbeatKey := v\<rparr>)
      else if name = ''token-secret'' then Some (fl\<lparr>mf_tokenSecret := v\<rparr>)
      else None)"

definition parseBool :: "string \<Rightarrow> bool option" where
  "parseBool v =
     (if v \<in> {''1'', ''t'', ''T'', ''TRUE'', ''true'', ''True''} then Some True
      else if v \<in> {''0'', ''f'', ''F'', ''FALSE'', ''false'', ''False''} then Some False
      else None)"

text \<open>The name of a flag argument and its value, if it has one; \<open>None\<close> for a bad flag.\<close>

definition split_flag :: "string \<Rightarrow> (string \<times> string option) option" where
  "split_flag arg =
     (let name = (if hasPrefix arg ''--'' then drop 2 arg else drop 1 arg) in
      if name = '''' \<or> hd name = CHR ''-'' \<or> hd name = CHR ''='' then None
      else (case index_of (CHR ''='') name of
              None \<Rightarrow> Some (name, None)
            | Some i \<Rightarrow> Some (take i name, Some (drop (Suc i) name))))"

text \<open>
  \<open>flag.Parse\<close>: the flags, or the exit code. \<open>lib\<close> are the (string-valued) flags that libraries
  register, such as the controller runtime's \<open>kubeconfig\<close>.
\<close>

function parse_flags :: "string list \<Rightarrow> string list \<Rightarrow> main_flags \<Rightarrow> int + main_flags" where
  "parse_flags lib [] fl = Inr fl"
| "parse_flags lib (arg # args) fl =
     (if length arg < 2 \<or> hd arg \<noteq> CHR ''-'' \<or> arg = ''--'' then Inr fl
      else (case split_flag arg of
        None \<Rightarrow> Inl 2
      | Some (name, value) \<Rightarrow>
          if name = ''leader-elect'' then
            (case parseBool (case value of None \<Rightarrow> ''true'' | Some v \<Rightarrow> v) of
               None \<Rightarrow> Inl 2
             | Some b \<Rightarrow> parse_flags lib args (fl\<lparr>mf_leaderElect := b\<rparr>))
          else if name \<notin> set lib \<and> set_string_flag name '''' fl = None then
            Inl (if name = ''help'' \<or> name = ''h'' then 0 else 2)
          else (case (value, args) of
                  (None, []) \<Rightarrow> Inl 2
                | (None, v # rest) \<Rightarrow>
                    parse_flags lib rest (case set_string_flag name v fl of None \<Rightarrow> fl | Some fl' \<Rightarrow> fl')
                | (Some v, _) \<Rightarrow>
                    parse_flags lib args (case set_string_flag name v fl of None \<Rightarrow> fl | Some fl' \<Rightarrow> fl'))))"
  by pat_completeness auto
termination
  by (relation "measure (\<lambda>(lib, args, fl). length args)") auto

section \<open>The scheme\<close>

text \<open>\<open>groupversion_info.go\<close>: the group and version of the resources.\<close>

record group_version =
  gv_Group :: string
  gv_Version :: string

definition GroupVersion :: group_version where
  "GroupVersion = \<lparr>gv_Group = ''embewi.io'', gv_Version = ''v1alpha1''\<rparr>"

text \<open>The types the three \<open>init\<close> functions register in the scheme under that group and version.\<close>

definition registered_nodes :: "string list" where
  "registered_nodes = [''McuNode'', ''McuNodeList'']"

definition registered_deployments :: "string list" where
  "registered_deployments = [''McuDeployment'', ''McuDeploymentList'']"

definition registered_configmaps :: "string list" where
  "registered_configmaps = [''McuConfigMap'', ''McuConfigMapList'']"

text \<open>
  \<open>SchemeBuilder\<close> collects them, in the order of the files of the package, and \<open>main\<close> adds four groups of
  types to the scheme it gives to the manager. What the builder of the controller runtime does with the
  list is not modelled.
\<close>

record scheme_builder =
  sb_GroupVersion :: group_version
  sb_types :: "string list"

definition SchemeBuilder :: scheme_builder where
  "SchemeBuilder = \<lparr>sb_GroupVersion = GroupVersion,
     sb_types = registered_configmaps @ registered_deployments @ registered_nodes\<rparr>"

datatype scheme_part = ClientGoScheme | CoreV1 | DiscoveryV1 | V1alpha1 scheme_builder

definition init_scheme :: "scheme_part list" where
  "init_scheme = [ClientGoScheme, CoreV1, DiscoveryV1, V1alpha1 SchemeBuilder]"

section \<open>The components\<close>

text \<open>The options of the OCI client; \<open>getenv\<close> is \<open>os.Getenv\<close>, empty for a variable that is not set.\<close>

definition basic_auth_options :: "(string \<Rightarrow> string) \<Rightarrow> oci_option list" where
  "basic_auth_options getenv =
     (if getenv ''OCI_REGISTRY_USER'' \<noteq> ''''
      then [WithBasicAuth (getenv ''OCI_REGISTRY_USER'') (getenv ''OCI_REGISTRY_PASS'')] else [])"

definition tls_options :: "(string \<Rightarrow> string) \<Rightarrow> oci_option list" where
  "tls_options getenv = (if getenv ''OCI_INSECURE_TLS'' = ''true'' then [WithInsecureTLS] else [])"

definition oci_options :: "'w ext \<Rightarrow> (string \<Rightarrow> string) \<Rightarrow> string + oci_option list" where
  "oci_options E getenv =
     (let opts = basic_auth_options getenv @ tls_options getenv;
          pubKeyB64 = getenv ''OCI_TRUSTED_PUBLIC_KEY'' in
      if pubKeyB64 = '''' then Inr opts
      else (case xBase64Decode E pubKeyB64 of
              None \<Rightarrow> Inl ''OCI_TRUSTED_PUBLIC_KEY invalide (attendu : 32 octets Ed25519 en base64)''
            | Some pubKey \<Rightarrow>
                if length pubKey \<noteq> 32
                then Inl ''OCI_TRUSTED_PUBLIC_KEY invalide (attendu : 32 octets Ed25519 en base64)''
                else Inr (opts @ [WithTrustedPublicKey (Some pubKey)])))"

text \<open>The deployment reconciler and the heartbeat server that \<open>main\<close> registers.\<close>

definition wire_reconciler :: "oci_option list \<Rightarrow> string \<Rightarrow> dep_reconciler" where
  "wire_reconciler opts tokenSecret = \<lparr>dr_OCI = oci_New opts, dr_TokenSecret = tokenSecret\<rparr>"

definition wire_server :: "main_flags \<Rightarrow> hb_server" where
  "wire_server flags = (hb_New (mf_heartbeatAddr flags))\<lparr>hs_TLSCertFile := mf_heartbeatCert flags,
     hs_TLSKeyFile := mf_heartbeatKey flags, hs_TokenSecret := mf_tokenSecret flags, hs_Recorder := True\<rparr>"

section \<open>The watches\<close>

text \<open>
  \<open>SetupWithManager\<close>: the requests each controller gets when an object of the cluster changes; \<open>For\<close>
  enqueues the object itself.
\<close>

datatype watch_event =
    EvNode mcunode
  | EvDeployment mcudeployment
  | EvConfigMap mcuconfigmap

fun node_requests :: "watch_event \<Rightarrow> obj_key list" where
  "node_requests (EvNode node) = [obj_key_of (n_Meta node)]"
| "node_requests _ = []"

fun deployment_requests :: "'w ext \<Rightarrow> watch_event \<Rightarrow> ('w sys, obj_key list) state" where
  "deployment_requests E (EvDeployment dep) = ret [obj_key_of (d_Meta dep)]"
| "deployment_requests E (EvNode node) = nodeToDeployments E node"
| "deployment_requests E (EvConfigMap cm) = configMapToDeployments E cm"

section \<open>The start\<close>

text \<open>What the manager answers, \<open>None\<close> for success.\<close>

record manager =
  mg_New :: "gerr option"
  mg_SetupNode :: "gerr option"
  mg_SetupDeployment :: "gerr option"
  mg_AddServer :: "gerr option"
  mg_Healthz :: "gerr option"
  mg_Readyz :: "gerr option"
  mg_Start :: "gerr option"

datatype main_step =
    NewManager "scheme_part list" string string bool string
  | NodeController
  | DeploymentController dep_reconciler
  | HeartbeatServer hb_server
  | HealthzCheck string
  | ReadyzCheck string
  | Started

record main_result =
  mr_done :: "main_step list"
  mr_exit :: int
  mr_logged :: "string option"

text \<open>Each step is taken if the one before succeeded; the first that fails is logged and ends the program.\<close>

fun run_steps :: "main_step list \<Rightarrow> (main_step \<times> gerr option \<times> string) list \<Rightarrow> main_result" where
  "run_steps taken [] = \<lparr>mr_done = taken, mr_exit = 0, mr_logged = None\<rparr>"
| "run_steps taken ((st, err, msg) # rest) =
     (case err of
        Some _ \<Rightarrow> \<lparr>mr_done = taken, mr_exit = 1, mr_logged = Some msg\<rparr>
      | None \<Rightarrow> run_steps (taken @ [st]) rest)"

definition new_manager :: "main_flags \<Rightarrow> main_step" where
  "new_manager fl = NewManager init_scheme (mf_metricsAddr fl) (mf_probeAddr fl) (mf_leaderElect fl) ''embewi-core-leader''"

definition start_main ::
  "'w ext \<Rightarrow> manager \<Rightarrow> (string \<Rightarrow> string) \<Rightarrow> main_flags \<Rightarrow> main_result" where
  "start_main E M getenv fl =
     (case mg_New M of
        Some _ \<Rightarrow> \<lparr>mr_done = [], mr_exit = 1, mr_logged = Some ''NewManager failed''\<rparr>
      | None \<Rightarrow>
          (case oci_options E getenv of
             Inl msg \<Rightarrow> \<lparr>mr_done = [new_manager fl], mr_exit = 1, mr_logged = Some msg\<rparr>
           | Inr opts \<Rightarrow> run_steps [new_manager fl]
               [(NodeController, mg_SetupNode M, ''McuNodeReconciler setup failed''),
                (DeploymentController (wire_reconciler opts (mf_tokenSecret fl)), mg_SetupDeployment M,
                 ''McuDeploymentReconciler setup failed''),
                (HeartbeatServer (wire_server fl), mg_AddServer M, ''heartbeat server add failed''),
                (HealthzCheck ''healthz'', mg_Healthz M, ''healthz check failed''),
                (ReadyzCheck ''readyz'', mg_Readyz M, ''readyz check failed''),
                (Started, mg_Start M, ''manager exited with error'')]))"

definition main_run ::
  "'w ext \<Rightarrow> manager \<Rightarrow> string list \<Rightarrow> (string \<Rightarrow> string) \<Rightarrow> string list \<Rightarrow> main_result" where
  "main_run E M lib getenv args =
     (case parse_flags lib args default_flags of
        Inl code \<Rightarrow> \<lparr>mr_done = [], mr_exit = code, mr_logged = None\<rparr>
      | Inr fl \<Rightarrow> start_main E M getenv fl)"

section \<open>The client that results\<close>

lemma oci_New_trusted [simp]: "oc_TrustedPubKey (oci_New (opts @ [WithTrustedPublicKey k])) = k"
  by (simp add: oci_New_def)

lemma run_steps_done: "st \<in> set (mr_done (run_steps taken steps)) \<Longrightarrow> st \<in> set taken \<or> st \<in> fst ` set steps"
  by (induction taken steps rule: run_steps.induct) (auto split: option.splits)

lemma main_run_wired:
  assumes "DeploymentController R \<in> set (mr_done (main_run E M lib getenv args))"
  obtains fl opts where "parse_flags lib args default_flags = Inr fl" "oci_options E getenv = Inr opts"
    "R = wire_reconciler opts (mf_tokenSecret fl)"
  using assms by (auto simp: main_run_def start_main_def new_manager_def split: sum.splits option.splits
      dest!: run_steps_done)

lemma main_run_server:
  assumes "HeartbeatServer srv \<in> set (mr_done (main_run E M lib getenv args))"
  obtains fl where "parse_flags lib args default_flags = Inr fl" "srv = wire_server fl"
  using assms by (auto simp: main_run_def start_main_def new_manager_def split: sum.splits option.splits
      dest!: run_steps_done)

lemma main_run_key:
  assumes "DeploymentController R \<in> set (mr_done (main_run E M lib getenv args))"
    "getenv ''OCI_TRUSTED_PUBLIC_KEY'' \<noteq> ''''"
  obtains key where "xBase64Decode E (getenv ''OCI_TRUSTED_PUBLIC_KEY'') = Some key" "length key = 32"
    "oc_TrustedPubKey (dr_OCI R) = Some key"
  using assms(2) by (rule_tac main_run_wired [OF assms(1)])
    (auto simp: oci_options_def Let_def wire_reconciler_def split: option.splits if_splits simp flip: append_assoc)

section \<open>Which token is used\<close>

text \<open>
  The two ends of the authentication: the controller presents to a device the token it finds under a
  reference, the heartbeat server compares what the device presents with the token under its own
  reference. They agree if both are derived from the same central Secret name.
\<close>

locale token_store =
  fixes client_ref server_ref :: "mcunode \<Rightarrow> obj_key \<times> string"
  assumes same_ref: "client_ref node = server_ref node"
begin

lemma presented_token_accepted:
  assumes "client_ref node = (key, field)" "data field = Some tok"
  shows "server_ref node = (key, field) \<and> check_token data field (trimSpace tok) = tokenMatchCurrent"
  using assms same_ref [of node] by (auto simp: check_token_def)

lemma accepted_token_stored:
  assumes "server_ref node = (key, field)" "check_token data field provided = tokenMatchCurrent"
  shows "\<exists>tok. client_ref node = (key, field) \<and> data field = Some tok \<and> trimSpace tok = provided"
  using assms same_ref [of node] by (auto simp: check_token_def split: if_splits)

end

interpretation wired: token_store "nodeTokenRef (wire_reconciler opts (mf_tokenSecret flags))"
    "resolveTokenSecret (wire_server flags)" for opts flags
  by unfold_locales
    (simp add: nodeTokenRef_def resolveTokenSecret_def wire_reconciler_def wire_server_def hb_New_def Let_def)

section \<open>How the server is reached\<close>

text \<open>
  The server of a run of the program listens where \<open>--heartbeat-address\<close> says. It speaks TLS only if both
  \<open>--heartbeat-tls-cert\<close> and \<open>--heartbeat-tls-key\<close> are given: with one of them alone, it serves the tokens
  of the devices in the clear, and says so only in its log.
\<close>

lemma server_of_run:
  assumes "HeartbeatServer srv \<in> set (mr_done (main_run E M lib getenv args))"
  obtains fl where "parse_flags lib args default_flags = Inr fl" "hs_addr srv = mf_heartbeatAddr fl"
    "serve_mode srv = (if mf_heartbeatCert fl \<noteq> '''' \<and> mf_heartbeatKey fl \<noteq> ''''
       then ServeTLS (mf_heartbeatCert fl) (mf_heartbeatKey fl) else ServePlain)"
proof (rule main_run_server [OF assms])
  fix fl assume "parse_flags lib args default_flags = Inr fl" "srv = wire_server fl"
  then show thesis by (intro that [of fl]) (simp_all add: wire_server_def hb_New_def serve_mode_def)
qed

lemma hb_Start_fails:
  "fst (run_state (hb_Start N srv) s) = Some err \<Longrightarrow>
     hn_Listen N (hs_addr srv) \<noteq> None \<or> serve_mode srv = ServePlain \<and> hn_Serve N (hb_http_server srv) = Some err \<or>
     (\<exists>cert key. serve_mode srv = ServeTLS cert key \<and> hn_ServeTLS N (hb_http_server srv) cert key = Some err)"
  by (auto simp: hb_Start_def emit_def split: option.splits serve_mode.splits)

end
