(* ===== verification/TransferProps.thy ===== *)
theory TransferProps
  imports DeploymentProps Setup
begin

text \<open>
  The properties of the firmware transfer and of the OCI client, with examples on the environment of
  \<open>TestBed\<close>.
\<close>

section \<open>The transfer\<close>

text \<open>
  Every request of a firmware transfer is a \<open>PUT /ota/write\<close> whose \<open>Content-Range\<close> lies within the
  announced size, spans at most 64 KiB, and whose body is exactly that slice of the blob, also after
  retries and resynchronisations.
\<close>

theorem transfer_sends_slices:
  assumes "tot < 2 ^ 63 - 65536"
  shows "emits (\<lambda>(k, _). \<exists>o1 fin. 0 \<le> o1 \<and> o1 \<le> fin \<and> fin < tot \<and> fin - o1 < 65536 \<and>
      nat fin < length (bs_rest fw) \<and>
      k = CHttp (ota_request c depl dg o1 fin tot (take (nat (fin - o1 + 1)) (drop (nat o1) (bs_rest fw)))))
    (OTAWrite E c depl dg tot fw)"
proof -
  have "emits (\<lambda>(k, _). ota_put c depl dg (bs_rest fw) tot k) (OTAWrite E c depl dg tot fw)"
    unfolding OTAWrite_def using assms by (intro OTAWrite_loop_emits) simp_all
  then show ?thesis
  proof (rule emits_mono)
    fix c' assume "case c' of (k, _) \<Rightarrow> ota_put c depl dg (bs_rest fw) tot k"
    then obtain k x o1 fin where k: "c' = (k, x)" "0 \<le> o1" "o1 \<le> fin" "fin < tot" "fin - o1 < 65536"
      "length (slice (bs_rest fw) o1 fin) = nat (fin - o1 + 1)"
      "k = CHttp (ota_request c depl dg o1 fin tot (slice (bs_rest fw) o1 fin))"
      by (cases c') (auto simp: ota_put_def)
    then have "nat fin < length (bs_rest fw)" by (simp add: slice_def min_def split: if_splits)
    with k show "case c' of (k, _) \<Rightarrow> \<exists>o1 fin. 0 \<le> o1 \<and> o1 \<le> fin \<and> fin < tot \<and> fin - o1 < 65536 \<and>
      nat fin < length (bs_rest fw) \<and>
      k = CHttp (ota_request c depl dg o1 fin tot (take (nat (fin - o1 + 1)) (drop (nat o1) (bs_rest fw))))"
      unfolding slice_def by auto
  qed
qed

theorem transfer_sends_slices_witness:
  "emits (\<lambda>(k, _). \<exists>o1 fin. 0 \<le> o1 \<and> o1 \<le> fin \<and> fin < 3 \<and> fin - o1 < 65536 \<and>
      nat fin < length (bs_rest bed_blob) \<and>
      k = CHttp (ota_request bed_cli ''dep1'' ''sha256:abc'' o1 fin 3
        (take (nat (fin - o1 + 1)) (drop (nat o1) (bs_rest bed_blob)))))
    (OTAWrite bed_device bed_cli ''dep1'' ''sha256:abc'' 3 bed_blob)"
  by (rule transfer_sends_slices) simp

text \<open>
  C29: A transfer ends after at most three requests for each started block of 64 KiB, whatever the
  network and the device answer.
\<close>

theorem transfer_bounded:
  assumes "0 \<le> tot" "tot < 2 ^ 63 - 65536" "run_state (OTAWrite E c depl dg tot fw) s = (r, t)"
  shows "int (length (calls t)) \<le> int (length (calls s)) + 3 * ((tot + 65535) div 65536)"
  using wpD [OF OTAWrite_loop_count [OF order_refl assms(2)] assms(3) [unfolded OTAWrite_def]] assms(1)
  by (simp add: max_def)

theorem transfer_bounded_witness:
  "int (length (calls (snd (run_state (OTAWrite bed_device bed_cli ''dep1'' ''sha256:abc'' 3 bed_blob) bed_empty_device)))) \<le> 3"
  using transfer_bounded [OF _ _ bed_write, where c = bed_cli and depl = "''dep1''" and dg = "''sha256:abc''" and s = bed_empty_device]
  by (simp add: bed_write bed_empty_device_def)

text \<open>
  C8: A transfer that returns no error leaves on a device that follows the protocol exactly the first
  \<open>tot\<close> bytes of the blob, whatever the device stored before and however often requests or answers
  were lost.
\<close>

theorem transfer_stores_content:
  assumes "device_law E c depl dg tot stored" "0 < tot" "tot < 2 ^ 63 - 65536"
    and "run_state (OTAWrite E c depl dg tot fw) s = ((None, fw'), t)"
  shows "stored (world t) = take (nat tot) (bs_rest fw)"
  using wpD [OF OTAWrite_loop_stores [OF assms(1) order_refl _ assms(2,3), of fw "bs_rest fw" s] assms(4) [unfolded OTAWrite_def]] assms(2)
  by simp

theorem transfer_stores_content_witness:
  "world (snd (run_state (OTAWrite bed_device bed_cli ''dep1'' ''sha256:abc'' 3 bed_blob) (bed_sys ''old''))) =
     take (nat 3) (bs_rest bed_blob)"
  using transfer_stores_content [OF bed_device_laws(1) _ _ bed_write, where c = bed_cli and depl = "''dep1''" and dg = "''sha256:abc''" and s = "bed_sys ''old''"]
  by (simp add: bed_write)

text \<open>
  A transfer to a device that follows the protocol and confirms every range it can place returns no
  error as soon as the blob has the announced number of bytes, whatever the device stored before.
\<close>

theorem transfer_succeeds:
  assumes "device_law E c depl dg tot stored" "accepts_aligned E c depl dg tot stored"
    and "tot < 2 ^ 63 - 65536" "nat tot \<le> length (bs_rest fw)"
  shows "fst (fst (run_state (OTAWrite E c depl dg tot fw) s)) = None"
  using OTAWrite_loop_live [OF assms(1,2) order_refl assms(3), of fw "bs_rest fw" s] assms(4)
  by (simp add: OTAWrite_def wp_fst [where P = "\<lambda>r. fst r = None"])

theorem transfer_succeeds_witness:
  "fst (fst (run_state (OTAWrite bed_device bed_cli ''dep1'' ''sha256:abc'' 3 bed_blob) (bed_sys ''old''))) = None"
  by (rule transfer_succeeds [OF bed_device_laws]) (simp_all add: bs_rest_def bed_blob_def body_content_def)

text \<open>
  C30: When the registry's stream announces its end together with the last bytes, and the blob has the
  announced size, a transfer without error is followed by a digest mismatch exactly when the content
  does not have the expected SHA-256.
\<close>

theorem mismatch_detected:
  assumes "run_state (StreamBlob E oc img dg) s = (Inr fw, u)"
    and "run_state (OTAWrite E c depl dg tot fw) v = ((None, fw'), t)"
    and "0 < tot" "tot < 2 ^ 63 - 65536" "length (bs_rest fw) = nat tot"
    and "hb_eager (bs_body fw)" "hb_end (bs_body fw) = REOF" "list_all (\<lambda>x. x \<noteq> []) (hb_segs (bs_body fw))"
  shows "blob_Err fw' = None \<longleftrightarrow> ''sha256:'' @ xSHA256Hex E (bs_rest fw) = dg"
proof -
  have "bs_rest fw \<noteq> []" using assms(3,5) by auto
  then show ?thesis
    using OTAWrite_detects [OF assms(2) _ assms(4) assms(5) [symmetric]] StreamBlob_fresh [OF assms(1)] assms
    by simp
qed

theorem mismatch_detected_witness:
  "blob_Err (snd (fst (run_state (OTAWrite bed_device bed_cli ''dep1'' ''sha256:abc'' 3 bed_blob) bed_empty_device))) = None \<longleftrightarrow>
     ''sha256:'' @ xSHA256Hex bed_device (bs_rest bed_blob) = ''sha256:abc''"
proof -
  obtain q where "run_state (StreamBlob bed_device (dr_OCI bed_R) ''reg/app:1'' ''sha256:abc'') bed_empty_device =
      (Inr bed_blob, bed_empty_device\<lparr>calls := calls bed_empty_device @ [(CHttp q, True)]\<rparr>)"
    using bed_stream [of "dr_OCI bed_R" bed_empty_device] by blast
  moreover have "bs_rest bed_blob = ''abc''" "bs_body bed_blob = \<lparr>hb_segs = [''abc''], hb_end = REOF, hb_eager = True\<rparr>"
    by (simp_all add: bs_rest_def bed_blob_def body_content_def)
  ultimately show ?thesis
    using mismatch_detected [OF _ bed_write] by (simp add: bed_write)
qed

text \<open>
  When the stream reports its end only on a further read, as a response without a known length
  does, no transfer ever reports a mismatch: the blob has been read up to its last byte, the check in
  \<open>Read\<close> has not run, and a corrupt or truncated prefix goes on to activation.
\<close>

theorem mismatch_missed:
  assumes "run_state (StreamBlob E oc img dg) s = (Inr fw, u)"
    and "run_state (OTAWrite E c depl dg tot fw) v = ((None, fw'), t)"
    and "0 \<le> tot" "tot < 2 ^ 63 - 65536" "\<not> hb_eager (bs_body fw)"
  shows "blob_Err fw' = None"
  using OTAWrite_unchecked [OF assms(2-4) _ assms(5)] StreamBlob_fresh [OF assms(1)] by simp

text \<open>The content \<open>abc\<close> against another digest.\<close>

definition bed_lazy :: "string ext" where
  "bed_lazy = bed_device\<lparr>hDo := (\<lambda>q w. if rq_Method q = ''GET''
     then (Inr \<lparr>rs_StatusCode = 200, rs_Body = \<lparr>hb_segs = [''abc''], hb_end = REOF, hb_eager = False\<rparr>\<rparr>, w)
     else bed_store q w)\<rparr>"

definition bed_lazy_blob :: blob_stream where
  "bed_lazy_blob = \<lparr>bs_body = \<lparr>hb_segs = [''abc''], hb_end = REOF, hb_eager = False\<rparr>, bs_hashed = [],
     bs_wantDigest = ''sha256:xyz'', bs_read = 0, bs_mismatch = None\<rparr>"

theorem mismatch_missed_witness:
  "\<exists>fw'. fst (run_state (OTAWrite bed_lazy bed_cli ''dep1'' ''sha256:xyz'' 3 bed_lazy_blob) (bed_sys '''')) = (None, fw') \<and>
     ''sha256:'' @ xSHA256Hex bed_lazy (bs_rest bed_lazy_blob) \<noteq> ''sha256:xyz'' \<and> blob_Err fw' = None"
proof -
  have h: "hNewRequest bed_lazy m u = None" for m u by (simp add: bed_lazy_def bed_device_def bedE_def)
  have st: "run_state (StreamBlob bed_lazy (dr_OCI bed_R) ''reg/app:1'' ''sha256:xyz'') (bed_sys '''') =
      (Inr bed_lazy_blob, snd (run_state (StreamBlob bed_lazy (dr_OCI bed_R) ''reg/app:1'' ''sha256:xyz'') (bed_sys '''')))"
    by (simp add: StreamBlob_def bed_parse Let_def ext_call_def h bed_lazy_blob_def) (simp add: bed_lazy_def oci_get_def)
  have laws: "device_law bed_lazy bed_cli ''dep1'' ''sha256:xyz'' 3 (\<lambda>w. w)"
    "accepts_aligned bed_lazy bed_cli ''dep1'' ''sha256:xyz'' 3 (\<lambda>w. w)"
    by (intro bed_store_laws; simp add: bed_lazy_def bed_device_def bedE_def)+
  have len: "nat 3 \<le> length (bs_rest bed_lazy_blob)"
    by (simp add: bs_rest_def bed_lazy_blob_def body_content_def)
  have "fst (fst (run_state (OTAWrite bed_lazy bed_cli ''dep1'' ''sha256:xyz'' 3 bed_lazy_blob) (bed_sys ''''))) = None"
    using OTAWrite_loop_live [OF laws order_refl _ _ len, of bed_lazy_blob "bed_sys ''''"]
    by (simp add: OTAWrite_def wp_fst [where P = "\<lambda>r. fst r = None"])
  then obtain fw' t where w: "run_state (OTAWrite bed_lazy bed_cli ''dep1'' ''sha256:xyz'' 3 bed_lazy_blob) (bed_sys '''') = ((None, fw'), t)"
    by (metis prod.collapse)
  have "blob_Err fw' = None"
    by (rule mismatch_missed [OF st w]) (simp_all add: bed_lazy_blob_def)
  moreover have "''sha256:'' @ xSHA256Hex bed_lazy (bs_rest bed_lazy_blob) \<noteq> ''sha256:xyz''"
    by (simp add: bed_lazy_def bed_device_def bedE_def bs_rest_def bed_lazy_blob_def body_content_def)
  ultimately show ?thesis using w by simp
qed

text \<open>
  A firmware whose announced size is not positive is never sent: the run of Writing makes no request
  to the device and moves on to Activating all the same.
\<close>

theorem empty_firmware_activates:
  assumes "run_state (nodeClient E R dep) s = (Inr (node, cli), u)"
    and "run_state (StreamBlob E (dr_OCI R) (fw_Image (ds_Firmware (d_Spec dep))) (dst_Digest (d_Status dep))) u = (Inr blob, v)"
    and "dst_Size (d_Status dep) \<le> 0"
  shows "\<exists>t r msg ok. run_state (phaseWriting E R dep) s = (r, t) \<and>
    calls t = calls v @ [(CEvent (obj_key_of (d_Meta dep)) ''Normal'' ''OTAWritten'' msg, True),
      (CPatchDeploymentStatus dep (phased_dep E PhaseActivating (dst_BoundNode (d_Status dep)) '''' dep), ok)]"
proof -
  have "blob_Err blob = None" using StreamBlob_fresh [OF assms(2)] by (simp add: blob_Err_def)
  with assms show ?thesis
    by (auto simp: phaseWriting_def OTAWrite_empty emit_def setPhase_def setPhase_status_def ext_call_def
        split: prod.splits sum.splits)
qed

definition bed_zero :: mcudeployment where
  "bed_zero = upd_dstatus (\<lambda>st. st\<lparr>dst_Size := 0\<rparr>) (bed_dep PhaseWriting)"

theorem empty_firmware_activates_witness:
  "\<exists>t r msg ok b. run_state (phaseWriting bed_device bed_R bed_zero) bed_empty_device = (r, t) \<and>
    drop 3 (calls t) = [(CEvent (obj_key_of (d_Meta bed_zero)) ''Normal'' ''OTAWritten'' msg, True),
      (CPatchDeploymentStatus bed_zero b, ok)] \<and> phase_of b = PhaseActivating"
proof -
  have cl: "run_state (nodeClient bed_device bed_R bed_zero) bed_empty_device =
      (Inr (bed_node, bed_cli), bed_empty_device\<lparr>calls := bed_client_calls\<rparr>)"
    unfolding bed_empty_device_def
    by (rule bed_nodeClient_in) (simp_all add: bed_device_def bed_node_def bed_zero_def)
  obtain q where st: "run_state (StreamBlob bed_device (dr_OCI bed_R) ''reg/app:1'' ''sha256:abc'') (bed_empty_device\<lparr>calls := bed_client_calls\<rparr>) =
      (Inr bed_blob, bed_empty_device\<lparr>calls := bed_client_calls @ [(CHttp q, True)]\<rparr>)"
    using bed_stream [of "dr_OCI bed_R" "bed_empty_device\<lparr>calls := bed_client_calls\<rparr>"] by auto
  have "fw_Image (ds_Firmware (d_Spec bed_zero)) = ''reg/app:1''" "dst_Digest (d_Status bed_zero) = ''sha256:abc''"
    "dst_Size (d_Status bed_zero) \<le> 0"
    by (simp_all add: bed_zero_def bed_dep_def)
  with empty_firmware_activates [OF cl] st show ?thesis
    by (fastforce simp: bed_client_calls_def)
qed

section \<open>Images\<close>

definition signed_by :: "'w ext \<Rightarrow> 'w \<Rightarrow> string \<Rightarrow> string \<Rightarrow> bool" where
  "signed_by E w0 key digest \<longleftrightarrow>
    (\<exists>q rs w m l s64 sig. hDo E q w0 = (Inr rs, w) \<and> rs_StatusCode rs = 200 \<and>
      jManifest E (rs_Body rs) = Inr m \<and> l \<in> set (ma_Layers m) \<and> digest = de_Digest l \<and>
      ma_Annotations m signatureAnnotation = Some s64 \<and> xBase64Decode E s64 = Some sig \<and>
      xEd25519Verify E key digest sig)"

lemma phasePulling_signed:
  assumes "run_state (phasePulling E R dep) s = (r, t)"
    and "(CPatchDeploymentStatus b d, ok) \<in> set (drop (length (calls s)) (calls t))"
    and "oc_TrustedPubKey (dr_OCI R) = Some key"
  shows "signed_by E (world s) key (dst_Digest (d_Status d))"
proof -
  obtain mr u where res: "run_state (ResolveFirmware E (dr_OCI R) (fw_Image (ds_Firmware (d_Spec dep)))) s = (mr, u)"
    by (metis surj_pair)
  have quiet: "emits (\<lambda>c. \<forall>b d. fst c \<noteq> CPatchDeploymentStatus b d)
      (ResolveFirmware E (dr_OCI R) (fw_Image (ds_Firmware (d_Spec dep))))"
    by (intro emits_intros) simp
  show ?thesis
  proof (cases mr)
    case (Inl e)
    with res assms(1) have "t = u" by (auto simp: phasePulling_def)
    with emits_new [OF quiet res] assms(2) show ?thesis by fastforce
  next
    case (Inr meta)
    obtain m rq rs w where m: "hDo E rq (world s) = (Inr rs, w)" "rs_StatusCode rs = 200"
      "jManifest E (rs_Body rs) = Inr m" "resolve_manifest E (dr_OCI R) (fw_Image (ds_Firmware (d_Spec dep))) m = Inr meta"
      "u = s\<lparr>world := w, calls := calls s @ [(CHttp rq, True)]\<rparr>"
      using ResolveFirmware_run [OF res [unfolded Inr]] by metis
    from m(4) obtain l where l: "select_layer (ma_Layers m) = Some l" "fm_Digest meta = de_Digest l"
      "verifySignature E (dr_OCI R) (ma_Annotations m) (de_Digest l) = None"
      by (auto simp: resolve_manifest_ok firmwareMetaFromLayer_def Let_def)
    have "l \<in> set (ma_Layers m)"
      using l(1) by (auto simp: select_layer_def find_firmware_layer_find find_Some_iff split: option.splits list.splits)
    moreover have "d = pulled_status E dep meta"
      using assms(1,2) res Inr m(5) by (auto simp: phasePulling_def ext_call_def split: prod.splits sum.splits)
    ultimately show ?thesis
      using m l assms(3) by (fastforce simp: signed_by_def verifySignature_ok pulled_status_def)
  qed
qed

text \<open>
  With a trusted key configured, a deployment leaves Pulling only with a digest that the manifest
  served by the registry names as a layer and that carries a valid Ed25519 signature of that key.
\<close>

theorem pulled_digest_is_signed:
  assumes "run_state (phasePulling E R dep) s = (r, t)"
    and "(CPatchDeploymentStatus b d, ok) \<in> set (drop (length (calls s)) (calls t))"
    and "oc_TrustedPubKey (dr_OCI R) = Some key"
  shows "\<exists>q rs w m l s64 sig. hDo E q (world s) = (Inr rs, w) \<and> rs_StatusCode rs = 200 \<and>
    jManifest E (rs_Body rs) = Inr m \<and> l \<in> set (ma_Layers m) \<and> dst_Digest (d_Status d) = de_Digest l \<and>
    ma_Annotations m signatureAnnotation = Some s64 \<and> xBase64Decode E s64 = Some sig \<and>
    xEd25519Verify E key (dst_Digest (d_Status d)) sig"
  using phasePulling_signed [OF assms] unfolding signed_by_def .

definition bed_manifest :: manifest where
  "bed_manifest = \<lparr>ma_SchemaVersion = 2, ma_MediaType = '''',
     ma_Config = \<lparr>de_MediaType = '''', de_Digest = '''', de_Size = 0, de_Annotations = Map.empty\<rparr>,
     ma_Layers = [\<lparr>de_MediaType = MediaTypeFirmwareBin, de_Digest = ''sha256:abc'', de_Size = 3, de_Annotations = Map.empty\<rparr>],
     ma_Annotations = [signatureAnnotation \<mapsto> ''keysha256:abc'']\<rparr>"

definition bed_registry :: "unit ext" where
  "bed_registry = bedE\<lparr>hDo := (\<lambda>_ w. (Inr (bed_ok ''m''), w)), jManifest := (\<lambda>_. Inr bed_manifest)\<rparr>"

definition bed_keyed :: dep_reconciler where
  "bed_keyed = \<lparr>dr_OCI = oci_New [WithTrustedPublicKey (Some ''key'')], dr_TokenSecret = ''''\<rparr>"

abbreviation bed_pulled_meta :: firmware_meta where
  "bed_pulled_meta \<equiv> \<lparr>fm_Digest = ''sha256:abc'', fm_Size = 3, fm_Chip = '''', fm_IDFVersion = ''''\<rparr>"

lemma bed_registry_simps:
  "hNewRequest bed_registry m u = None" "hDo bed_registry q w = (Inr (bed_ok ''m''), w)" "jManifest bed_registry x = Inr bed_manifest"
  "xBase64Decode bed_registry y = Some y" "xEd25519Verify bed_registry k dg sg \<longleftrightarrow> sg = k @ dg"
  "kPatchDeploymentStatus bed_registry b d w' = (Inr d, w')"
  by (simp_all add: bed_registry_def bedE_def)

lemma bed_pulling_run:
  assumes "oc_TrustedPubKey (dr_OCI R) = Some ''key''"
  shows "\<exists>t. run_state (phasePulling bed_registry R (bed_dep PhasePulling)) (bed_sys ()) = (Inr res_requeue, t) \<and>
    (CPatchDeploymentStatus (bed_dep PhasePulling) (pulled_status bed_registry (bed_dep PhasePulling) bed_pulled_meta), True)
      \<in> set (drop (length (calls (bed_sys ()))) (calls t))"
proof -
  have img: "fw_Image (ds_Firmware (d_Spec (bed_dep PhasePulling))) = ''reg/app:1''" by (simp add: bed_dep_def)
  have ver: "resolve_manifest bed_registry (dr_OCI R) ''reg/app:1'' bed_manifest = Inr bed_pulled_meta"
    by (simp add: resolve_manifest_def select_layer_def bed_manifest_def firmwareMetaFromLayer_def verifySignature_def
        signatureAnnotation_def assms bed_registry_simps)
  show ?thesis
    by (simp add: phasePulling_def ResolveFirmware_def img bed_parse getManifest_def Let_def bed_registry_simps
        ext_call_def bed_ok_def ver)
qed

lemma bed_pulled_digest: "dst_Digest (d_Status (pulled_status bed_registry (bed_dep PhasePulling) bed_pulled_meta)) = ''sha256:abc''"
  by (simp add: pulled_status_def)

theorem pulled_digest_is_signed_witness:
  "\<exists>q rs w m l s64 sig. hDo bed_registry q () = (Inr rs, w) \<and> rs_StatusCode rs = 200 \<and>
    jManifest bed_registry (rs_Body rs) = Inr m \<and> l \<in> set (ma_Layers m) \<and> ''sha256:abc'' = de_Digest l \<and>
    ma_Annotations m signatureAnnotation = Some s64 \<and> xBase64Decode bed_registry s64 = Some sig \<and>
    xEd25519Verify bed_registry ''key'' ''sha256:abc'' sig"
proof -
  have key: "oc_TrustedPubKey (dr_OCI bed_keyed) = Some ''key''" by (simp add: bed_keyed_def oci_New_def)
  from bed_pulling_run [OF this] obtain t where run:
    "run_state (phasePulling bed_registry bed_keyed (bed_dep PhasePulling)) (bed_sys ()) = (Inr res_requeue, t)"
    "(CPatchDeploymentStatus (bed_dep PhasePulling) (pulled_status bed_registry (bed_dep PhasePulling) bed_pulled_meta), True)
      \<in> set (drop (length (calls (bed_sys ()))) (calls t))" by blast
  from pulled_digest_is_signed [OF run key] show ?thesis by (simp add: bed_pulled_digest)
qed

text \<open>
  C14: If the program runs with \<open>OCI_TRUSTED_PUBLIC_KEY\<close> set, whatever its other arguments, the
  deployment controller it registers has decoded that value to a 32-byte key and never lets a deployment
  leave Pulling with a digest that this key has not signed; with any other value no deployment controller
  is registered.
\<close>

theorem configured_key_enforced:
  assumes "getenv ''OCI_TRUSTED_PUBLIC_KEY'' \<noteq> ''''"
    and "DeploymentController R \<in> set (mr_done (main_run E M lib getenv args))"
    and "run_state (phasePulling E R dep) s = (r, t)"
    and "(CPatchDeploymentStatus b d, ok) \<in> set (drop (length (calls s)) (calls t))"
  shows "\<exists>key. xBase64Decode E (getenv ''OCI_TRUSTED_PUBLIC_KEY'') = Some key \<and> length key = 32 \<and>
    signed_by E (world s) key (dst_Digest (d_Status d))"
  using main_run_key [OF assms(2,1)] phasePulling_signed [OF assms(3,4)] by metis

text \<open>A 32-byte key under which the example signature is valid.\<close>

definition bed_key32 :: string where
  "bed_key32 = ''0123456789abcdef0123456789abcdef''"

definition bed_registry32 :: "unit ext" where
  "bed_registry32 = bed_registry\<lparr>xEd25519Verify := (\<lambda>k dg sg. k = bed_key32)\<rparr>"

definition bed_manager :: manager where
  "bed_manager = \<lparr>mg_New = None, mg_SetupNode = None, mg_SetupDeployment = None, mg_AddServer = None,
     mg_Healthz = None, mg_Readyz = None, mg_Start = None\<rparr>"

definition bed_getenv :: "string \<Rightarrow> string" where
  "bed_getenv v = (if v = ''OCI_TRUSTED_PUBLIC_KEY'' then bed_key32 else '''')"

theorem configured_key_enforced_witness:
  "\<exists>key. xBase64Decode bed_registry32 bed_key32 = Some key \<and> length key = 32 \<and>
    signed_by bed_registry32 () key ''sha256:abc''"
proof -
  let ?R = "wire_reconciler [WithTrustedPublicKey (Some bed_key32)] ''embewi-tokens''"
  have env: "bed_getenv ''OCI_TRUSTED_PUBLIC_KEY'' \<noteq> ''''" by (simp add: bed_getenv_def bed_key32_def)
  have st: "DeploymentController ?R \<in> set (mr_done (main_run bed_registry32 bed_manager [] bed_getenv []))"
    by (simp add: main_run_def start_main_def bed_manager_def oci_options_def basic_auth_options_def tls_options_def
        bed_getenv_def bed_registry32_def bed_registry_def bedE_def bed_key32_def default_flags_def Let_def)
  have img: "fw_Image (ds_Firmware (d_Spec (bed_dep PhasePulling))) = ''reg/app:1''" by (simp add: bed_dep_def)
  have reg: "hNewRequest bed_registry32 m u = None" "hDo bed_registry32 q w = (Inr (bed_ok ''m''), w)"
    "jManifest bed_registry32 x = Inr bed_manifest" "xBase64Decode bed_registry32 y = Some y"
    "xEd25519Verify bed_registry32 k dg sg \<longleftrightarrow> k = bed_key32" "kPatchDeploymentStatus bed_registry32 b d w' = (Inr d, w')"
    for m u q w x y k dg sg b d w'
    by (simp_all add: bed_registry32_def bed_registry_def bedE_def)
  have ver: "resolve_manifest bed_registry32 (dr_OCI ?R) ''reg/app:1'' bed_manifest = Inr bed_pulled_meta"
    by (simp add: resolve_manifest_def select_layer_def bed_manifest_def firmwareMetaFromLayer_def verifySignature_def
        signatureAnnotation_def reg wire_reconciler_def oci_New_def)
  obtain t where run: "run_state (phasePulling bed_registry32 ?R (bed_dep PhasePulling)) (bed_sys ()) = (Inr res_requeue, t)"
    "(CPatchDeploymentStatus (bed_dep PhasePulling) (pulled_status bed_registry32 (bed_dep PhasePulling) bed_pulled_meta), True)
      \<in> set (drop (length (calls (bed_sys ()))) (calls t))"
    by (simp add: phasePulling_def ResolveFirmware_def img bed_parse getManifest_def Let_def reg ext_call_def bed_ok_def ver)
  have "dst_Digest (d_Status (pulled_status bed_registry32 (bed_dep PhasePulling) bed_pulled_meta)) = ''sha256:abc''"
    by (simp add: pulled_status_def)
  with configured_key_enforced [OF env st run] show ?thesis by (simp add: bed_getenv_def)
qed

text \<open>
  C35: The controller and the heartbeat server that one run of the program registers agree on tokens,
  whatever the command line says: what the controller reads as the token of a node is under the reference
  the server uses, and the server accepts it as the current token.
\<close>

theorem token_agreement:
  assumes "{DeploymentController R, HeartbeatServer srv} \<subseteq> set (mr_done (main_run E M lib getenv args))"
    and "nodeTokenRef R node = (key, field)" "data field = Some tok"
  shows "resolveTokenSecret srv node = (key, field) \<and> check_token data field (trimSpace tok) = tokenMatchCurrent"
proof -
  from assms(1) have "DeploymentController R \<in> set (mr_done (main_run E M lib getenv args))"
    "HeartbeatServer srv \<in> set (mr_done (main_run E M lib getenv args))" by auto
  then obtain fl opts where "R = wire_reconciler opts (mf_tokenSecret fl)" "srv = wire_server fl"
    by (metis main_run_wired main_run_server sum.inject(2))
  with wired.presented_token_accepted [of opts fl node key field data tok] assms(2,3) show ?thesis by simp
qed

theorem token_agreement_witness:
  "resolveTokenSecret (wire_server (default_flags\<lparr>mf_tokenSecret := ''toks''\<rparr>)) bed_node =
     (\<lparr>key_Namespace = ''ns'', key_Name = ''tok''\<rparr>, ''token'') \<and>
   check_token [''token'' \<mapsto> '' x''] ''token'' (trimSpace '' x'') = tokenMatchCurrent"
proof (rule token_agreement)
  have "parse_flags [] [''-token-secret'', ''toks''] default_flags = Inr (default_flags\<lparr>mf_tokenSecret := ''toks''\<rparr>)"
    by (simp add: split_flag_def hasPrefix_def index_of_def Let_def set_string_flag_def default_flags_def)
  then show "{DeploymentController (wire_reconciler [] ''toks''), HeartbeatServer (wire_server (default_flags\<lparr>mf_tokenSecret := ''toks''\<rparr>))}
      \<subseteq> set (mr_done (main_run bedU bed_manager [] (\<lambda>_. '''') [''-token-secret'', ''toks'']))"
    by (simp add: main_run_def start_main_def bed_manager_def oci_options_def basic_auth_options_def tls_options_def)
  show "nodeTokenRef (wire_reconciler [] ''toks'') bed_node = (\<lparr>key_Namespace = ''ns'', key_Name = ''tok''\<rparr>, ''token'')"
    by (simp add: nodeTokenRef_def bed_node_def bed_meta_def new_meta_def)
qed simp

section \<open>What the device can check\<close>

lemma prepare_device_chip:
  assumes "run_state (GetInfo E cli) s = (Inr info, u)"
    and "\<And>n w n' w'. kPatchNodeStatus E False node n w = (Inr n', w') \<Longrightarrow> nst_Chip (n_Status n') = nst_Chip (n_Status n)"
  shows "adds (\<lambda>(k, _). \<forall>q. k = CHttp q \<longrightarrow> rq_Method q = ''POST'' \<longrightarrow>
     (\<exists>p. rq_Body q = BJson (prepare_json p) \<and> pq_Chip p = ir_Chip info)) (prepare_device E dep node cli) s"
  (is "adds ?P _ s")
proof -
  have q1: "emits ?P (GetInfo E cli)"
    by (intro emits_intros) (auto simp: agent_call_def agent_request_def)
  have q2: "emits ?P (persistNodeInfo E node info)"
    unfolding persistNodeInfo_def by (intro emits_intros) simp
  have q3: "emits ?P (setPhase E dep p bn msg)" "emits ?P (fail E dep reason msg)" for p bn reason msg
    unfolding setPhase_def setPhase_status_def fail_def by (intro emits_intros; simp)+
  have q4: "emits ?P (OTAPrepare E cli (prepare_req dep node'))" if "nst_Chip (n_Status node') = ir_Chip info" for node'
    unfolding OTAPrepare_def using that by (intro emits_intros) (auto simp: agent_request_def prepare_req_def)
  have chip: "nst_Chip (n_Status (node_info_update info v node)) = ir_Chip info" for v
    by (simp add: node_info_update_def Let_def)
  have pn: "wp (persistNodeInfo E node info) (\<lambda>a t. nst_Chip (n_Status (snd a)) = ir_Chip info) u"
    using assms(2) chip by (auto simp: persistNodeInfo_def wp_simps Let_def split: prod.splits sum.splits)
  show ?thesis
    unfolding prepare_device_def
    apply (rule adds_run_bind [OF q1 assms(1)], unfold sum.case, rule adds_bind [OF q2], rule wp_conseq [OF pn])
    subgoal for a t
      by (intro emits_adds emits_intros q3 q4) (auto split: prod.splits)
    done
qed

text \<open>
  The chip that \<open>POST /ota/prepare\<close> announces to the device is the chip the same device has just
  reported, not the chip annotation of the image: the device compares its target with itself.
\<close>

theorem prepare_announces_own_chip:
  assumes "run_state (GetInfo E cli) s = (Inr info, u)"
    and "\<forall>n w n' w'. kPatchNodeStatus E False node n w = (Inr n', w') \<longrightarrow> nst_Chip (n_Status n') = nst_Chip (n_Status n)"
    and "run_state (prepare_device E dep node cli) s = (r, t)"
    and "(CHttp q, ok) \<in> set (drop (length (calls s)) (calls t))" "rq_Method q = ''POST''"
  shows "\<exists>p. rq_Body q = BJson (prepare_json p) \<and> pq_Chip p = ir_Chip info"
  using adds_new [OF prepare_device_chip [OF assms(1)] assms(3,4)] assms(2,5) by auto

definition bed_idle_info :: info_response where
  "bed_idle_info = bed_info\<lparr>ir_StagedState := '''', ir_Chip := ''esp32c3''\<rparr>"

definition bed_idle :: "unit ext" where
  "bed_idle = bedE\<lparr>hDo := (\<lambda>_ w. (Inr (bed_ok ''i''), w)), jInfo := (\<lambda>_. Inr bed_idle_info)\<rparr>"

theorem prepare_announces_own_chip_witness:
  "\<exists>q ok p. (CHttp q, ok) \<in> set (calls (snd (run_state (prepare_device bed_idle (bed_dep PhasePreparing) bed_node bed_cli) (bed_sys ())))) \<and>
     rq_Body q = BJson (prepare_json p) \<and> pq_Chip p = ''esp32c3''"
proof -
  let ?info = bed_idle_info
  let ?p = "prepare_req (bed_dep PhasePreparing) (node_info_update bed_idle_info ''v1alpha1'' bed_node)"
  let ?g = "agent_request bed_cli False ''GET'' ''/info'' BNone (-1) []"
  have e: "hNewRequest bed_idle m u = None" "hDo bed_idle q w = (Inr (bed_ok ''i''), w)" "jInfo bed_idle x = Inr ?info"
    "kPatchNodeStatus bed_idle lk b n w = (Inr n, w)" "jPrepare bed_idle x = undecodable" for m u q w x lk b n
    by (simp_all add: bed_idle_def bedE_def)
  have i: "run_state (GetInfo bed_idle bed_cli) x = (Inr ?info, x\<lparr>calls := calls x @ [(CHttp ?g, True)]\<rparr>)" for x
    by (simp add: GetInfo_def agent_do_def doWith_def ext_call_def e bed_ok_def)
  have v: "NegotiateAPIVersion (ir_ApiVersions ?info) = Inr ''v1alpha1''"
    by (simp add: NegotiateAPIVersion_def SupportedAPIVersion_def bed_info_def bed_idle_info_def)
  have sl: "ir_StagedState ?info = ''''" "ir_Chip ?info = ''esp32c3''" by (simp_all add: bed_idle_info_def)
  obtain t where t: "run_state (prepare_device bed_idle (bed_dep PhasePreparing) bed_node bed_cli) (bed_sys ()) =
      (Inr (res_after (15 * second)), t)"
    "(CHttp (agent_request bed_cli False ''POST'' ''/ota/prepare'' (BJson (prepare_json ?p)) (-1) json_header), True) \<in> set (calls t)"
    by (simp add: prepare_device_def i persistNodeInfo_def v sl ext_call_def e err_of_def Let_def OTAPrepare_def
        agent_do_def doWith_def bed_ok_def)
  have "\<exists>p'. rq_Body (agent_request bed_cli False ''POST'' ''/ota/prepare'' (BJson (prepare_json ?p)) (-1) json_header) = BJson (prepare_json p') \<and>
      pq_Chip p' = ir_Chip ?info"
    by (rule prepare_announces_own_chip [OF i _ t(1)]) (use t(2) e in \<open>auto simp: agent_request_def\<close>)
  then obtain p' where "BJson (prepare_json ?p) = BJson (prepare_json p')" "pq_Chip p' = ''esp32c3''"
    by (auto simp: agent_request_def sl)
  moreover have "rq_Body (agent_request bed_cli False ''POST'' ''/ota/prepare'' (BJson (prepare_json ?p)) (-1) json_header) = BJson (prepare_json ?p)"
    by (simp add: agent_request_def)
  moreover have "(CHttp (agent_request bed_cli False ''POST'' ''/ota/prepare'' (BJson (prepare_json ?p)) (-1) json_header), True)
      \<in> set (calls (snd (run_state (prepare_device bed_idle (bed_dep PhasePreparing) bed_node bed_cli) (bed_sys ()))))"
    using t by simp
  ultimately show ?thesis by metis
qed

section \<open>References\<close>

text \<open>
  C38: A reference \<open>registry/path:tag\<close> is taken apart into these three parts, where the registry may
  have a port and the path may have slashes.
\<close>

theorem reference_roundtrip:
  assumes "CHR ''/'' \<notin> set reg" "CHR '':'' \<notin> set tag"
  shows "parseRef (reg @ ''/'' @ repo @ '':'' @ tag) = Inr \<lparr>ref_registry = reg, ref_repo = repo, ref_tag = tag\<rparr>"
  by (rule parseRef_tagged [OF assms])

theorem reference_roundtrip_witness:
  "parseRef ''127.0.0.1:5000/a/b:1.0'' = Inr \<lparr>ref_registry = ''127.0.0.1:5000'', ref_repo = ''a/b'', ref_tag = ''1.0''\<rparr>"
  using reference_roundtrip [of "''127.0.0.1:5000''" "''1.0''" "''a/b''"] by simp

text \<open>
  A registry is contacted in the clear exactly when its host name, with or without a port, is
  \<open>localhost\<close> or starts with \<open>127.\<close>.
\<close>

theorem plain_http_registries:
  assumes "CHR '':'' \<notin> set h" "CHR ''['' \<notin> set h" "CHR '']'' \<notin> set h"
    and "CHR '':'' \<notin> set p" "CHR ''['' \<notin> set p" "CHR '']'' \<notin> set p"
  shows "(scheme h = ''http'' \<longleftrightarrow> h = ''localhost'' \<or> take 4 h = ''127.'') \<and>
    scheme (h @ '':'' @ p) = scheme h"
  using splitHostPort_plain [OF assms] splitHostPort_none [OF assms(1)]
  by (simp add: scheme_def hasPrefix_def eval_nat_numeral)

theorem plain_http_registries_witness:
  "(scheme ''ghcr.io'' = ''http'' \<longleftrightarrow> ''ghcr.io'' = ''localhost'' \<or> take 4 ''ghcr.io'' = ''127.'') \<and>
   scheme (''ghcr.io'' @ '':'' @ ''443'') = scheme ''ghcr.io''"
  by (rule plain_http_registries) simp_all

end
