(* ===== verification/NodeSpec.thy ===== *)
theory NodeSpec
  imports NodeController TestBed
begin

text \<open>
  Correctness of the heartbeat server (\<open>internal/heartbeat/server.go\<close>) and of the node reconciler
  (\<open>internal/controller/mcunode_controller.go\<close>): who may change what, what is written, and in which
  order.
\<close>

section \<open>Authentication\<close>

text \<open>The token presented in the \<open>Authorization\<close> header matches the Secret of the node.\<close>

definition auth_as :: "'w ext \<Rightarrow> hb_server \<Rightarrow> string \<Rightarrow> mcunode \<Rightarrow> 'w \<Rightarrow> tokenMatch \<Rightarrow> secret \<Rightarrow> bool" where
  "auth_as E srv auth node w m secret \<longleftrightarrow>
     hasPrefix auth ''Bearer '' \<and> m \<noteq> tokenNoMatch \<and>
     (\<exists>key field w'. resolveTokenSecret srv node = (key, field) \<and> kGetSecret E key w = (Inr secret, w') \<and>
        check_token (sec_Data secret) field (trimPrefix auth ''Bearer '') = m)"

lemma validateToken_match:
  "wp (validateToken E srv auth node)
     (\<lambda>v t. (fst v = tokenNoMatch \<longrightarrow> snd v = None) \<and>
        (fst v \<noteq> tokenNoMatch \<longrightarrow> (\<exists>secret. snd v = Some secret \<and> auth_as E srv auth node (world s) (fst v) secret))) s"
  by (auto simp: validateToken_def auth_as_def wp_simps Let_def
      split: prod.splits sum.splits tokenMatch.splits)

definition writes :: "call \<Rightarrow> bool" where
  "writes k \<longleftrightarrow> (case k of CListNodes ns \<Rightarrow> False | CGetSecret key \<Rightarrow> False
     | CEvent key ty reason msg \<Rightarrow> False | CWsClose code reason \<Rightarrow> False
     | CServerLog level msg about \<Rightarrow> False | _ \<Rightarrow> True)"

lemma writes_simps [simp]:
  "\<not> writes (CListNodes ns)" "\<not> writes (CGetSecret key)" "\<not> writes (CEvent key ty reason msg)"
  "\<not> writes (CWsClose code reason)" "\<not> writes (CServerLog level msg about)" "writes (CPatchNodeStatus lock b n)" "writes (CPatchSecret b' x)"
  "writes (CMetrics d)" "writes (CLog a1 a2 a3 a4 a5)" "writes (CGetNode key)" "writes CTime"
  by (simp_all add: writes_def)

lemma emits_emit_all [emits_intros]:
  "(\<And>k. k \<in> set ks \<Longrightarrow> P (k, True)) \<Longrightarrow> emits P (emit_all ks)"
  by (induction ks) (auto intro!: emits_intros)

lemma emits_findNode:
  "(\<And>ns b. P (CListNodes ns, b)) \<Longrightarrow> (\<And>key ty reason msg. P (CEvent key ty reason msg, True)) \<Longrightarrow>
     emits P (findNode E srv nodeID)"
  unfolding findNode_def by (intro emits_intros) auto

lemma emits_validateToken:
  "(\<And>key b. P (CGetSecret key, b)) \<Longrightarrow> emits P (validateToken E srv auth node)"
  unfolding validateToken_def by (intro emits_intros) (auto split: tokenMatch.splits intro!: emits_return)

lemma emits_retry:
  fixes E :: "'w ext"
  assumes "retry_law E" "emits P m"
  shows "emits P (retryOnConflict E m)"
proof (rule emitsI)
  fix s :: "'w sys"
  let ?I = "\<lambda>t. \<exists>l. calls t = calls s @ l \<and> list_all P l"
  have step: "?I (snd (run_state m u))" if "?I u" for u
    using that emitsD [OF assms(2), of u "fst (run_state m u)" "snd (run_state m u)"] by auto
  have "retry_runs (run_state m) s (kRetryOnConflict E (run_state m) s)"
    using assms(1) by (simp add: retry_law_def)
  from retry_runs_post [OF this, where I = ?I and Q = "\<lambda>_ _. True"] step
  show "wp (retryOnConflict E m) (\<lambda>_ t. ?I t) s"
    by (auto simp: retryOnConflict_def wp_def split: prod.splits)
qed

text \<open>What is written on behalf of a heartbeat, and what it rests on.\<close>

definition hb_write :: "'w ext \<Rightarrow> heartbeat_payload \<Rightarrow> (call \<times> bool) \<Rightarrow> bool" where
  "hb_write E hb c \<longleftrightarrow>
     (\<forall>lock b n. fst c = CPatchNodeStatus lock b n \<longrightarrow>
        lock \<and> hp_State hb \<in> set validNodeStates \<and>
        (\<exists>ip t. n = upd_nstatus (apply_heartbeat E hb ip t) b)) \<and>
     (\<forall>d. fst c = CMetrics d \<longrightarrow> (\<exists>node. d = MUpdate (hb_metrics hb node)))"

text \<open>The heartbeat that was decoded, the node it names, and the token match it rests on.\<close>

definition hb_auth ::
  "'w ext \<Rightarrow> hb_server \<Rightarrow> server_request \<Rightarrow> 'w sys \<Rightarrow> heartbeat_payload \<Rightarrow> tokenMatch \<Rightarrow> secret \<Rightarrow> bool" where
  "hb_auth E srv r s hb m secret \<longleftrightarrow>
     jHeartbeat E (fst (readAllLimited 4096 (sq_Body r))) = Inr hb \<and>
     (\<exists>node u. run_state (findNode E srv (hp_NodeID hb)) s = (Inr node, u) \<and>
        auth_as E srv (sq_Authorization r) node (world u) m secret)"

definition hb_allowed :: "'w ext \<Rightarrow> hb_server \<Rightarrow> server_request \<Rightarrow> 'w sys \<Rightarrow> call \<times> bool \<Rightarrow> bool" where
  "hb_allowed E srv r s c \<longleftrightarrow> (writes (fst c) \<longrightarrow>
     (\<exists>hb m secret. hb_auth E srv r s hb m secret \<and> hb_write E hb c \<and>
        (\<forall>b x. fst c = CPatchSecret b x \<longrightarrow> m = tokenMatchCurrent \<and> b = secret \<and>
           x = secret\<lparr>sec_Data := (sec_Data secret)(''previousToken'' := None)\<rparr>)))"

lemma hb_allowed_quiet: "\<not> writes k \<Longrightarrow> hb_allowed E srv r s (k, b)"
  by (simp add: hb_allowed_def)

text \<open>
  Every call of a heartbeat satisfies \<open>P\<close> if the calls up to the token comparison do, and those made for
  the node that was found and whose token was presented.
\<close>

lemma handleHeartbeat_adds:
  assumes fn: "\<And>nodeID. emits P (findNode E srv nodeID)" and vt: "\<And>node. emits P (validateToken E srv (sq_Authorization r) node)"
    and accept: "\<And>hb node u m secret. jHeartbeat E (fst (readAllLimited 4096 (sq_Body r))) = Inr hb \<Longrightarrow>
      run_state (findNode E srv (hp_NodeID hb)) s = (Inr node, u) \<Longrightarrow>
      auth_as E srv (sq_Authorization r) node (world u) m secret \<Longrightarrow> emits P (accept_heartbeat E srv r hb node m secret)"
  shows "adds P (handleHeartbeat E srv r) s"
proof -
  have token: "adds P (do {
       v \<leftarrow> validateToken E srv (sq_Authorization r) node;
       (if fst v = tokenNoMatch then ret (reply 401 ''unauthorized'')
        else case snd v of
          None \<Rightarrow> ret (reply 500 ''nil pointer dereference'')
        | Some secret \<Rightarrow> accept_heartbeat E srv r hb node (fst v) secret) }) u"
    if "run_state (findNode E srv (hp_NodeID hb)) s = (Inr node, u)"
      "jHeartbeat E (fst (readAllLimited 4096 (sq_Body r))) = Inr hb" for hb node u
    by (rule adds_bind [OF vt], rule wp_conseq [OF validateToken_match], rule emits_adds)
      (use that in \<open>auto simp: emits_return intro!: accept\<close>)
  show ?thesis
  proof (cases "sq_Method r = ''POST'' \<and> snd (readAllLimited 4096 (sq_Body r)) = None \<and>
      (\<exists>hb. jHeartbeat E (fst (readAllLimited 4096 (sq_Body r))) = Inr hb)")
    case False
    then show ?thesis
      unfolding handleHeartbeat_def
      by (auto simp: emits_adds emits_return split: prod.splits option.splits sum.splits)
  next
    case True
    then obtain body hb where b: "readAllLimited 4096 (sq_Body r) = (body, None)" "jHeartbeat E body = Inr hb"
      "sq_Method r = ''POST''"
      by (cases "readAllLimited 4096 (sq_Body r)") auto
    obtain nres u where n: "run_state (findNode E srv (hp_NodeID hb)) s = (nres, u)" by (metis surj_pair)
    have "adds P (case nres of Inl err \<Rightarrow> ret (reply 200 '''') | Inr node \<Rightarrow> do {
       v \<leftarrow> validateToken E srv (sq_Authorization r) node;
       (if fst v = tokenNoMatch then ret (reply 401 ''unauthorized'')
        else case snd v of
          None \<Rightarrow> ret (reply 500 ''nil pointer dereference'')
        | Some secret \<Rightarrow> accept_heartbeat E srv r hb node (fst v) secret) }) u"
      using n b by (cases nres) (simp_all add: token emits_adds emits_return)
    with adds_run_bind [OF fn n] b show ?thesis by (simp add: handleHeartbeat_def)
  qed
qed

lemma handleHeartbeat_allowed:
  assumes "retry_law E"
  shows "adds (hb_allowed E srv r s) (handleHeartbeat E srv r) s"
proof (rule handleHeartbeat_adds)
  let ?P = "hb_allowed E srv r s"
  show "emits ?P (findNode E srv nodeID)" for nodeID
    by (intro emits_findNode hb_allowed_quiet) simp_all
  show "emits ?P (validateToken E srv (sq_Authorization r) node)" for node
    by (intro emits_validateToken hb_allowed_quiet) simp
  have ok: "?P (k, b)"
    if "hb_auth E srv r s hb m secret" "hb_write E hb (k, b)" "\<And>b x. k \<noteq> CPatchSecret b x" for hb m secret k b
    using that by (auto simp: hb_allowed_def)
  have attempt: "emits ?P (hb_attempt E hb ip t key)"
    if "hb_auth E srv r s hb m secret" "hp_State hb \<in> set validNodeStates" for hb m secret ip t key
    unfolding hb_attempt_def
    by (intro emits_intros) (rule ok [OF that(1)]; use that(2) in \<open>auto simp: hb_write_def\<close>)+
  have clear: "emits ?P (clearPreviousToken E secret)"
    if "hb_auth E srv r s hb tokenMatchCurrent secret" for hb secret
    unfolding clearPreviousToken_def
    by (intro emits_intros) (use that in \<open>auto simp: hb_allowed_def hb_write_def\<close>)
  have store: "emits ?P (store_heartbeat E srv r hb node)"
    if "hb_auth E srv r s hb m secret" "hp_State hb \<in> set validNodeStates" for hb m secret node
    unfolding store_heartbeat_def
    by (intro emits_intros emits_retry [OF assms] attempt [OF that] hb_allowed_quiet ok [OF that(1)])
      (auto simp: hb_write_def)
  have accept: "emits ?P (accept_heartbeat E srv r hb node m secret)"
    if "hb_auth E srv r s hb m secret" for hb m secret node
    unfolding accept_heartbeat_def
    by (intro emits_intros store [OF that] clear) (use that in auto)
  fix hb node u m secret
  assume "jHeartbeat E (fst (readAllLimited 4096 (sq_Body r))) = Inr hb"
    "run_state (findNode E srv (hp_NodeID hb)) s = (Inr node, u)"
    "auth_as E srv (sq_Authorization r) node (world u) m secret"
  then have "hb_auth E srv r s hb m secret" unfolding hb_auth_def by blast
  then show "emits ?P (accept_heartbeat E srv r hb node m secret)" by (rule accept)
qed

section \<open>Logs over WebSocket\<close>

text \<open>Some decodable frame names a node whose token the connection presented.\<close>

definition ws_auth :: "'w ext \<Rightarrow> hb_server \<Rightarrow> server_request \<Rightarrow> 'w sys \<Rightarrow> (int \<times> ws_event) list \<Rightarrow> bool" where
  "ws_auth E srv r s events \<longleftrightarrow>
     (\<exists>at raw entry node u m secret. (at, WsFrame raw) \<in> set events \<and> jLog E raw = Inr entry \<and>
        run_state (findNode E srv (lp_Node entry)) s = (Inr node, u) \<and>
        auth_as E srv (sq_Authorization r) node (world u) m secret)"

lemma ws_auth_Cons: "ws_auth E srv r s events \<Longrightarrow> ws_auth E srv r s (e # events)"
  unfolding ws_auth_def by (meson list.set_intros(2))

lemma emits_logEntry:
  "(\<And>a b c d e. P (CLog a b c d e, True)) \<Longrightarrow> emits P (logEntry entry)"
  unfolding logEntry_def by (intro emits_intros)

lemma emits_read_failed: "(\<And>a b c. P (CServerLog a b c, True)) \<Longrightarrow> emits P log_read_failed"
  unfolding log_read_failed_def by (intro emits_intros)

lemma emits_log_authenticated: "(\<And>a b c. P (CServerLog a b c, True)) \<Longrightarrow> emits P (log_authenticated node)"
  unfolding log_authenticated_def by (intro emits_intros)

lemma adds_ret: "adds P m s \<Longrightarrow> adds P (do { x \<leftarrow> m; ret (f x) }) s"
  by (auto simp: adds_def wp_def split: prod.splits)

lemma adds_if: "(b \<Longrightarrow> adds P m s) \<Longrightarrow> (\<not> b \<Longrightarrow> adds P n s) \<Longrightarrow> adds P (if b then m else n) s"
  by simp

lemma emits_ws_true:
  assumes "\<And>a b c d e. P (CLog a b c d e, True)" "\<And>a b c. P (CServerLog a b c, True)"
  shows "emits P (ws_loop E srv r True deadline events)"
proof (induction events arbitrary: deadline)
  case (Cons e events)
  obtain t ev where [simp]: "e = (t, ev)" by (cases e)
  show ?case
    by (cases ev) (auto intro!: emits_bind emits_return emits_logEntry emits_read_failed assms Cons.IH split: sum.splits)
qed (auto intro!: emits_bind emits_return emits_read_failed assms)

lemma ws_loop_auth:
  "adds (\<lambda>c. writes (fst c) \<longrightarrow> ws_auth E srv r s events) (ws_loop E srv r False deadline events) s"
proof (induction events arbitrary: deadline)
  case Nil
  then show ?case by (auto intro!: emits_adds emits_bind emits_return emits_read_failed)
next
  case (Cons e events)
  obtain t ev where e [simp]: "e = (t, ev)" by (cases e)
  have skip: "adds (\<lambda>c. writes (fst c) \<longrightarrow> ws_auth E srv r s (x # events)) (ws_loop E srv r False d events) s" for d x
    using Cons.IH [of d] unfolding adds_def
    by (rule wp_conseq) (auto simp: list_all_iff intro: ws_auth_Cons)
  have failed: "adds (\<lambda>c. writes (fst c) \<longrightarrow> Q) (do { log_read_failed; ret x }) s" for x :: int and Q
    by (auto intro!: emits_adds emits_bind emits_return emits_read_failed)
  show ?case
  proof (cases "\<exists>raw entry. ev = WsFrame raw \<and> jLog E raw = Inr entry \<and> t \<le> deadline")
    case False
    then show ?thesis
      by (cases ev) (auto simp: failed skip emits_adds emits_return split: sum.splits)
  next
    case True
    then obtain raw entry where ev [simp]: "ev = WsFrame raw" and Inr: "jLog E raw = Inr entry" and d: "t \<le> deadline" by blast
    let ?d = "t + wsReadDeadline"
    let ?P = "\<lambda>c. writes (fst c) \<longrightarrow> ws_auth E srv r s ((t, WsFrame raw) # events)"
    obtain nres u where n: "run_state (findNode E srv (lp_Node entry)) s = (nres, u)" by (metis surj_pair)
    have fn: "emits ?P (findNode E srv (lp_Node entry))" by (intro emits_findNode) simp_all
    have vt: "emits ?P (validateToken E srv auth node)" for auth node by (intro emits_validateToken) simp
    have closing: "emits ?P (do { emit (CWsClose 1008 ''unauthorized''); ret t })" by (intro emits_intros) simp_all
    have logged: "emits ?P (do { log_authenticated nd; logEntry entry; ws_loop E srv r True ?d events })"
      if "ws_auth E srv r s ((t, WsFrame raw) # events)" for nd
      by (intro emits_bind emits_log_authenticated emits_logEntry emits_ws_true) (use that in simp_all)
    have auth: "ws_auth E srv r s ((t, WsFrame raw) # events)"
      if "nres = Inr node" "auth_as E srv (sq_Authorization r) node (world u) m secret" for node m secret
      unfolding ws_auth_def using that n Inr by fastforce
    have "adds ?P (do {
         v \<leftarrow> validateToken E srv (sq_Authorization r) node;
         (if fst v = tokenNoMatch then do { emit (CWsClose 1008 ''unauthorized''); ret t }
          else do {
            log_authenticated (lp_Node entry);
            logEntry entry; ws_loop E srv r True ?d events }) }) u" if "nres = Inr node" for node
      by (rule adds_bind [OF vt], rule wp_conseq [OF validateToken_match], rule emits_adds)
        (use that in \<open>auto intro!: closing logged intro: auth\<close>)
    then have "adds ?P (case nres of Inl err \<Rightarrow> do { emit (CWsClose 1008 ''unauthorized''); ret t } | Inr node \<Rightarrow> do {
         v \<leftarrow> validateToken E srv (sq_Authorization r) node;
         (if fst v = tokenNoMatch then do { emit (CWsClose 1008 ''unauthorized''); ret t }
          else do {
            log_authenticated (lp_Node entry);
            logEntry entry; ws_loop E srv r True ?d events }) }) u"
      by (cases nres) (simp_all add: emits_adds [OF closing])
    with adds_run_bind [OF fn n] Inr d show ?thesis by simp
  qed
qed

section \<open>The whole server\<close>

lemma emits_handleLogPost:
  "(\<And>a b c d e. P (CLog a b c d e, True)) \<Longrightarrow> emits P (handleLogPost E r)"
  unfolding handleLogPost_def by (intro emits_intros emits_logEntry)

lemma emits_ws_logs:
  assumes "\<And>a b c d e. P (CLog a b c d e, True)" "\<And>a b c. P (CServerLog a b c, True)"
    "\<And>ns b. P (CListNodes ns, b)" "\<And>key ty reason msg. P (CEvent key ty reason msg, True)"
    "\<And>key b. P (CGetSecret key, b)" "\<And>code msg. P (CWsClose code msg, True)"
  shows "emits P (ws_loop E srv r authenticated deadline events)"
proof (induction events arbitrary: authenticated deadline)
  case (Cons e events)
  obtain t ev where [simp]: "e = (t, ev)" by (cases e)
  show ?case
    by (cases ev) (auto intro!: emits_bind emits_return emits_logEntry emits_read_failed emits_findNode
        emits_validateToken emits_emit emits_log_authenticated emits_if assms Cons.IH split: sum.splits)
qed (auto intro!: emits_bind emits_return emits_read_failed assms)

text \<open>A request writes nothing but log lines, or is a heartbeat that was authenticated.\<close>

lemma hb_Handler_auth:
  assumes "retry_law E"
  shows "adds (\<lambda>c. writes (fst c) \<longrightarrow> (\<exists>a b c' d e. fst c = CLog a b c' d e) \<or>
    (path = ''/v1alpha1/heartbeat'' \<and> (\<exists>hb m secret. hb_auth E srv r s hb m secret))) (hb_Handler E srv path r upgrade) s"
proof -
  let ?P = "\<lambda>c. writes (fst c) \<longrightarrow> (\<exists>a b c' d e. fst c = CLog a b c' d e) \<or>
    (path = ''/v1alpha1/heartbeat'' \<and> (\<exists>hb m secret. hb_auth E srv r s hb m secret))"
  have log: "emits ?P (handleLog E srv r upgrade)"
    unfolding handleLog_def handleLogWS_def
    by (auto intro!: emits_bind emits_return emits_handleLogPost emits_ws_logs split: option.splits)
  have "adds ?P (handleHeartbeat E srv r) s" if "path = ''/v1alpha1/heartbeat''"
    using handleHeartbeat_allowed [OF assms, of srv r s] unfolding adds_def
    by (rule wp_conseq) (use that in \<open>force simp: list_all_iff hb_allowed_def\<close>)
  then have hb: "path = ''/v1alpha1/heartbeat'' \<Longrightarrow> adds ?P (do { x \<leftarrow> handleHeartbeat E srv r; ret (Some x) }) s"
    by (rule adds_ret)
  show ?thesis
    unfolding hb_Handler_def by (intro adds_if hb emits_adds [OF log] emits_adds [OF emits_return])
qed

text \<open>The times of the events that keep a log connection open.\<close>

fun ws_alive :: "ws_event \<Rightarrow> bool" where
  "ws_alive (WsFrame raw) \<longleftrightarrow> True"
| "ws_alive WsPong \<longleftrightarrow> True"
| "ws_alive ev \<longleftrightarrow> False"

lemma ws_loop_bound:
  "(\<And>t ev. (t, ev) \<in> set events \<Longrightarrow> ws_alive ev \<Longrightarrow> t \<le> T) \<Longrightarrow> deadline \<le> T + wsReadDeadline \<Longrightarrow>
     wp (ws_loop E srv r authenticated deadline events) (\<lambda>x _. x \<le> T + wsReadDeadline) s"
proof (induction events arbitrary: authenticated deadline s)
  case (Cons e events)
  obtain t ev where e [simp]: "e = (t, ev)" by (cases e)
  have IH: "wp (ws_loop E srv r a (t + wsReadDeadline) events) (\<lambda>x _. x \<le> T + wsReadDeadline) u" if "ws_alive ev" for a u
    using Cons.prems that by (intro Cons.IH) auto
  show ?case
    using Cons.prems(2) IH
    by (cases ev) (auto simp: wp_return log_read_failed_def split: sum.splits intro!: wp_bind_any)
qed (auto simp: wp_simps log_read_failed_def)

section \<open>The node reconciler\<close>

text \<open>The slices a reconcile publishes, and the status it is computed from.\<close>

definition publishes :: "call \<Rightarrow> endpoint_slice \<Rightarrow> bool" where
  "publishes k x \<longleftrightarrow> k = CCreateSlice x \<or> (\<exists>b. k = CPatchSlice b x)"

lemma publishes_simps [simp]:
  "publishes (CCreateSlice y) x \<longleftrightarrow> x = y" "publishes (CPatchSlice b y) x \<longleftrightarrow> x = y"
  "\<not> publishes (CGetSlice key) x" "\<not> publishes (CGetService key) x" "\<not> publishes (CCreateService sv) x"
  "\<not> publishes (CPatchService sv sv') x" "\<not> publishes (CGetSecret key) x" "\<not> publishes (CHttp q) x"
  "\<not> publishes (CEvent key ty reason msg) x" "\<not> publishes (CPatchNodeStatus lock bn n) x" "\<not> publishes CTime x"
  by (auto simp: publishes_def)

definition slice_of :: "mcunode \<Rightarrow> endpoint_slice \<Rightarrow> bool" where
  "slice_of node x \<longleftrightarrow>
     es_Endpoints x = [\<lparr>ep_Addresses = [nst_IP (n_Status node)], ep_Ready = nst_Ready (n_Status node)\<rparr>] \<and>
     es_Ports x = [\<lparr>sp_Name = ''app'', sp_Port = app_port node, sp_Protocol = ''TCP''\<rparr>]"

text \<open>Only the first patch of a reconcile holds the optimistic lock.\<close>

definition node_ok :: "mcunode \<Rightarrow> call \<times> bool \<Rightarrow> bool" where
  "node_ok node c \<longleftrightarrow> (\<forall>x. publishes (fst c) x \<longrightarrow> slice_of node x) \<and>
     (\<forall>lock b n. fst c = CPatchNodeStatus lock b n \<longrightarrow> \<not> lock)"

lemma node_ok_simps [simp]:
  "node_ok node (CGetSlice key, b)" "node_ok node (CGetService key, b)" "node_ok node (CCreateService sv, b)"
  "node_ok node (CPatchService sv sv', b)" "node_ok node (CGetSecret key, b)" "node_ok node (CHttp q, b)"
  "node_ok node (CEvent key ty reason msg, b)" "node_ok node (CPatchNodeStatus False bn n, b)"
  "node_ok node (CCreateSlice x, b) \<longleftrightarrow> slice_of node x" "node_ok node (CPatchSlice y x, b) \<longleftrightarrow> slice_of node x"
  by (auto simp: node_ok_def)

lemma emits_reconcileEndpointSlice: "emits (node_ok node) (reconcileEndpointSlice E node)"
  unfolding reconcileEndpointSlice_def
  by (intro emits_intros) (simp_all add: slice_of_def desired_slice_def)

lemma emits_reconcileService: "emits (node_ok node) (reconcileService E node')"
  unfolding reconcileService_def by (intro emits_intros) simp_all

lemma emits_record_event: "P (CEvent (obj_key_of (n_Meta n)) ty reason msg, True) \<Longrightarrow> emits P (record_event rec n ty reason msg)"
  unfolding record_event_def by (intro emits_intros)

lemma emits_currentToken: "(\<And>key b. P (CGetSecret key, b)) \<Longrightarrow> emits P (currentToken E node)"
  unfolding currentToken_def by (intro emits_intros) simp

lemma agent_call_node_ok: "agent_call m p c k \<Longrightarrow> node_ok node (k, b)"
  by (auto simp: agent_call_def)

lemma emits_reconcile_device: "emits (node_ok node) (reconcile_device E rec node)"
proof -
  have rot: "emits (node_ok node) (reconcileTokenRotation E rec node)"
    unfolding reconcileTokenRotation_def by (intro emits_intros emits_record_event) simp_all
  have tls: "emits (node_ok node) (reconcileTLSCert E rec node)"
    unfolding reconcileTLSCert_def push_tls_def
    by (intro emits_intros emits_record_event emits_currentToken) (auto intro: agent_call_node_ok)
  have reboot: "emits (node_ok node) (reconcileRebootRequest E rec node')" for node'
    unfolding reconcileRebootRequest_def
    by (intro emits_intros emits_record_event emits_currentToken) (auto intro: agent_call_node_ok)
  show ?thesis
    unfolding reconcile_device_def
    by (intro emits_intros emits_reconcileService emits_reconcileEndpointSlice rot tls reboot)
qed

lemma node_status_update_facts:
  "nst_Ready (node_status_update E ex st) \<longleftrightarrow> \<not> ex \<and> nst_State st = ''running'' \<and> nst_OtaValidated st"
  "nst_State (node_status_update E ex st) = (if ex \<and> nst_LastHeartbeat st \<noteq> None then ''offline'' else nst_State st)"
  "nst_IP (node_status_update E ex st) = nst_IP st" "nst_LastHeartbeat (node_status_update E ex st) = nst_LastHeartbeat st"
  "nst_OtaValidated (node_status_update E ex st) = nst_OtaValidated st"
  by (simp_all add: node_status_update_def Let_def)

text \<open>
  What one reconcile of a live node does, from the time it reads: the status it writes, and the slices
  it publishes if the API server returns the status that was sent.
\<close>

definition fresh_status :: "int \<Rightarrow> mcunode_status \<Rightarrow> bool" where
  "fresh_status t st \<longleftrightarrow> (\<exists>hb. nst_LastHeartbeat st = Some hb \<and> t - hb \<le> 10 * second) \<and>
     nst_State st = ''running'' \<and> nst_OtaValidated st"

lemma heartbeat_expired_run:
  assumes "tNow E (world s) = (t, w)"
  shows "wp (heartbeat_expired E st) (\<lambda>ex u. ex \<longleftrightarrow> \<not> (\<exists>hb. nst_LastHeartbeat st = Some hb \<and> t - hb \<le> 10 * second)) s"
proof (cases "nst_LastHeartbeat st")
  case (Some hb)
  have "time_since t hb > HeartbeatTimeout \<longleftrightarrow> t - hb > 10 * second"
    unfolding HeartbeatTimeout_def by (rule time_since_gt) (simp_all add: second_def)
  with Some assms show ?thesis by (simp add: heartbeat_expired_def wp_simps) linarith
qed (simp add: heartbeat_expired_def wp_simps)

lemma reconcile_live_adds:
  assumes "tNow E (world s) = (t, w)" "patch_echo E"
  shows "adds (\<lambda>c. (\<forall>b n. fst c = CPatchNodeStatus True b n \<longrightarrow> b = node \<and>
        (nst_Ready (n_Status n) \<longleftrightarrow> fresh_status t (n_Status node))) \<and>
      (\<forall>x. publishes (fst c) x \<longrightarrow> (\<exists>ip. es_Endpoints x = [\<lparr>ep_Addresses = [ip], ep_Ready = fresh_status t (n_Status node)\<rparr>])))
    (reconcile_live E rec node) s"
  (is "adds ?P _ s")
proof -
  have q1: "emits ?P (heartbeat_expired E st)" for st
    unfolding heartbeat_expired_def by (intro emits_intros) simp
  have rest: "emits ?P (do {
       ures \<leftarrow> patchNodeStatus E True node (upd_nstatus (node_status_update E ex) node);
       (case ures of
          Inl err \<Rightarrow> ret (Inl err)
        | Inr node' \<Rightarrow>
            if nst_IP (n_Status node') \<noteq> '''' then do {
              e \<leftarrow> reconcile_device E rec node';
              (case e of Some err \<Rightarrow> ret (Inl err) | None \<Rightarrow> ret (Inr (res_after HeartbeatTimeout)))
            }
            else ret (Inr (res_after HeartbeatTimeout))) })"
    if "ex \<longleftrightarrow> \<not> (\<exists>hb. nst_LastHeartbeat (n_Status node) = Some hb \<and> t - hb \<le> 10 * second)" for ex
  proof (rule emits_ext_bind)
    have ready: "nst_Ready (node_status_update E ex (n_Status node)) = fresh_status t (n_Status node)"
      using that by (simp add: node_status_update_facts fresh_status_def)
    show "?P (CPatchNodeStatus True node (upd_nstatus (node_status_update E ex) node), b)" for b
      using ready by simp
    fix w r w' assume "kPatchNodeStatus E True node (upd_nstatus (node_status_update E ex) node) w = (r, w')"
    then have "n_Status n' = node_status_update E ex (n_Status node)" if "r = Inr n'" for n'
      using assms(2) that unfolding patch_echo_def by (metis upd_nstatus_sel(3))
    then have dev: "emits ?P (reconcile_device E rec n')" if "r = Inr n'" for n'
      using that ready
      by (intro emits_mono [OF emits_reconcile_device [of n' E rec]]) (auto simp: node_ok_def slice_of_def)
    show "emits ?P (case r of
          Inl err \<Rightarrow> ret (Inl err)
        | Inr node' \<Rightarrow>
            if nst_IP (n_Status node') \<noteq> '''' then do {
              e \<leftarrow> reconcile_device E rec node';
              (case e of Some err \<Rightarrow> ret (Inl err) | None \<Rightarrow> ret (Inr (res_after HeartbeatTimeout)))
            }
            else ret (Inr (res_after HeartbeatTimeout)))"
      by (intro emits_intros dev)
  qed
  show ?thesis
    unfolding reconcile_live_def
    by (rule adds_bind [OF q1], rule wp_conseq [OF heartbeat_expired_run [OF assms(1)]], rule emits_adds, rule rest)
qed

section \<open>Certificate and token\<close>

lemma emits_from_adds: "(\<And>s. adds P m s) \<Longrightarrow> emits P m"
  by (simp add: emits_def adds_def)

text \<open>
  The patch that records a certificate is the step after two requests that were both answered 200:
  the certificate of the TLS Secret, and the reboot, in this order.
\<close>

definition tls_recorded :: "'w ext \<Rightarrow> mcunode \<Rightarrow> 'w sys \<Rightarrow> 'w sys \<Rightarrow> mcunode \<Rightarrow> bool \<Rightarrow> bool" where
  "tls_recorded E node s t n ok \<longleftrightarrow>
     (\<exists>secret w token s' u v pre post.
        kGetSecret E (token_secret_key node (ns_TLSSecretRef (n_Spec node))) (world s) = (Inr secret, w) \<and>
        calls s' = calls s @ pre \<and>
        run_state (PostTLSCert E (agent_New (nst_IP (n_Status node)) token)
          (mget (sec_Data secret) ''tls.crt'') (mget (sec_Data secret) ''tls.key'')) s' = (Inr (), u) \<and>
        run_state (PostReboot E (agent_New (nst_IP (n_Status node)) token)) u = (Inr (), v) \<and>
        calls t = calls v @ (CPatchNodeStatus False node n, ok) # post \<and>
        n = upd_nstatus (\<lambda>st. st\<lparr>nst_TLSCertDigest :=
              xSHA256Hex E (mget (sec_Data secret) ''tls.crt'' @ mget (sec_Data secret) ''tls.key'')\<rparr>) node)"

abbreviation unpatched :: "call \<times> bool \<Rightarrow> bool" where
  "unpatched \<equiv> \<lambda>c. \<forall>lock b n. fst c \<noteq> CPatchNodeStatus lock b n"

text \<open>Every status patch of a run is such a record.\<close>

definition tls_patches :: "'w ext \<Rightarrow> mcunode \<Rightarrow> 'w sys \<Rightarrow> 'w sys \<Rightarrow> bool" where
  "tls_patches E node s t \<longleftrightarrow> (\<exists>l. calls t = calls s @ l \<and>
     (\<forall>lock b n ok. (CPatchNodeStatus lock b n, ok) \<in> set l \<longrightarrow> b = node \<and> tls_recorded E node s t n ok))"

lemma unpatchedD: "list_all unpatched l \<Longrightarrow> (CPatchNodeStatus lock b n, ok) \<notin> set l"
  unfolding list_all_iff by (rule notI, drule (1) bspec) auto

lemma tls_patches_none:
  "calls t = calls s @ l \<Longrightarrow> list_all unpatched l \<Longrightarrow> tls_patches E node s t"
  unfolding tls_patches_def by (intro exI [of _ l]) (simp add: unpatchedD)

lemma tls_patches_quiet:
  assumes "emits unpatched m" "calls x = calls s @ l" "list_all unpatched l"
  shows "wp m (\<lambda>_. tls_patches E node s) x"
proof (rule wpI)
  fix a t assume "run_state m x = (a, t)"
  with emitsD [OF assms(1)] obtain l' where "calls t = calls x @ l'" "list_all unpatched l'" by blast
  with assms(2,3) show "tls_patches E node s t" by (intro tls_patches_none [of _ _ "l @ l'"]) simp_all
qed

lemma tls_patches_record:
  assumes "emits unpatched m" "calls x = calls v @ [(CPatchNodeStatus False node n, ok)]"
    and "calls v = calls s @ l" "list_all unpatched l"
    and rec: "\<And>t post. calls t = calls v @ (CPatchNodeStatus False node n, ok) # post \<Longrightarrow> tls_recorded E node s t n ok"
  shows "wp m (\<lambda>_. tls_patches E node s) x"
proof (rule wpI)
  fix a t assume "run_state m x = (a, t)"
  with emitsD [OF assms(1)] obtain l' where l': "calls t = calls x @ l'" "list_all unpatched l'" by blast
  then have t: "calls t = calls v @ (CPatchNodeStatus False node n, ok) # l'" using assms(2) by simp
  have "calls t = calls s @ (l @ (CPatchNodeStatus False node n, ok) # l')" using t assms(3) by simp
  moreover have "b = node \<and> tls_recorded E node s t n' ok'"
    if "(CPatchNodeStatus lock b n', ok') \<in> set (l @ (CPatchNodeStatus False node n, ok) # l')" for lock b n' ok'
    using that assms(4) l'(2) rec [OF t] by (fastforce simp: list_all_iff)
  ultimately show "tls_patches E node s t" unfolding tls_patches_def by blast
qed

lemma wp_run_bind: "run_state m s = (a, u) \<Longrightarrow> wp (f a) Q u \<Longrightarrow> wp (State_Monad.bind m f) Q s"
  by (simp add: wp_def)

lemma push_tls_recorded:
  fixes E :: "'w ext"
  assumes sec: "kGetSecret E (token_secret_key node (ns_TLSSecretRef (n_Spec node))) (world s) = (Inr secret, w)"
    and pre: "calls s' = calls s @ pre" "list_all unpatched pre"
  shows "wp (push_tls E rec node token (mget (sec_Data secret) ''tls.crt'') (mget (sec_Data secret) ''tls.key'')
      (xSHA256Hex E (mget (sec_Data secret) ''tls.crt'' @ mget (sec_Data secret) ''tls.key'')))
    (\<lambda>_. tls_patches E node s) s'"
proof -
  let ?cert = "mget (sec_Data secret) ''tls.crt''" and ?key = "mget (sec_Data secret) ''tls.key''"
  let ?cli = "agent_New (nst_IP (n_Status node)) token"
  let ?n = "upd_nstatus (\<lambda>st. st\<lparr>nst_TLSCertDigest := xSHA256Hex E (?cert @ ?key)\<rparr>) node"
  have q: "emits unpatched (PostTLSCert E ?cli ?cert ?key)" "emits unpatched (PostReboot E ?cli)"
    by (intro emits_intros; auto simp: agent_call_def)+
  have ev: "emits unpatched (record_event rec n ty reason msg)" for n ty reason msg
    by (rule emits_record_event) simp
  obtain p u where p: "run_state (PostTLSCert E ?cli ?cert ?key) s' = (p, u)" by (metis surj_pair)
  obtain r v where r: "run_state (PostReboot E ?cli) u = (r, v)" by (metis surj_pair)
  obtain l1 l2 where l: "calls u = calls s @ l1" "list_all unpatched l1" "calls v = calls s @ l2" "list_all unpatched l2"
    using emitsD [OF q(1) p] emitsD [OF q(2) r] pre by auto
  have rec: "tls_recorded E node s t ?n ok"
    if "p = Inr ()" "r = Inr ()" "calls t = calls v @ (CPatchNodeStatus False node ?n, ok) # post"
    for t :: "'w sys" and ok post
    using that p r sec pre(1) unfolding tls_recorded_def by blast
  have post: "wp (case r of Inl err \<Rightarrow> f err | Inr _ \<Rightarrow> do { ures \<leftarrow> patchNodeStatus E False node ?n; g ures }) (\<lambda>_. tls_patches E node s) v"
    if "p = Inr ()" "\<And>err. emits unpatched (f err)" "\<And>ures. emits unpatched (g ures)" for f and g :: "_ \<Rightarrow> ('w sys, gerr option \<times> mcunode) state"
  proof (cases r)
    case (Inl e)
    then show ?thesis using tls_patches_quiet [OF that(2) l(3,4)] by simp
  next
    case (Inr y)
    then show ?thesis
      by (auto simp: wp_simps wp_ext_call split: prod.splits
          intro!: tls_patches_record [OF that(3) _ l(3,4) rec [OF that(1)]])
  qed
  show ?thesis
  proof (cases p)
    case (Inl e)
    show ?thesis
      unfolding push_tls_def Let_def
      by (rule wp_run_bind [OF p]) (unfold Inl sum.case, intro tls_patches_quiet [OF _ l(1,2)] emits_intros ev)
  next
    case (Inr x)
    then have "p = Inr ()" by simp
    from post [OF this] show ?thesis
      unfolding push_tls_def Let_def
      by (intro wp_run_bind [OF p]) (unfold Inr sum.case, intro wp_run_bind [OF r] post emits_intros ev, simp_all add: Inr)
  qed
qed

lemma reconcileTLSCert_recorded: "wp (reconcileTLSCert E rec node) (\<lambda>_. tls_patches E node s) s"
proof -
  have none: "tls_patches E node s t" if "calls t = calls s @ l'" "list_all unpatched l'" for t :: "'a sys" and l'
    using that by (rule tls_patches_none)
  show ?thesis
    unfolding reconcileTLSCert_def currentToken_def Let_def
    by (auto simp: wp_simps intro!: none push_tls_recorded split: prod.splits sum.splits option.splits)
qed

text \<open>The request of a token rotation, from the Secret that was read.\<close>

definition rotation_request :: "mcunode \<Rightarrow> secret \<Rightarrow> http_request" where
  "rotation_request node secret =
     agent_request (agent_New (nst_IP (n_Status node)) (trimSpace (mget (sec_Data secret) ''previousToken'')))
       False ''POST'' ''/token'' (BJson (JObj [(''token'', JStr (trimSpace (mget (sec_Data secret) ''token'')))])) (-1) json_header"

lemma reconcileTokenRotation_calls:
  "adds (\<lambda>c. \<forall>q. fst c = CHttp q \<longrightarrow>
      (\<exists>secret w. kGetSecret E (token_secret_key node (ns_TokenRef (n_Spec node))) (world s) = (Inr secret, w) \<and>
         trimSpace (mget (sec_Data secret) ''previousToken'') \<noteq> '''' \<and> trimSpace (mget (sec_Data secret) ''token'') \<noteq> '''' \<and>
         q = rotation_request node secret))
    (reconcileTokenRotation E rec node) s"
  (is "adds ?P _ s")
proof (cases "sr_Name (ns_TokenRef (n_Spec node)) = ''''")
  case True
  then show ?thesis by (simp add: reconcileTokenRotation_def Let_def emits_adds emits_return)
next
  case False
  let ?get = "getSecret E (token_secret_key node (ns_TokenRef (n_Spec node)))"
  obtain sres w where g: "kGetSecret E (token_secret_key node (ns_TokenRef (n_Spec node))) (world s) = (sres, w)"
    by (metis surj_pair)
  have run: "run_state ?get s = (sres, s\<lparr>world := w, calls := calls s @
      [(CGetSecret (token_secret_key node (ns_TokenRef (n_Spec node))), \<not> isl sres)]\<rparr>)"
    by (simp add: ext_call_def g)
  have q: "emits ?P ?get" by (intro emits_intros) simp
  have ev: "emits ?P (record_event rec n ty reason msg)" for n ty reason msg
    by (rule emits_record_event) simp
  have r: "emits ?P (RotateToken E (agent_New (nst_IP (n_Status node)) (trimSpace (mget (sec_Data secret) ''previousToken'')))
      (trimSpace (mget (sec_Data secret) ''token'')))"
    if "sres = Inr secret" "trimSpace (mget (sec_Data secret) ''previousToken'') \<noteq> ''''"
      "trimSpace (mget (sec_Data secret) ''token'') \<noteq> ''''" for secret
    using that g by (intro emits_intros) (auto simp: rotation_request_def)
  show ?thesis
    unfolding reconcileTokenRotation_def Let_def if_not_P [OF False]
    by (rule adds_run_bind [OF q run], rule emits_adds, intro emits_intros ev r) simp_all
qed

end
