(* ===== verification/NodeProps.thy ===== *)
theory NodeProps
  imports NodeSpec
begin

text \<open>
  The properties of the heartbeat server, the node reconciler and the metrics, with examples on the
  environment of \<open>TestBed\<close>.
\<close>

section \<open>Heartbeats\<close>

text \<open>
  C12: Whatever request reaches the server, on whatever path, and whatever a log connection sends: it
  writes something (a node status, a Secret, a metric; log lines apart) only if the request is a
  heartbeat that carried as bearer token the current or the previous token of the node it names.
\<close>

theorem heartbeat_authenticated:
  assumes "retry_law E" "run_state (hb_Handler E srv path r upgrade) s = (rep, t)"
    and "(k, ok) \<in> set (drop (length (calls s)) (calls t))" "writes k" "\<nexists>a b c d e. k = CLog a b c d e"
  shows "path = ''/v1alpha1/heartbeat'' \<and>
    (\<exists>hb node u m secret. jHeartbeat E (fst (readAllLimited 4096 (sq_Body r))) = Inr hb \<and>
       run_state (findNode E srv (hp_NodeID hb)) s = (Inr node, u) \<and>
       auth_as E srv (sq_Authorization r) node (world u) m secret)"
  using adds_new [OF hb_Handler_auth [OF assms(1)] assms(2,3)] assms(4,5)
  unfolding hb_auth_def fst_conv by blast

definition bed_hb :: heartbeat_payload where
  "bed_hb = \<lparr>hp_NodeID = ''id1'', hp_IP = ''10.0.0.2'', hp_TS = 5, hp_State = ''running'',
     hp_DeploymentID = ''dep1'', hp_FirmwareDigest = '''', hp_OtaValidated = True, hp_UptimeMs = 1,
     hp_HeapFree = 1, hp_RSSI = 1, hp_ConfigGeneration = 0, hp_TempCelsius = 0, hp_TaskHwmMin = 1,
     hp_Reason = ''''\<rparr>"

definition bed_tokens :: secret where
  "bed_tokens = bed_secret [''token'' \<mapsto> ''x'', ''previousToken'' \<mapsto> ''p'']"

definition bed_hbE :: "unit ext" where
  "bed_hbE = bedE\<lparr>kListNodes := (\<lambda>_ w. (Inr [bed_node], w)), kGetNode := (\<lambda>_ w. (Inr bed_node, w)),
     kGetSecret := (\<lambda>_ w. (Inr bed_tokens, w)), jHeartbeat := (\<lambda>_. Inr bed_hb)\<rparr>"

definition bed_srv :: hb_server where
  "bed_srv = hb_New '':8080''"

definition bed_request :: server_request where
  "bed_request = \<lparr>sq_Method = ''POST'', sq_Authorization = ''Bearer x'', sq_RemoteAddr = ''10.0.0.2:1'',
     sq_Body = \<lparr>hb_segs = [''{}''], hb_end = REOF, hb_eager = True\<rparr>\<rparr>"

lemma bed_hbE_simps [simp]:
  "kListNodes bed_hbE ns w = (Inr [bed_node], w)" "kGetNode bed_hbE k w = (Inr bed_node, w)"
  "kGetSecret bed_hbE k w = (Inr bed_tokens, w)" "jHeartbeat bed_hbE x = Inr bed_hb"
  "kPatchSecret bed_hbE b z w = (Inr z, w)" "kPatchNodeStatus bed_hbE lk bn n w = (Inr n, w)"
  "kRetryOnConflict bed_hbE = bed_retry 4" "tNow bed_hbE w = (0, w)"
  by (simp_all add: bed_hbE_def bedE_def)

lemma bed_trim: "trimSpace ''x'' = ''x''" "trimSpace ''p'' = ''p''"
  by code_simp+

lemma bed_check: "check_token (sec_Data bed_tokens) ''token'' ''x'' = tokenMatchCurrent"
  by (simp add: check_token_def bed_tokens_def bed_secret_def bed_trim)

lemma bed_find: "run_state (findNode bed_hbE bed_srv ''id1'') s = (Inr bed_node, s\<lparr>calls := calls s @ [(CListNodes None, True)]\<rparr>)"
  by (simp add: findNode_def ext_call_def bed_node_def)

lemma bed_validate: "run_state (validateToken bed_hbE bed_srv ''Bearer x'' bed_node) s =
  ((tokenMatchCurrent, Some bed_tokens), s\<lparr>calls := calls s @ [(CGetSecret \<lparr>key_Namespace = ''ns'', key_Name = ''tok''\<rparr>, True)]\<rparr>)"
  by (simp add: validateToken_def resolveTokenSecret_def bed_node_def bed_meta_def new_meta_def ext_call_def bed_check
      hasPrefix_def trimPrefix_def)

definition bed_stored :: mcunode where
  "bed_stored = upd_nstatus (apply_heartbeat bed_hbE bed_hb ''10.0.0.2'' 0) bed_node"

definition bed_cleared :: secret where
  "bed_cleared = bed_tokens\<lparr>sec_Data := (sec_Data bed_tokens)(''previousToken'' := None)\<rparr>"

lemma bed_heartbeat_run: "run_state (handleHeartbeat bed_hbE bed_srv bed_request) (bed_sys ()) =
  (reply 200 '''', \<lparr>world = (), mstate = UpdateFromHeartbeat (hb_metrics bed_hb bed_stored) metrics_init,
     calls = [(CListNodes None, True), (CGetSecret \<lparr>key_Namespace = ''ns'', key_Name = ''tok''\<rparr>, True),
       (CPatchSecret bed_tokens bed_cleared, True), (CTime, True), (CGetNode (obj_key_of (n_Meta bed_node)), True),
       (CPatchNodeStatus True bed_node bed_stored, True), (CMetrics (MUpdate (hb_metrics bed_hb bed_stored)), True)]\<rparr>)"
proof -
  have req: "sq_Method bed_request = ''POST''" "sq_Authorization bed_request = ''Bearer x''"
    "readAllLimited 4096 (sq_Body bed_request) = (''{}'', None)"
    by (simp_all add: bed_request_def readAllLimited_def body_content_def readAll_def Let_def)
  have hb: "hp_NodeID bed_hb = ''id1''" "hp_State bed_hb \<in> set validNodeStates" "hp_IP bed_hb = ''10.0.0.2''"
    by (simp_all add: bed_hb_def validNodeStates_def)
  have prev: "mget (sec_Data bed_tokens) ''previousToken'' \<noteq> ''''" by (simp add: bed_tokens_def bed_secret_def)
  have rec: "hs_Recorder bed_srv = False" by (simp add: bed_srv_def hb_New_def)
  have att: "run_state (hb_attempt bed_hbE bed_hb ''10.0.0.2'' 0 k) x =
      (Inr bed_stored, x\<lparr>calls := calls x @ [(CGetNode k, True), (CPatchNodeStatus True bed_node bed_stored, True)]\<rparr>)" for k x
    by (simp add: hb_attempt_def ext_call_def bed_stored_def)
  have retry: "run_state (retryOnConflict bed_hbE (hb_attempt bed_hbE bed_hb ''10.0.0.2'' 0 k)) x =
      (Inr bed_stored, x\<lparr>calls := calls x @ [(CGetNode k, True), (CPatchNodeStatus True bed_node bed_stored, True)]\<rparr>)" for k x
    by (simp add: retryOnConflict_def eval_nat_numeral att)
  have store: "run_state (store_heartbeat bed_hbE bed_srv bed_request bed_hb bed_node) x = (reply 200 '''',
      x\<lparr>mstate := UpdateFromHeartbeat (hb_metrics bed_hb bed_stored) (mstate x),
        calls := calls x @ [(CTime, True), (CGetNode (obj_key_of (n_Meta bed_node)), True),
       (CPatchNodeStatus True bed_node bed_stored, True), (CMetrics (MUpdate (hb_metrics bed_hb bed_stored)), True)]\<rparr>)" for x
    using hb by (simp add: store_heartbeat_def rec Let_def now_def retry metrics_update_def)
  show ?thesis
    by (simp add: handleHeartbeat_def req hb bed_find bed_validate accept_heartbeat_def prev clearPreviousToken_def
        ext_call_def store bed_cleared_def bed_sys_def)
qed

lemma bed_server_run: "run_state (hb_Handler bed_hbE bed_srv ''/v1alpha1/heartbeat'' bed_request None) (bed_sys ()) =
  (Some (reply 200 ''''), \<lparr>world = (), mstate = UpdateFromHeartbeat (hb_metrics bed_hb bed_stored) metrics_init,
     calls = [(CListNodes None, True), (CGetSecret \<lparr>key_Namespace = ''ns'', key_Name = ''tok''\<rparr>, True),
       (CPatchSecret bed_tokens bed_cleared, True), (CTime, True), (CGetNode (obj_key_of (n_Meta bed_node)), True),
       (CPatchNodeStatus True bed_node bed_stored, True), (CMetrics (MUpdate (hb_metrics bed_hb bed_stored)), True)]\<rparr>)"
  by (simp add: hb_Handler_def bed_heartbeat_run)

theorem heartbeat_authenticated_witness:
  "''/v1alpha1/heartbeat'' = ''/v1alpha1/heartbeat'' \<and>
   (\<exists>hb node u m secret. jHeartbeat bed_hbE (fst (readAllLimited 4096 (sq_Body bed_request))) = Inr hb \<and>
      run_state (findNode bed_hbE bed_srv (hp_NodeID hb)) (bed_sys ()) = (Inr node, u) \<and>
      auth_as bed_hbE bed_srv (sq_Authorization bed_request) node (world u) m secret)"
  by (rule heartbeat_authenticated [OF bed_retry_law bed_server_run,
        where k = "CPatchNodeStatus True bed_node bed_stored" and ok = True]) simp_all

text \<open>
  A status the heartbeat endpoint writes goes out under the optimistic lock, changes nothing but the
  status, has one of the seven states of the CRD, and is ready exactly when the device is running a
  validated image and its clock is synchronised.
\<close>

theorem heartbeat_status_valid:
  assumes "retry_law E" "run_state (handleHeartbeat E srv r) s = (rep, t)"
    and "(CPatchNodeStatus lock b n, ok) \<in> set (drop (length (calls s)) (calls t))"
  shows "\<exists>hb. jHeartbeat E (fst (readAllLimited 4096 (sq_Body r))) = Inr hb \<and> lock \<and>
    n_Meta n = n_Meta b \<and> n_Spec n = n_Spec b \<and>
    nst_State (n_Status n) = hp_State hb \<and> hp_State hb \<in> set validNodeStates \<and>
    nst_DeploymentID (n_Status n) = hp_DeploymentID hb \<and>
    (nst_Ready (n_Status n) \<longleftrightarrow> hp_State hb = ''running'' \<and> hp_OtaValidated hb \<and> hp_Reason hb \<noteq> ''clock_unsynced'')"
proof -
  from adds_new [OF handleHeartbeat_allowed [OF assms(1)] assms(2,3)] obtain hb m secret ip t' where
    a: "hb_auth E srv r s hb m secret" and w: "lock" "hp_State hb \<in> set validNodeStates"
      "n = upd_nstatus (apply_heartbeat E hb ip t') b"
    by (auto simp: hb_allowed_def hb_write_def)
  from a w show ?thesis
    by (auto simp: hb_auth_def apply_heartbeat_def Let_def hb_ready_def reasonClockUnsynced_def)
qed

theorem heartbeat_status_valid_witness:
  "\<exists>hb. jHeartbeat bed_hbE (fst (readAllLimited 4096 (sq_Body bed_request))) = Inr hb \<and> True \<and>
    n_Meta bed_stored = n_Meta bed_node \<and> n_Spec bed_stored = n_Spec bed_node \<and>
    nst_State (n_Status bed_stored) = hp_State hb \<and> hp_State hb \<in> set validNodeStates \<and>
    nst_DeploymentID (n_Status bed_stored) = hp_DeploymentID hb \<and>
    (nst_Ready (n_Status bed_stored) \<longleftrightarrow> hp_State hb = ''running'' \<and> hp_OtaValidated hb \<and> hp_Reason hb \<noteq> ''clock_unsynced'')"
  by (rule heartbeat_status_valid [OF bed_retry_law bed_heartbeat_run, where ok = True]) simp_all

text \<open>
  The previous token of a node is withdrawn only after a heartbeat that presented the current one:
  the endpoint patches no Secret otherwise, and that patch removes just this field of the Secret it has
  compared with.
\<close>

theorem previous_token_withdrawn_by_current:
  assumes "retry_law E" "run_state (handleHeartbeat E srv r) s = (rep, t)"
    and "(CPatchSecret b x, ok) \<in> set (drop (length (calls s)) (calls t))"
  shows "\<exists>(hb :: heartbeat_payload) node u. run_state (findNode E srv (hp_NodeID hb)) s = (Inr node, u) \<and>
    auth_as E srv (sq_Authorization r) node (world u) tokenMatchCurrent b \<and>
    x = b\<lparr>sec_Data := (sec_Data b)(''previousToken'' := None)\<rparr>"
proof -
  have "hb_allowed E srv r s (CPatchSecret b x, ok)"
    by (rule adds_new [OF handleHeartbeat_allowed [OF assms(1)] assms(2,3)])
  then obtain hb m where a: "hb_auth E srv r s hb m b" "m = tokenMatchCurrent"
      "x = b\<lparr>sec_Data := (sec_Data b)(''previousToken'' := None)\<rparr>"
    by (auto simp: hb_allowed_def)
  from a(1) obtain node u where "run_state (findNode E srv (hp_NodeID hb)) s = (Inr node, u)"
      "auth_as E srv (sq_Authorization r) node (world u) m b"
    unfolding hb_auth_def by blast
  with a(2,3) show ?thesis by blast
qed

theorem previous_token_withdrawn_by_current_witness:
  "\<exists>(hb :: heartbeat_payload) node u. run_state (findNode bed_hbE bed_srv (hp_NodeID hb)) (bed_sys ()) = (Inr node, u) \<and>
    auth_as bed_hbE bed_srv (sq_Authorization bed_request) node (world u) tokenMatchCurrent bed_tokens \<and>
    bed_cleared = bed_tokens\<lparr>sec_Data := (sec_Data bed_tokens)(''previousToken'' := None)\<rparr>"
  by (rule previous_token_withdrawn_by_current [OF bed_retry_law bed_heartbeat_run, where ok = True]) simp_all

section \<open>Logs\<close>

text \<open>
  C36: An entry that comes over the log WebSocket reaches the log only if one of the frames named a node
  whose current or previous token the connection presented.
\<close>

theorem ws_logs_authenticated:
  assumes "run_state (handleLogWS E srv r conn) s = (x, t)"
    and "(CLog level msg node workload lvl, ok) \<in> set (drop (length (calls s)) (calls t))"
  shows "\<exists>at raw entry nd u m secret. (at, WsFrame raw) \<in> set (wc_events conn) \<and> jLog E raw = Inr entry \<and>
    run_state (findNode E srv (lp_Node entry)) s = (Inr nd, u) \<and>
    auth_as E srv (sq_Authorization r) nd (world u) m secret"
  using adds_new [OF ws_loop_auth assms(1) [unfolded handleLogWS_def] assms(2)]
  unfolding ws_auth_def by simp

definition bed_log :: log_payload where
  "bed_log = \<lparr>lp_TS = 1, lp_Node = ''id1'', lp_Workload = ''w'', lp_Level = ''info'', lp_Msg = ''hello''\<rparr>"

definition bed_wsE :: "unit ext" where
  "bed_wsE = bed_hbE\<lparr>jLog := (\<lambda>_. Inr bed_log)\<rparr>"

definition bed_conn :: ws_conn where
  "bed_conn = \<lparr>wc_start = 0, wc_events = [(1 * second, WsFrame ''f''), (2 * second, WsClosed 1000)]\<rparr>"

theorem ws_logs_authenticated_witness:
  "\<exists>at raw entry nd u m secret. (at, WsFrame raw) \<in> set (wc_events bed_conn) \<and> jLog bed_wsE raw = Inr entry \<and>
    run_state (findNode bed_wsE bed_srv (lp_Node entry)) (bed_sys ()) = (Inr nd, u) \<and>
    auth_as bed_wsE bed_srv (sq_Authorization bed_request) nd (world u) m secret"
proof -
  have e: "kListNodes bed_wsE ns w = (Inr [bed_node], w)" "kGetSecret bed_wsE k w = (Inr bed_tokens, w)"
    "jLog bed_wsE x = Inr bed_log" for ns w k x
    by (simp_all add: bed_wsE_def bed_hbE_def bedE_def)
  have f: "run_state (findNode bed_wsE bed_srv ''id1'') s = (Inr bed_node, s\<lparr>calls := calls s @ [(CListNodes None, True)]\<rparr>)" for s
    by (simp add: findNode_def ext_call_def bed_node_def e)
  have v: "run_state (validateToken bed_wsE bed_srv ''Bearer x'' bed_node) s =
      ((tokenMatchCurrent, Some bed_tokens), s\<lparr>calls := calls s @ [(CGetSecret \<lparr>key_Namespace = ''ns'', key_Name = ''tok''\<rparr>, True)]\<rparr>)" for s
    by (simp add: validateToken_def resolveTokenSecret_def bed_node_def bed_meta_def new_meta_def ext_call_def bed_check
        hasPrefix_def trimPrefix_def e)
  have "lp_Node bed_log = ''id1''" "sq_Authorization bed_request = ''Bearer x''"
    by (simp_all add: bed_log_def bed_request_def)
  then obtain t where "run_state (handleLogWS bed_wsE bed_srv bed_request bed_conn) (bed_sys ()) = (2 * second, t)"
    "(CLog ''info'' ''hello'' ''id1'' ''w'' ''info'', True) \<in> set (drop (length (calls (bed_sys ()))) (calls t))"
    by (simp add: handleLogWS_def bed_conn_def e f v logEntry_def emit_def bed_log_def wsReadDeadline_def second_def log_authenticated_def)
  from ws_logs_authenticated [OF this] show ?thesis .
qed

text \<open>
  C37: A log connection ends at the latest 60 seconds after its start, its last frame and its last pong,
  whatever else happens on it: a peer that goes silent holds no goroutine, before its authentication or
  after.
\<close>

theorem ws_silent_dropped:
  assumes "run_state (handleLogWS E srv r conn) s = (closed_at, t)"
    and "wc_start conn \<le> last_alive" "\<And>at ev. (at, ev) \<in> set (wc_events conn) \<Longrightarrow> ws_alive ev \<Longrightarrow> at \<le> last_alive"
  shows "closed_at \<le> last_alive + 60 * second"
  using wpD [OF ws_loop_bound assms(1) [unfolded handleLogWS_def], of last_alive] assms(2,3)
  by (simp add: wsReadDeadline_def)

theorem ws_silent_dropped_witness:
  "fst (run_state (handleLogWS bed_hbE bed_srv bed_request
     \<lparr>wc_start = 0, wc_events = [(20 * second, WsPong), (1000 * second, WsPingFailed)]\<rparr>) (bed_sys ())) \<le> 20 * second + 60 * second"
  by (rule ws_silent_dropped [OF prod.collapse [symmetric]]) (auto simp: second_def)

text \<open>
  Pongs alone keep a connection open: a peer that answers the pings and sends no frame is not dropped,
  although it has not authenticated.
\<close>

lemma ws_pongs_keep_open:
  "fst (run_state (ws_loop E srv r False (at + wsReadDeadline) (map (\<lambda>k. (at + int (Suc k) * wsPingInterval, WsPong)) [0..<n])) s)
     = at + int n * wsPingInterval + wsReadDeadline"
proof (induction n arbitrary: at s)
  case (Suc n)
  have "map (\<lambda>k. (at + int (Suc k) * wsPingInterval, WsPong)) [0..<Suc n] =
      (at + wsPingInterval, WsPong) # map (\<lambda>k. ((at + wsPingInterval) + int (Suc k) * wsPingInterval, WsPong)) [0..<n]"
    by (simp add: map_upt_Suc algebra_simps del: upt_Suc)
  moreover have "wsPingInterval \<le> wsReadDeadline" by (simp add: wsPingInterval_def wsReadDeadline_def second_def)
  ultimately show ?case using Suc.IH [of "at + wsPingInterval" s] by (simp add: algebra_simps)
qed (simp add: log_read_failed_def emit_def)

section \<open>Readiness\<close>

text \<open>
  C19: The node reconciler marks a node ready exactly when its last heartbeat is at most ten seconds old
  and reported a running, validated image.
\<close>

theorem node_ready_iff_fresh:
  assumes "tNow E (world s) = (t, w)" "patch_echo E"
    and "run_state (reconcile_live E rec node) s = (r, u)"
    and "(CPatchNodeStatus True b n, ok) \<in> set (drop (length (calls s)) (calls u))"
  shows "b = node \<and> (nst_Ready (n_Status n) \<longleftrightarrow>
    (\<exists>hb. nst_LastHeartbeat (n_Status node) = Some hb \<and> t - hb \<le> 10 * second) \<and>
    nst_State (n_Status node) = ''running'' \<and> nst_OtaValidated (n_Status node))"
  using adds_new [OF reconcile_live_adds [OF assms(1,2)] assms(3,4)] by (simp add: fresh_status_def)

definition bed_absent :: "int \<Rightarrow> unit ext" where
  "bed_absent t = bedE\<lparr>tNow := (\<lambda>w. (t, w)), kGetService := (\<lambda>_ w. (Inl (ApiNotFound ''svc''), w)),
     kGetSlice := (\<lambda>_ w. (Inl (ApiNotFound ''slice''), w))\<rparr>"

lemma bed_absent_simps [simp]:
  "tNow (bed_absent t) w = (t, w)" "kPatchNodeStatus (bed_absent t) lk b n w = (Inr n, w)"
  "kPatchDeploymentStatus (bed_absent t) bd d w = (Inr d, w)"
  "kSetControllerReference (bed_absent t) n m = Inr (m\<lparr>m_OwnerReferences := [m_UID (n_Meta n)]\<rparr>)"
  "kGetService (bed_absent t) k w = (Inl (ApiNotFound ''svc''), w)" "kCreateService (bed_absent t) sv w = (Inr sv, w)"
  "kGetSlice (bed_absent t) k w = (Inl (ApiNotFound ''slice''), w)" "kCreateSlice (bed_absent t) x w = (Inr x, w)"
  "kGetSecret (bed_absent t) k w = (Inl (ApiOther ''unavailable''), w)"
  by (simp_all add: bed_absent_def bedE_def)

lemma bed_absent_echo: "patch_echo (bed_absent t)"
  by (simp add: patch_echo_def)

definition bed_judged :: "int \<Rightarrow> mcunode \<Rightarrow> mcunode" where
  "bed_judged t node = upd_nstatus (node_status_update (bed_absent t) (time_since t 0 > HeartbeatTimeout)) node"

lemma bed_live_run:
  assumes "nst_LastHeartbeat (n_Status node) = Some 0" "nst_IP (n_Status node) = ''10.0.0.1''"
    and "sr_Name (ns_TokenRef (n_Spec node)) \<noteq> ''''"
  shows "\<exists>u r x. run_state (reconcile_live (bed_absent t) True node) (bed_sys ()) = (r, u) \<and>
    (CPatchNodeStatus True node (bed_judged t node), True) \<in> set (drop (length (calls (bed_sys ()))) (calls u)) \<and>
    (CCreateSlice x, True) \<in> set (drop (length (calls (bed_sys ()))) (calls u)) \<and>
    es_Endpoints x = [\<lparr>ep_Addresses = [''10.0.0.1''], ep_Ready = nst_Ready (n_Status (bed_judged t node))\<rparr>]"
proof -
  have n: "nst_IP (n_Status (bed_judged t node)) = ''10.0.0.1''"
    "sr_Name (ns_TokenRef (n_Spec (bed_judged t node))) \<noteq> ''''"
    using assms by (simp_all add: bed_judged_def node_status_update_facts)
  have ip: "nst_IP (node_status_update (bed_absent t) ex (n_Status node)) = ''10.0.0.1''" for ex
    using assms by (simp add: node_status_update_facts)
  show ?thesis
    by (simp add: reconcile_live_def heartbeat_expired_def assms n ip now_def ext_call_def bed_judged_def [symmetric]
        reconcile_device_def reconcileService_def reconcileEndpointSlice_def Let_def err_of_def
        reconcileTokenRotation_def IgnoreNotFound_def)
       (auto simp: desired_slice_def n intro!: exI)
qed

lemma bed_node_live:
  "nst_LastHeartbeat (n_Status bed_node) = Some 0" "nst_IP (n_Status bed_node) = ''10.0.0.1''"
  "sr_Name (ns_TokenRef (n_Spec bed_node)) \<noteq> ''''"
  by (simp_all add: bed_node_def)

theorem node_ready_iff_fresh_witness:
  "(nst_Ready (n_Status (bed_judged (11 * second) bed_node)) \<longleftrightarrow>
    (\<exists>hb. nst_LastHeartbeat (n_Status bed_node) = Some hb \<and> 11 * second - hb \<le> 10 * second) \<and>
    nst_State (n_Status bed_node) = ''running'' \<and> nst_OtaValidated (n_Status bed_node)) \<and>
   \<not> nst_Ready (n_Status (bed_judged (11 * second) bed_node))"
proof -
  obtain r u where "run_state (reconcile_live (bed_absent (11 * second)) True bed_node) (bed_sys ()) = (r, u)"
    "(CPatchNodeStatus True bed_node (bed_judged (11 * second) bed_node), True) \<in> set (drop (length (calls (bed_sys ()))) (calls u))"
    using bed_live_run [OF bed_node_live] by blast
  from node_ready_iff_fresh [OF bed_absent_simps(1) bed_absent_echo this]
  show ?thesis by (simp add: second_def) (simp add: bed_node_def)
qed

text \<open>
  C18: The EndpointSlice of a device is published as ready exactly when the node is: traffic is not
  directed to a device whose last heartbeat is older than ten seconds, or that does not run a validated
  image.
\<close>

theorem traffic_only_to_fresh_nodes:
  assumes "tNow E (world s) = (t, w)" "patch_echo E"
    and "run_state (reconcile_live E rec node) s = (r, u)"
    and "(k, ok) \<in> set (drop (length (calls s)) (calls u))" "k = CCreateSlice x \<or> k = CPatchSlice old x"
  shows "\<exists>ip. es_Endpoints x = [\<lparr>ep_Addresses = [ip], ep_Ready =
    ((\<exists>hb. nst_LastHeartbeat (n_Status node) = Some hb \<and> t - hb \<le> 10 * second) \<and>
     nst_State (n_Status node) = ''running'' \<and> nst_OtaValidated (n_Status node))\<rparr>]"
  using adds_new [OF reconcile_live_adds [OF assms(1,2)] assms(3,4)] assms(5)
  by (auto simp: fresh_status_def)

theorem traffic_only_to_fresh_nodes_witness:
  "\<exists>(x :: endpoint_slice) ip. es_Endpoints x = [\<lparr>ep_Addresses = [ip], ep_Ready =
    ((\<exists>hb. nst_LastHeartbeat (n_Status bed_node) = Some hb \<and> 5 * second - hb \<le> 10 * second) \<and>
     nst_State (n_Status bed_node) = ''running'' \<and> nst_OtaValidated (n_Status bed_node))\<rparr>]"
proof -
  obtain r u x where run: "run_state (reconcile_live (bed_absent (5 * second)) True bed_node) (bed_sys ()) = (r, u)"
    and c: "(CCreateSlice x, True) \<in> set (drop (length (calls (bed_sys ()))) (calls u))"
    using bed_live_run [OF bed_node_live] by blast
  from traffic_only_to_fresh_nodes [OF bed_absent_simps(1) bed_absent_echo run c disjI1 [OF refl]]
  show ?thesis by blast
qed

section \<open>Deletion\<close>





section \<open>Certificate and token\<close>

text \<open>
  C31: The digest of a TLS certificate is recorded in the status only after the certificate and key of the
  Secret were posted to the device and accepted, and then the reboot was accepted: the patch is the next
  step after these two requests, and it changes nothing else of the node.
\<close>

theorem tls_digest_recorded_after_push:
  assumes "run_state (reconcileTLSCert E rec node) s = (r, t)"
    and "(CPatchNodeStatus lock b n, ok) \<in> set (drop (length (calls s)) (calls t))"
  shows "b = node \<and> (\<exists>secret w token s' u v pre post.
    kGetSecret E (token_secret_key node (ns_TLSSecretRef (n_Spec node))) (world s) = (Inr secret, w) \<and>
    calls s' = calls s @ pre \<and>
    run_state (PostTLSCert E (agent_New (nst_IP (n_Status node)) token)
      (mget (sec_Data secret) ''tls.crt'') (mget (sec_Data secret) ''tls.key'')) s' = (Inr (), u) \<and>
    run_state (PostReboot E (agent_New (nst_IP (n_Status node)) token)) u = (Inr (), v) \<and>
    calls t = calls v @ (CPatchNodeStatus False node n, ok) # post \<and>
    n = upd_nstatus (\<lambda>st. st\<lparr>nst_TLSCertDigest :=
          xSHA256Hex E (mget (sec_Data secret) ''tls.crt'' @ mget (sec_Data secret) ''tls.key'')\<rparr>) node)"
proof -
  from wpD [OF reconcileTLSCert_recorded assms(1)] obtain l where l: "calls t = calls s @ l"
    and rec: "\<And>lock b n ok. (CPatchNodeStatus lock b n, ok) \<in> set l \<Longrightarrow> b = node \<and> tls_recorded E node s t n ok"
    unfolding tls_patches_def by blast
  have "b = node \<and> tls_recorded E node s t n ok" by (rule rec [of lock]) (use assms(2) l in simp)
  then show ?thesis unfolding tls_recorded_def .
qed

definition bed_pair :: secret where
  "bed_pair = bed_secret [''token'' \<mapsto> ''x'', ''tls.crt'' \<mapsto> ''c'', ''tls.key'' \<mapsto> ''k'']"

definition bed_tlsE :: "unit ext" where
  "bed_tlsE = bedE\<lparr>kGetSecret := (\<lambda>_ w. (Inr bed_pair, w)), hDo := (\<lambda>_ w. (Inr (bed_ok ''''), w))\<rparr>"

definition bed_tls_node :: mcunode where
  "bed_tls_node = bed_node\<lparr>n_Spec := (n_Spec bed_node)\<lparr>ns_TLSSecretRef := \<lparr>sr_Name = ''tls'', sr_Namespace = ''''\<rparr>\<rparr>\<rparr>"

lemma bed_tls_run: "\<exists>r t n. run_state (reconcileTLSCert bed_tlsE True bed_tls_node) (bed_sys ()) = (r, t) \<and>
  (CPatchNodeStatus False bed_tls_node n, True) \<in> set (drop (length (calls (bed_sys ()))) (calls t)) \<and>
  nst_TLSCertDigest (n_Status n) = ''ck''"
proof -
  have e: "kGetSecret bed_tlsE k w = (Inr bed_pair, w)" "hDo bed_tlsE q w = (Inr (bed_ok ''''), w)"
    "hNewRequest bed_tlsE m u = None" "kPatchNodeStatus bed_tlsE lk b n w = (Inr n, w)" "xSHA256Hex bed_tlsE x = x"
    for k w q m u lk b n x by (simp_all add: bed_tlsE_def bedE_def)
  have p: "mget (sec_Data bed_pair) ''tls.crt'' = ''c''" "mget (sec_Data bed_pair) ''tls.key'' = ''k''"
    "mget (sec_Data bed_pair) ''token'' = ''x''" by (simp_all add: bed_pair_def bed_secret_def)
  have n: "ns_TLSSecretRef (n_Spec bed_tls_node) = \<lparr>sr_Name = ''tls'', sr_Namespace = ''''\<rparr>"
    "sr_Name (ns_TokenRef (n_Spec bed_tls_node)) = ''tok''" "nst_TLSCertDigest (n_Status bed_tls_node) = ''''"
    by (simp_all add: bed_tls_node_def bed_node_def)
  have h: "rs_StatusCode (bed_ok '''') = 200" by (simp add: bed_ok_def)
  show ?thesis
    by (simp add: reconcileTLSCert_def Let_def n ext_call_def e p currentToken_def bed_trim push_tls_def PostTLSCert_def
        PostReboot_def agent_do_def doWith_def h record_event_def emit_def)
qed

theorem tls_digest_recorded_after_push_witness:
  "\<exists>n token s' u v.
    run_state (PostTLSCert bed_tlsE (agent_New ''10.0.0.1'' token) ''c'' ''k'') s' = (Inr (), u) \<and>
    run_state (PostReboot bed_tlsE (agent_New ''10.0.0.1'' token)) u = (Inr (), v) \<and>
    n = upd_nstatus (\<lambda>st. st\<lparr>nst_TLSCertDigest := ''ck''\<rparr>) bed_tls_node"
proof -
  obtain r t n where "run_state (reconcileTLSCert bed_tlsE True bed_tls_node) (bed_sys ()) = (r, t)"
    "(CPatchNodeStatus False bed_tls_node n, True) \<in> set (drop (length (calls (bed_sys ()))) (calls t))"
    using bed_tls_run by blast
  note c = tls_digest_recorded_after_push [OF this]
  have e: "kGetSecret bed_tlsE k w = (Inr bed_pair, w)" "xSHA256Hex bed_tlsE x = x" for k w x
    by (simp_all add: bed_tlsE_def bedE_def)
  have p: "mget (sec_Data bed_pair) ''tls.crt'' = ''c''" "mget (sec_Data bed_pair) ''tls.key'' = ''k''"
    by (simp_all add: bed_pair_def bed_secret_def)
  have ip: "nst_IP (n_Status bed_tls_node) = ''10.0.0.1''" by (simp add: bed_tls_node_def bed_node_def)
  from c obtain secret w token s' u v where
    "kGetSecret bed_tlsE (token_secret_key bed_tls_node (ns_TLSSecretRef (n_Spec bed_tls_node))) (world (bed_sys ())) = (Inr secret, w)"
    "run_state (PostTLSCert bed_tlsE (agent_New ''10.0.0.1'' token)
      (mget (sec_Data secret) ''tls.crt'') (mget (sec_Data secret) ''tls.key'')) s' = (Inr (), u)"
    "run_state (PostReboot bed_tlsE (agent_New ''10.0.0.1'' token)) u = (Inr (), v)"
    "n = upd_nstatus (\<lambda>st. st\<lparr>nst_TLSCertDigest :=
          xSHA256Hex bed_tlsE (mget (sec_Data secret) ''tls.crt'' @ mget (sec_Data secret) ''tls.key'')\<rparr>) bed_tls_node"
    unfolding ip by blast
  then show ?thesis by (auto simp: e p)
qed

text \<open>
  A token rotation sends no request but \<open>POST /token\<close>, authenticated with the previous token
  of the Secret and carrying its current token, and only while both are there: once the endpoint has
  withdrawn the previous token, nothing is sent.
\<close>

theorem rotation_uses_previous_token:
  assumes "run_state (reconcileTokenRotation E rec node) s = (r, t)"
    and "(CHttp q, ok) \<in> set (drop (length (calls s)) (calls t))"
  shows "\<exists>secret w.
    kGetSecret E (token_secret_key node (ns_TokenRef (n_Spec node))) (world s) = (Inr secret, w) \<and>
    trimSpace (mget (sec_Data secret) ''previousToken'') \<noteq> '''' \<and> trimSpace (mget (sec_Data secret) ''token'') \<noteq> '''' \<and>
    q = agent_request (agent_New (nst_IP (n_Status node)) (trimSpace (mget (sec_Data secret) ''previousToken'')))
      False ''POST'' ''/token'' (BJson (JObj [(''token'', JStr (trimSpace (mget (sec_Data secret) ''token'')))])) (-1) json_header"
  using adds_new [OF reconcileTokenRotation_calls assms] by (simp add: rotation_request_def)

theorem rotation_uses_previous_token_witness:
  "\<exists>secret w.
    kGetSecret bed_hbE (token_secret_key bed_node (ns_TokenRef (n_Spec bed_node))) () = (Inr secret, w) \<and>
    trimSpace (mget (sec_Data secret) ''previousToken'') \<noteq> '''' \<and> trimSpace (mget (sec_Data secret) ''token'') \<noteq> '''' \<and>
    agent_request (agent_New ''10.0.0.1'' ''p'') False ''POST'' ''/token'' (BJson (JObj [(''token'', JStr ''x'')])) (-1) json_header =
    agent_request (agent_New (nst_IP (n_Status bed_node)) (trimSpace (mget (sec_Data secret) ''previousToken'')))
      False ''POST'' ''/token'' (BJson (JObj [(''token'', JStr (trimSpace (mget (sec_Data secret) ''token'')))])) (-1) json_header"
proof -
  let ?q = "agent_request (agent_New ''10.0.0.1'' ''p'') False ''POST'' ''/token'' (BJson (JObj [(''token'', JStr ''x'')])) (-1) json_header"
  have p: "mget (sec_Data bed_tokens) ''previousToken'' = ''p''" "mget (sec_Data bed_tokens) ''token'' = ''x''"
    by (simp_all add: bed_tokens_def bed_secret_def)
  have n: "sr_Name (ns_TokenRef (n_Spec bed_node)) = ''tok''" "nst_IP (n_Status bed_node) = ''10.0.0.1''"
    by (simp_all add: bed_node_def)
  have h: "hNewRequest bed_hbE m u = None" "hDo bed_hbE q w = (Inl (NetErr ''unreachable''), w)" for m u q w
    by (simp_all add: bed_hbE_def bedE_def)
  obtain r t where "run_state (reconcileTokenRotation bed_hbE True bed_node) (bed_sys ()) = (r, t)"
    "(CHttp ?q, False) \<in> set (drop (length (calls (bed_sys ()))) (calls t))"
    by (simp add: reconcileTokenRotation_def Let_def n ext_call_def p bed_trim RotateToken_def agent_do_def doWith_def h
        record_event_def emit_def)
  from rotation_uses_previous_token [OF this] show ?thesis unfolding bed_sys_sel .
qed

section \<open>A clock that is not synchronised\<close>

text \<open>
  A heartbeat that reports a clock that is not synchronised leaves the node not ready, but the node
  reconciler, which looks only at the age of the heartbeat, the state and the validation, marks the node
  ready in its next run within the ten seconds.
\<close>

theorem unsynced_node_becomes_ready:
  assumes "n_Status node = apply_heartbeat E hb ip t0 st" "hp_Reason hb = ''clock_unsynced''"
    and "hp_State hb = ''running''" "hp_OtaValidated hb"
    and "tNow E (world s) = (t, w)" "t - t0 \<le> 10 * second" "patch_echo E"
    and "run_state (reconcile_live E rec node) s = (r, u)"
    and "(CPatchNodeStatus True b n, ok) \<in> set (drop (length (calls s)) (calls u))"
  shows "\<not> nst_Ready (n_Status node) \<and> nst_Ready (n_Status n)"
proof -
  have "fresh_status t (n_Status node)" "\<not> nst_Ready (n_Status node)"
    using assms(2-4,6) by (simp_all add: assms(1) fresh_status_def apply_heartbeat_def Let_def hb_ready_def reasonClockUnsynced_def)
  with adds_new [OF reconcile_live_adds [OF assms(5,7)] assms(8,9)] show ?thesis by simp
qed

definition bed_unsynced :: mcunode where
  "bed_unsynced = upd_nstatus (apply_heartbeat (bed_absent (5 * second)) (bed_hb\<lparr>hp_Reason := ''clock_unsynced''\<rparr>)
     ''10.0.0.1'' 0) bed_node"

theorem unsynced_node_becomes_ready_witness:
  "\<not> nst_Ready (n_Status bed_unsynced) \<and> nst_Ready (n_Status (bed_judged (5 * second) bed_unsynced))"
proof -
  let ?hb = "bed_hb\<lparr>hp_Reason := ''clock_unsynced''\<rparr>"
  have st: "n_Status bed_unsynced = apply_heartbeat (bed_absent (5 * second)) ?hb ''10.0.0.1'' 0 (n_Status bed_node)"
    by (simp add: bed_unsynced_def)
  have "nst_LastHeartbeat (n_Status bed_unsynced) = Some 0" "nst_IP (n_Status bed_unsynced) = ''10.0.0.1''"
    "sr_Name (ns_TokenRef (n_Spec bed_unsynced)) \<noteq> ''''"
    by (simp_all add: bed_unsynced_def apply_heartbeat_def Let_def bed_node_def)
  from bed_live_run [OF this] obtain r u where run:
    "run_state (reconcile_live (bed_absent (5 * second)) True bed_unsynced) (bed_sys ()) = (r, u)"
    "(CPatchNodeStatus True bed_unsynced (bed_judged (5 * second) bed_unsynced), True) \<in>
       set (drop (length (calls (bed_sys ()))) (calls u))"
    by blast
  show ?thesis
    by (rule unsynced_node_becomes_ready [OF st _ _ _ bed_absent_simps(1) _ bed_absent_echo run])
       (simp_all add: bed_hb_def second_def)
qed

section \<open>Metrics\<close>

text \<open>
  C32: After any sequence of heartbeats and removals that do not overlap, the gauges expose one label set
  for every node that sent a heartbeat since it was last removed, and none for any other.
\<close>

theorem one_series_per_live_node:
  "inj_on ml_node_id (series (run_metrics ops metrics_init)) \<and>
   ml_node_id ` series (run_metrics ops metrics_init) = live_nodes ops {} \<and>
   card (series (run_metrics ops metrics_init)) = card (live_nodes ops {})"
  using reg.one_per_node_run [of metrics_init ops] reg.exposed_nodes_run [of metrics_init ops]
    reg.card_exposed_run [of metrics_init ops]
  by (simp add: run_metrics_reg live_nodes_reg metrics_wf_init reg.one_per_node_def)

text \<open>
  \<open>UpdateFromHeartbeat\<close> writes its gauges after it has released the lock. If the removal of the node
  runs in between, the series of the node are exposed again while \<open>prevLabels\<close> has forgotten them, and
  no later removal of this node deletes them.
\<close>

theorem late_gauges_survive_removal:
  "let raced = setGauges d (RemoveNode (hd_NodeID d) (updateLabelsLocked d st)) in
   labels_of d \<in> series raced \<and> prevLabels raced (hd_NodeID d) = None \<and>
   RemoveNode (hd_NodeID d) raced = raced"
  by (simp add: Let_def RemoveNode_def [of _ "setGauges _ _"])

end
