(* ===== verification/DeepCopy.thy ===== *)
theory DeepCopy
  imports ApiTypes "HOL-Library.AList"
begin

text \<open>
  \<open>api/v1alpha1/zz_generated.deepcopy.go\<close>, which is written by hand, over an explicit Go heap. The
  controllers take \<open>DeepCopy\<close> of an object as the base of a patch and then change the object in place,
  so the patch is right only if the copy shares no map, slice or pointer with it. The other theories
  treat objects as values; this one shows that this is sound.

  A struct is a value whose maps, slices and pointers are addresses. \<open>DeepCopyInto\<close> of \<open>ObjectMeta\<close> and
  \<open>ListMeta\<close> belongs to apimachinery and is a parameter.
\<close>

section \<open>The heap\<close>

type_synonym addr = nat

record go_slice =
  sl_arr :: addr
  sl_off :: nat
  sl_len :: nat

text \<open>The metadata structs: what is a value, and the references in them (\<open>None\<close> is \<open>nil\<close>).\<close>

record type_meta =
  tm_Kind :: string
  tm_APIVersion :: string

record raw_meta =
  rm_Plain :: object_meta  \<comment> \<open>its string fields\<close>
  rm_Labels :: "addr option"
  rm_Annotations :: "addr option"
  rm_Finalizers :: "go_slice option"
  rm_OwnerReferences :: "go_slice option"
  rm_DeletionTimestamp :: "addr option"

record raw_list_meta =
  rl_ResourceVersion :: string
  rl_Continue :: string
  rl_RemainingItemCount :: "addr option"

record raw_nstatus =
  rs_Plain :: mcunode_status  \<comment> \<open>its strings, numbers and booleans\<close>
  rs_LastHeartbeat :: "addr option"
  rs_Conditions :: "go_slice option"

record raw_node =
  rn_Type :: type_meta
  rn_Meta :: raw_meta
  rn_Spec :: mcunode_spec
  rn_Status :: raw_nstatus

record raw_configmap =
  rc_Type :: type_meta
  rc_Meta :: raw_meta
  rc_Data :: "addr option"

record raw_dspec =
  rds_Plain :: mcudeployment_spec  \<comment> \<open>without the selector\<close>
  rds_Firmware :: firmware_spec
  rds_NodeSelector :: "addr option"

record raw_dstatus =
  rdt_Plain :: mcudeployment_status  \<comment> \<open>without the conditions\<close>
  rdt_Conditions :: "go_slice option"

record raw_deployment =
  rd_Type :: type_meta
  rd_Meta :: raw_meta
  rd_Spec :: raw_dspec
  rd_Status :: raw_dstatus

record raw_list =
  rl_Type :: type_meta
  rl_Meta :: raw_list_meta
  rl_Items :: "go_slice option"

datatype cell =
    CMap "(string \<times> string) list"  \<comment> \<open>the entries of a \<open>map[string]string\<close>\<close>
  | CStrings "string list"
  | CStamp int
  | CCount int
  | CConds "condition list"
  | CNode raw_node
  | CNodes "raw_node list"
  | CNodeList raw_list
  | CConfigMap raw_configmap
  | CConfigMaps "raw_configmap list"
  | CConfigMapList raw_list
  | CDep raw_deployment
  | CDeps "raw_deployment list"
  | CDepList raw_list

record heap =
  h_cells :: "addr \<rightharpoonup> cell"
  h_next :: addr

definition heap_wf :: "heap \<Rightarrow> bool" where
  "heap_wf h \<longleftrightarrow> (\<forall>a. h_next h \<le> a \<longrightarrow> h_cells h a = None)"

definition alloc :: "cell \<Rightarrow> heap \<Rightarrow> addr \<times> heap" where
  "alloc c h = (h_next h, h\<lparr>h_cells := (h_cells h)(h_next h \<mapsto> c), h_next := Suc (h_next h)\<rparr>)"

definition agree :: "addr set \<Rightarrow> heap \<Rightarrow> heap \<Rightarrow> bool" where
  "agree A h h' \<longleftrightarrow> (\<forall>a \<in> A. h_cells h' a = h_cells h a)"

definition extends :: "heap \<Rightarrow> heap \<Rightarrow> bool" where
  "extends h h' \<longleftrightarrow> h_next h \<le> h_next h' \<and> agree {..<h_next h} h h'"

lemma extends_refl [simp]: "extends h h"
  by (simp add: extends_def agree_def)

lemma extends_trans: "extends h h1 \<Longrightarrow> extends h1 h2 \<Longrightarrow> extends h h2"
  by (auto simp: extends_def agree_def)

lemma extends_next: "extends h h' \<Longrightarrow> h_next h \<le> h_next h'"
  by (simp add: extends_def)

lemma agree_subset: "agree B h h' \<Longrightarrow> A \<subseteq> B \<Longrightarrow> agree A h h'"
  by (auto simp: agree_def)

lemma extends_agree: "extends h h' \<Longrightarrow> agree {..<h_next h} h h'"
  by (simp add: extends_def)

lemma alloc_facts:
  assumes "alloc c h = (a, h')" "heap_wf h"
  shows "a = h_next h" "heap_wf h'" "extends h h'" "h_next h' = Suc (h_next h)" "h_cells h' a = Some c"
  using assms by (auto simp: alloc_def heap_wf_def extends_def agree_def)

section \<open>What a deep copy has to do\<close>

text \<open>
  \<open>read\<close> is what a value means in a heap, \<open>closed\<close> that its references are allocated cells of the right
  type. A copy leaves the old cells alone, and what it reads depends only on cells it has allocated.
\<close>

locale deep_copy =
  fixes read :: "heap \<Rightarrow> 'a \<Rightarrow> 'b"
    and copy :: "'a \<Rightarrow> heap \<Rightarrow> 'a \<times> heap"
    and closed :: "heap \<Rightarrow> 'a \<Rightarrow> bool"
  assumes stable: "closed h x \<Longrightarrow> extends h h' \<Longrightarrow> closed h' x"
    and local: "closed h x \<Longrightarrow> agree {..<h_next h} h h' \<Longrightarrow> read h' x = read h x"
    and copied: "heap_wf h \<Longrightarrow> closed h x \<Longrightarrow> copy x h = (y, h') \<Longrightarrow> heap_wf h' \<and> extends h h' \<and> closed h' y"
    and fresh: "heap_wf h \<Longrightarrow> closed h x \<Longrightarrow> copy x h = (y, h') \<Longrightarrow>
      agree {h_next h..<h_next h'} h' h'' \<Longrightarrow> read h'' y = read h x"
begin

lemma copy_equal: "heap_wf h \<Longrightarrow> closed h x \<Longrightarrow> copy x h = (y, h') \<Longrightarrow> read h' y = read h x"
  by (rule fresh) (auto simp: agree_def)

lemma original_kept: "heap_wf h \<Longrightarrow> closed h x \<Longrightarrow> copy x h = (y, h') \<Longrightarrow> read h' x = read h x"
  using copied local extends_agree by metis

end

text \<open>The items of a list, copied one after the other.\<close>

fun copy_items :: "('a \<Rightarrow> heap \<Rightarrow> 'a \<times> heap) \<Rightarrow> 'a list \<Rightarrow> heap \<Rightarrow> 'a list \<times> heap" where
  "copy_items copy [] h = ([], h)"
| "copy_items copy (x # xs) h =
     (let (y, h1) = copy x h; (ys, h2) = copy_items copy xs h1 in (y # ys, h2))"

text \<open>A new map or object, filled from the one behind a pointer (\<open>nil\<close> stays \<open>nil\<close>).\<close>

definition new_copy ::
  "('a \<Rightarrow> cell) \<Rightarrow> (cell \<Rightarrow> 'a option) \<Rightarrow> ('a \<Rightarrow> heap \<Rightarrow> 'a \<times> heap) \<Rightarrow> addr option \<Rightarrow> heap \<Rightarrow> addr option \<times> heap" where
  "new_copy mk get copy p h =
     (case p of
        None \<Rightarrow> (None, h)
      | Some a \<Rightarrow>
          (case Option.bind (h_cells h a) get of
             None \<Rightarrow> (p, h)
           | Some x \<Rightarrow> let (y, h1) = copy x h; (b, h2) = alloc (mk y) h1 in (Some b, h2)))"

definition slice_items :: "(cell \<Rightarrow> 'a list option) \<Rightarrow> heap \<Rightarrow> go_slice \<Rightarrow> 'a list option" where
  "slice_items get h s = map_option (\<lambda>xs. take (sl_len s) (drop (sl_off s) xs)) (Option.bind (h_cells h (sl_arr s)) get)"

text \<open>\<open>make\<close> of a slice of the same length, filled from the old one (\<open>nil\<close> stays \<open>nil\<close>).\<close>

definition new_slice ::
  "('a list \<Rightarrow> cell) \<Rightarrow> (cell \<Rightarrow> 'a list option) \<Rightarrow> ('a \<Rightarrow> heap \<Rightarrow> 'a \<times> heap) \<Rightarrow>
     go_slice option \<Rightarrow> heap \<Rightarrow> go_slice option \<times> heap" where
  "new_slice mk get copy p h =
     (case p of
        None \<Rightarrow> (None, h)
      | Some s \<Rightarrow>
          (case slice_items get h s of
             None \<Rightarrow> (p, h)
           | Some xs \<Rightarrow>
               let (ys, h1) = copy_items copy xs h; (b, h2) = alloc (mk ys) h1
               in (Some \<lparr>sl_arr = b, sl_off = 0, sl_len = length ys\<rparr>, h2)))"

text \<open>Assignment of a value without references.\<close>

definition assign :: "'a \<Rightarrow> heap \<Rightarrow> 'a \<times> heap" where
  "assign x h = (x, h)"

text \<open>The loop that fills a new map: one assignment for each entry of the old one.\<close>

definition copy_map :: "(string \<times> string) list \<Rightarrow> heap \<Rightarrow> (string \<times> string) list \<times> heap" where
  "copy_map es h = (fold (\<lambda>(k, v) out. AList.update k v out) es [], h)"

section \<open>Reading through references\<close>

definition read_ptr :: "(cell \<Rightarrow> 'a option) \<Rightarrow> (heap \<Rightarrow> 'a \<Rightarrow> 'b) \<Rightarrow> heap \<Rightarrow> addr option \<Rightarrow> 'b option" where
  "read_ptr get rd h p =
     (case p of None \<Rightarrow> None | Some a \<Rightarrow> map_option (rd h) (Option.bind (h_cells h a) get))"

definition closed_ptr :: "(cell \<Rightarrow> 'a option) \<Rightarrow> (heap \<Rightarrow> 'a \<Rightarrow> bool) \<Rightarrow> heap \<Rightarrow> addr option \<Rightarrow> bool" where
  "closed_ptr get cl h p =
     (case p of
        None \<Rightarrow> True
      | Some a \<Rightarrow> a < h_next h \<and>
          (case Option.bind (h_cells h a) get of None \<Rightarrow> False | Some x \<Rightarrow> cl h x))"

definition read_slice ::
  "(cell \<Rightarrow> 'a list option) \<Rightarrow> (heap \<Rightarrow> 'a \<Rightarrow> 'b) \<Rightarrow> heap \<Rightarrow> go_slice option \<Rightarrow> 'b list option" where
  "read_slice get rd h p =
     (case p of None \<Rightarrow> None | Some s \<Rightarrow> map_option (map (rd h)) (slice_items get h s))"

definition closed_slice ::
  "(cell \<Rightarrow> 'a list option) \<Rightarrow> (heap \<Rightarrow> 'a \<Rightarrow> bool) \<Rightarrow> heap \<Rightarrow> go_slice option \<Rightarrow> bool" where
  "closed_slice get cl h p =
     (case p of
        None \<Rightarrow> True
      | Some s \<Rightarrow> sl_arr s < h_next h \<and>
          (case slice_items get h s of
             None \<Rightarrow> False
           | Some xs \<Rightarrow> length xs = sl_len s \<and> list_all (cl h) xs))"

section \<open>The building blocks are deep copies\<close>

lemma agree_trans: "agree A h h1 \<Longrightarrow> agree B h1 h2 \<Longrightarrow> C \<subseteq> A \<Longrightarrow> C \<subseteq> B \<Longrightarrow> agree C h h2"
  by (auto simp: agree_def subset_iff)

text \<open>What was allocated by the first of two copies is not touched by the second.\<close>

lemma agree_first:
  "extends h1 h2 \<Longrightarrow> h_next h \<le> h_next h1 \<Longrightarrow> agree {h_next h..<h_next h2} h2 h3 \<Longrightarrow>
     agree {h_next h..<h_next h1} h1 h3"
  unfolding extends_def by (elim conjE, rule agree_trans [of "{..<h_next h1}" h1 h2]) auto

lemma agree_second: "extends h h1 \<Longrightarrow> agree {h_next h..<h_next h2} h2 h3 \<Longrightarrow> agree {h_next h1..<h_next h2} h2 h3"
  by (rule agree_subset [of "{h_next h..<h_next h2}"]) (auto dest: extends_next)

lemma assign_deep: "deep_copy (\<lambda>h x. x) assign (\<lambda>h x. True)"
  by (rule deep_copy.intro) (auto simp: assign_def)

lemma fold_update_distinct:
  "distinct (map fst es) \<Longrightarrow> fst ` set acc \<inter> fst ` set es = {} \<Longrightarrow>
     fold (\<lambda>(k, v) out. AList.update k v out) es acc = acc @ es"
proof (induction es arbitrary: acc)
  case (Cons e es)
  obtain k v where e: "e = (k, v)" by (cases e)
  from Cons.prems have "k \<notin> fst ` set acc" by (auto simp: e)
  then have u: "AList.update k v acc = acc @ [(k, v)]"
    by (induction acc) auto
  from Cons.prems have "fold (\<lambda>(k, v) out. AList.update k v out) es (acc @ [(k, v)]) = (acc @ [(k, v)]) @ es"
    by (intro Cons.IH) (auto simp: e)
  then show ?case by (simp add: e u)
qed simp

lemma copy_map_deep: "deep_copy (\<lambda>h es. es) copy_map (\<lambda>h es. distinct (map fst es))"
  by (rule deep_copy.intro) (auto simp: copy_map_def fold_update_distinct)

lemma items_deep:
  assumes "deep_copy rd cp cl"
  shows "deep_copy (\<lambda>h. map (rd h)) (copy_items cp) (\<lambda>h. list_all (cl h))"
proof -
  note stable = deep_copy.stable [OF assms] and local = deep_copy.local [OF assms]
    and copied = deep_copy.copied [OF assms] and fresh = deep_copy.fresh [OF assms]
  have st: "list_all (cl h) xs \<Longrightarrow> extends h h' \<Longrightarrow> list_all (cl h') xs" for h h' xs
    using stable by (auto simp: list_all_iff)
  have lc: "list_all (cl h) xs \<Longrightarrow> agree {..<h_next h} h h' \<Longrightarrow> map (rd h') xs = map (rd h) xs" for h h' xs
    using local by (auto simp: list_all_iff)
  have cpd: "heap_wf h \<Longrightarrow> list_all (cl h) xs \<Longrightarrow> copy_items cp xs h = (ys, h') \<Longrightarrow>
      heap_wf h' \<and> extends h h' \<and> list_all (cl h') ys" for h xs ys h'
  proof (induction xs arbitrary: h ys)
    case (Cons x xs)
    obtain y h1 where 1: "cp x h = (y, h1)" by (cases "cp x h")
    obtain zs h2 where 2: "copy_items cp xs h1 = (zs, h2)" by (cases "copy_items cp xs h1")
    with 1 Cons.prems have [simp]: "ys = y # zs" "h' = h2" by auto
    from copied [OF _ _ 1] Cons.prems have a: "heap_wf h1" "extends h h1" "cl h1 y" by auto
    with Cons.IH [of h1 zs] 2 st Cons.prems have "heap_wf h2" "extends h1 h2" "list_all (cl h2) zs" by auto
    with a show ?case by (auto intro: extends_trans stable)
  qed auto
  have fr: "heap_wf h \<Longrightarrow> list_all (cl h) xs \<Longrightarrow> copy_items cp xs h = (ys, h') \<Longrightarrow>
      agree {h_next h..<h_next h'} h' h'' \<Longrightarrow> map (rd h'') ys = map (rd h) xs" for h xs ys h' h''
  proof (induction xs arbitrary: h ys)
    case (Cons x xs)
    obtain y h1 where 1: "cp x h = (y, h1)" by (cases "cp x h")
    obtain zs h2 where 2: "copy_items cp xs h1 = (zs, h2)" by (cases "copy_items cp xs h1")
    with 1 Cons.prems have [simp]: "ys = y # zs" "h' = h2" by auto
    from copied [OF _ _ 1] Cons.prems have a: "heap_wf h1" "extends h h1" by auto
    have c: "list_all (cl h1) xs" using st [OF _ a(2)] Cons.prems by simp
    from cpd [OF a(1) c 2] have b: "extends h1 h2" by simp
    have "map (rd h'') zs = map (rd h1) xs"
      using a c 2 Cons.prems(4) by (intro Cons.IH) (auto intro: agree_second)
    moreover have "map (rd h1) xs = map (rd h) xs"
      using Cons.prems a by (intro lc) (auto intro: extends_agree)
    moreover have "rd h'' y = rd h x"
      using Cons.prems a b by (intro fresh [OF _ _ 1]) (auto intro: agree_first extends_next)
    ultimately show ?case by simp
  qed auto
  show ?thesis by (rule deep_copy.intro) (use st lc cpd fr in blast)+
qed

lemma new_copy_deep:
  assumes D: "deep_copy rd cp cl" and get: "\<And>x. get (mk x) = Some x"
  shows "deep_copy (read_ptr get rd) (new_copy mk get cp) (closed_ptr get cl)"
proof (rule deep_copy.intro)
  fix h h' p assume c: "closed_ptr get cl h p" and e: "extends h h'"
  from e have "r < h_next h \<Longrightarrow> h_cells h' r = h_cells h r" for r by (auto simp: extends_def agree_def)
  with c extends_next [OF e] show "closed_ptr get cl h' p"
    by (cases p) (auto simp: closed_ptr_def split: option.splits dest: deep_copy.stable [OF D _ e])
next
  fix h h' p assume c: "closed_ptr get cl h p" and a: "agree {..<h_next h} h h'"
  from a have "r < h_next h \<Longrightarrow> h_cells h' r = h_cells h r" for r by (auto simp: agree_def)
  with c show "read_ptr get rd h' p = read_ptr get rd h p"
    by (cases p) (auto simp: closed_ptr_def read_ptr_def split: option.splits dest: deep_copy.local [OF D _ a])
next
  fix h p q h' assume w: "heap_wf h" and c: "closed_ptr get cl h p" and n: "new_copy mk get cp p h = (q, h')"
  show "heap_wf h' \<and> extends h h' \<and> closed_ptr get cl h' q"
  proof (cases p)
    case (Some a)
    with c obtain x where x: "Option.bind (h_cells h a) get = Some x" "cl h x"
      by (auto simp: closed_ptr_def split: option.splits)
    obtain y h1 where 1: "cp x h = (y, h1)" by (cases "cp x h")
    obtain b h2 where 2: "alloc (mk y) h1 = (b, h2)" by (cases "alloc (mk y) h1")
    from deep_copy.copied [OF D w x(2) 1] have d: "heap_wf h1" "extends h h1" "cl h1 y" by auto
    note f = alloc_facts [OF 2 d(1)]
    from n Some x 1 2 have [simp]: "q = Some b" "h' = h2" by (auto simp: new_copy_def)
    from d f show ?thesis
      by (auto simp: closed_ptr_def get intro: extends_trans deep_copy.stable [OF D])
  qed (use n w in \<open>auto simp: new_copy_def closed_ptr_def\<close>)
next
  fix h p q h' h''
  assume w: "heap_wf h" and c: "closed_ptr get cl h p" and n: "new_copy mk get cp p h = (q, h')"
    and a: "agree {h_next h..<h_next h'} h' h''"
  show "read_ptr get rd h'' q = read_ptr get rd h p"
  proof (cases p)
    case (Some r)
    with c obtain x where x: "Option.bind (h_cells h r) get = Some x" "cl h x"
      by (auto simp: closed_ptr_def split: option.splits)
    obtain y h1 where 1: "cp x h = (y, h1)" by (cases "cp x h")
    obtain b h2 where 2: "alloc (mk y) h1 = (b, h2)" by (cases "alloc (mk y) h1")
    from deep_copy.copied [OF D w x(2) 1] have d: "heap_wf h1" "extends h h1" "cl h1 y" by auto
    note f = alloc_facts [OF 2 d(1)]
    from n Some x 1 2 have [simp]: "q = Some b" "h' = h2" by (auto simp: new_copy_def)
    have "rd h'' y = rd h x"
      using a f d by (intro deep_copy.fresh [OF D w x(2) 1]) (auto intro: agree_first extends_next)
    moreover have "h_cells h'' b = Some (mk y)"
      using a f extends_next [OF d(2)] by (auto simp: agree_def)
    ultimately show ?thesis using Some x by (simp add: read_ptr_def get)
  qed (use n in \<open>auto simp: new_copy_def read_ptr_def\<close>)
qed

lemma slice_items_agree: "agree A h h' \<Longrightarrow> sl_arr s \<in> A \<Longrightarrow> slice_items get h' s = slice_items get h s"
  by (auto simp: agree_def slice_items_def)

lemma new_slice_deep:
  assumes D: "deep_copy rd cp cl" and get: "\<And>xs. get (mk xs) = Some xs"
  shows "deep_copy (read_slice get rd) (new_slice mk get cp) (closed_slice get cl)"
proof -
  note I = items_deep [OF D]
  have split: "\<exists>xs ys h1 b. s = Some t \<longrightarrow> slice_items get h t = Some xs \<and> list_all (cl h) xs \<and>
      copy_items cp xs h = (ys, h1) \<and> alloc (mk ys) h1 = (b, h') \<and> q = Some \<lparr>sl_arr = b, sl_off = 0, sl_len = length ys\<rparr>"
    if "closed_slice get cl h s" "new_slice mk get cp s h = (q, h')" for s t q h h'
    using that by (auto simp: closed_slice_def new_slice_def split: option.splits prod.splits)
  show ?thesis
  proof (rule deep_copy.intro)
    fix h h' p assume c: "closed_slice get cl h p" and e: "extends h h'"
    have s: "sl_arr t < h_next h \<Longrightarrow> slice_items get h' t = slice_items get h t" for t
      using slice_items_agree [OF extends_agree [OF e]] by simp
    have "list_all (cl h) xs \<Longrightarrow> list_all (cl h') xs" for xs by (rule deep_copy.stable [OF I _ e])
    with c extends_next [OF e] show "closed_slice get cl h' p"
      by (cases p) (auto simp: closed_slice_def s split: option.splits)
  next
    fix h h' p assume c: "closed_slice get cl h p" and a: "agree {..<h_next h} h h'"
    have s: "sl_arr t < h_next h \<Longrightarrow> slice_items get h' t = slice_items get h t" for t
      using slice_items_agree [OF a] by simp
    have "list_all (cl h) xs \<Longrightarrow> map (rd h') xs = map (rd h) xs" for xs by (rule deep_copy.local [OF I _ a])
    with c show "read_slice get rd h' p = read_slice get rd h p"
      by (cases p) (auto simp: closed_slice_def read_slice_def s split: option.splits)
  next
    fix h p q h' assume w: "heap_wf h" and c: "closed_slice get cl h p" and n: "new_slice mk get cp p h = (q, h')"
    show "heap_wf h' \<and> extends h h' \<and> closed_slice get cl h' q"
    proof (cases p)
      case (Some t)
      with split [OF c n, of t] obtain xs ys h1 b where x: "list_all (cl h) xs"
        and 1: "copy_items cp xs h = (ys, h1)" and 2: "alloc (mk ys) h1 = (b, h')"
        and q: "q = Some \<lparr>sl_arr = b, sl_off = 0, sl_len = length ys\<rparr>" by auto
      from deep_copy.copied [OF I w x 1] have d: "heap_wf h1" "extends h h1" "list_all (cl h1) ys" by auto
      note f = alloc_facts [OF 2 d(1)]
      have "list_all (cl h') ys" by (rule deep_copy.stable [OF I d(3) f(3)])
      with d f q show ?thesis by (auto simp: closed_slice_def slice_items_def get intro: extends_trans)
    qed (use n w in \<open>auto simp: new_slice_def closed_slice_def\<close>)
  next
    fix h p q h' h''
    assume w: "heap_wf h" and c: "closed_slice get cl h p" and n: "new_slice mk get cp p h = (q, h')"
      and a: "agree {h_next h..<h_next h'} h' h''"
    show "read_slice get rd h'' q = read_slice get rd h p"
    proof (cases p)
      case (Some t)
      with split [OF c n, of t] obtain xs ys h1 b where x: "slice_items get h t = Some xs" "list_all (cl h) xs"
        and 1: "copy_items cp xs h = (ys, h1)" and 2: "alloc (mk ys) h1 = (b, h')"
        and q: "q = Some \<lparr>sl_arr = b, sl_off = 0, sl_len = length ys\<rparr>" by auto
      from deep_copy.copied [OF I w x(2) 1] have d: "heap_wf h1" "extends h h1" by auto
      note f = alloc_facts [OF 2 d(1)]
      have "map (rd h'') ys = map (rd h) xs"
        using a f d by (intro deep_copy.fresh [OF I w x(2) 1]) (auto intro: agree_first extends_next)
      moreover
      have "h_cells h'' b = Some (mk ys)" using a f extends_next [OF d(2)] by (auto simp: agree_def)
      then have "slice_items get h'' \<lparr>sl_arr = b, sl_off = 0, sl_len = length ys\<rparr> = Some ys"
        by (simp add: slice_items_def get)
      ultimately show ?thesis using Some x q by (simp add: read_slice_def)
    qed (use n in \<open>auto simp: new_slice_def read_slice_def\<close>)
  qed
qed

text \<open>Two components of a struct, one after the other.\<close>

definition both ::
  "('a \<Rightarrow> heap \<Rightarrow> 'a \<times> heap) \<Rightarrow> ('b \<Rightarrow> heap \<Rightarrow> 'b \<times> heap) \<Rightarrow> 'a \<times> 'b \<Rightarrow> heap \<Rightarrow> ('a \<times> 'b) \<times> heap" where
  "both cp1 cp2 x h = (let (y, h1) = cp1 (fst x) h; (z, h2) = cp2 (snd x) h1 in ((y, z), h2))"

lemma both_deep:
  assumes D1: "deep_copy rd1 cp1 cl1" and D2: "deep_copy rd2 cp2 cl2"
  shows "deep_copy (\<lambda>h x. (rd1 h (fst x), rd2 h (snd x))) (both cp1 cp2) (\<lambda>h x. cl1 h (fst x) \<and> cl2 h (snd x))"
proof (rule deep_copy.intro)
  fix h h' x assume "cl1 h (fst x) \<and> cl2 h (snd x)" "extends h h'"
  then show "cl1 h' (fst x) \<and> cl2 h' (snd x)" using deep_copy.stable [OF D1] deep_copy.stable [OF D2] by blast
next
  fix h h' x assume "cl1 h (fst x) \<and> cl2 h (snd x)" "agree {..<h_next h} h h'"
  then show "(rd1 h' (fst x), rd2 h' (snd x)) = (rd1 h (fst x), rd2 h (snd x))"
    using deep_copy.local [OF D1] deep_copy.local [OF D2] by blast
next
  fix h x y h' assume w: "heap_wf h" and c: "cl1 h (fst x) \<and> cl2 h (snd x)" and b: "both cp1 cp2 x h = (y, h')"
  obtain y1 h1 where 1: "cp1 (fst x) h = (y1, h1)" by (cases "cp1 (fst x) h")
  obtain y2 h2 where 2: "cp2 (snd x) h1 = (y2, h2)" by (cases "cp2 (snd x) h1")
  from b 1 2 have [simp]: "y = (y1, y2)" "h' = h2" by (auto simp: both_def)
  from deep_copy.copied [OF D1 w conjunct1 [OF c] 1] have d: "heap_wf h1" "extends h h1" "cl1 h1 y1" by auto
  have c2: "cl2 h1 (snd x)" using c d by (auto intro: deep_copy.stable [OF D2])
  from deep_copy.copied [OF D2 d(1) c2 2] d
  show "heap_wf h' \<and> extends h h' \<and> cl1 h' (fst y) \<and> cl2 h' (snd y)"
    by (auto intro: extends_trans deep_copy.stable [OF D1])
next
  fix h x y h' h'' assume w: "heap_wf h" and c: "cl1 h (fst x) \<and> cl2 h (snd x)" and b: "both cp1 cp2 x h = (y, h')"
    and a: "agree {h_next h..<h_next h'} h' h''"
  obtain y1 h1 where 1: "cp1 (fst x) h = (y1, h1)" by (cases "cp1 (fst x) h")
  obtain y2 h2 where 2: "cp2 (snd x) h1 = (y2, h2)" by (cases "cp2 (snd x) h1")
  from b 1 2 have [simp]: "y = (y1, y2)" "h' = h2" by (auto simp: both_def)
  from deep_copy.copied [OF D1 w conjunct1 [OF c] 1] have d: "heap_wf h1" "extends h h1" by auto
  have c2: "cl2 h1 (snd x)" using c d by (auto intro: deep_copy.stable [OF D2])
  from deep_copy.copied [OF D2 d(1) c2 2] have e: "extends h1 h2" by auto
  have "rd1 h'' y1 = rd1 h (fst x)"
    using a d e c by (intro deep_copy.fresh [OF D1 w _ 1]) (auto intro: agree_first extends_next)
  moreover have "rd2 h'' y2 = rd2 h1 (snd x)"
    using a d by (intro deep_copy.fresh [OF D2 d(1) c2 2]) (auto intro: agree_second)
  moreover have "rd2 h1 (snd x) = rd2 h (snd x)"
    using c d by (intro deep_copy.local [OF D2]) (auto intro: extends_agree)
  ultimately show "(rd1 h'' (fst y), rd2 h'' (snd y)) = (rd1 h (fst x), rd2 h (snd x))" by simp
qed

text \<open>
  A struct whose references are in a part \<open>part x\<close>: \<open>*out = *in\<close> followed by the copy of that part.
\<close>

lemma struct_deep:
  assumes D: "deep_copy rd cp cl"
    and copy: "\<And>x h. copy x h = (let (y, h') = cp (part x) h in (upd y x, h'))"
    and part: "\<And>x y. part (upd y x) = y"
    and read: "\<And>h x. read h x = R (plain x) (rd h (part x))" and plain: "\<And>x y. plain (upd y x) = plain x"
    and closed: "\<And>h x. closed h x = cl h (part x)"
  shows "deep_copy read copy closed"
proof (rule deep_copy.intro)
  fix h h' x assume "closed h x" "extends h h'"
  then show "closed h' x" using deep_copy.stable [OF D] closed by metis
next
  fix h h' x assume "closed h x" "agree {..<h_next h} h h'"
  then show "read h' x = read h x" using deep_copy.local [OF D] closed read by metis
next
  fix h x y h' assume "heap_wf h" "closed h x" "copy x h = (y, h')"
  then show "heap_wf h' \<and> extends h h' \<and> closed h' y"
    using deep_copy.copied [OF D, of h "part x"] by (auto simp: copy closed part split: prod.splits)
next
  fix h x y h' h'' assume "heap_wf h" "closed h x" "copy x h = (y, h')" "agree {h_next h..<h_next h'} h' h''"
  then show "read h'' y = read h x"
    using deep_copy.fresh [OF D, of h "part x"] by (auto simp: copy closed part read plain split: prod.splits)
qed

section \<open>Cells of each type\<close>

fun get_map :: "cell \<Rightarrow> (string \<times> string) list option" where
  "get_map (CMap es) = Some es"
| "get_map _ = None"

fun get_strings :: "cell \<Rightarrow> string list option" where
  "get_strings (CStrings xs) = Some xs"
| "get_strings _ = None"

fun get_stamp :: "cell \<Rightarrow> int option" where
  "get_stamp (CStamp t) = Some t"
| "get_stamp _ = None"

fun get_count :: "cell \<Rightarrow> int option" where
  "get_count (CCount n) = Some n"
| "get_count _ = None"

fun get_conds :: "cell \<Rightarrow> condition list option" where
  "get_conds (CConds cs) = Some cs"
| "get_conds _ = None"

fun get_node :: "cell \<Rightarrow> raw_node option" where
  "get_node (CNode n) = Some n"
| "get_node _ = None"

fun get_nodes :: "cell \<Rightarrow> raw_node list option" where
  "get_nodes (CNodes ns) = Some ns"
| "get_nodes _ = None"

fun get_node_list :: "cell \<Rightarrow> raw_list option" where
  "get_node_list (CNodeList l) = Some l"
| "get_node_list _ = None"

fun get_configmap :: "cell \<Rightarrow> raw_configmap option" where
  "get_configmap (CConfigMap c) = Some c"
| "get_configmap _ = None"

fun get_configmaps :: "cell \<Rightarrow> raw_configmap list option" where
  "get_configmaps (CConfigMaps cs) = Some cs"
| "get_configmaps _ = None"

fun get_configmap_list :: "cell \<Rightarrow> raw_list option" where
  "get_configmap_list (CConfigMapList l) = Some l"
| "get_configmap_list _ = None"

fun get_dep :: "cell \<Rightarrow> raw_deployment option" where
  "get_dep (CDep d) = Some d"
| "get_dep _ = None"

fun get_deps :: "cell \<Rightarrow> raw_deployment list option" where
  "get_deps (CDeps ds) = Some ds"
| "get_deps _ = None"

fun get_dep_list :: "cell \<Rightarrow> raw_list option" where
  "get_dep_list (CDepList l) = Some l"
| "get_dep_list _ = None"

section \<open>The operations\<close>

record meta_lib =
  om_DeepCopyInto :: "raw_meta \<Rightarrow> heap \<Rightarrow> raw_meta \<times> heap"
  lm_DeepCopyInto :: "raw_list_meta \<Rightarrow> heap \<Rightarrow> raw_list_meta \<times> heap"

text \<open>A \<open>runtime.Object\<close>: an interface, which is \<open>nil\<close> or holds a (possibly \<open>nil\<close>) pointer.\<close>

datatype runtime_object =
    NilObject
  | NodeObject "addr option"
  | NodeListObject "addr option"
  | ConfigMapObject "addr option"
  | ConfigMapListObject "addr option"
  | DeploymentObject "addr option"
  | DeploymentListObject "addr option"

definition copy_map_ptr :: "addr option \<Rightarrow> heap \<Rightarrow> addr option \<times> heap" where
  "copy_map_ptr = new_copy CMap get_map copy_map"

definition copy_conditions :: "go_slice option \<Rightarrow> heap \<Rightarrow> go_slice option \<times> heap" where
  "copy_conditions = new_slice CConds get_conds assign"

definition NodeStatus_DeepCopyInto :: "raw_nstatus \<Rightarrow> heap \<Rightarrow> raw_nstatus \<times> heap" where
  "NodeStatus_DeepCopyInto x h =
     (let (t, h1) = new_copy CStamp get_stamp assign (rs_LastHeartbeat x) h;
          (c, h2) = copy_conditions (rs_Conditions x) h1
      in (x\<lparr>rs_LastHeartbeat := t, rs_Conditions := c\<rparr>, h2))"

definition NodeSpec_DeepCopyInto :: "mcunode_spec \<Rightarrow> heap \<Rightarrow> mcunode_spec \<times> heap" where
  "NodeSpec_DeepCopyInto = assign"

definition Node_DeepCopyInto :: "meta_lib \<Rightarrow> raw_node \<Rightarrow> heap \<Rightarrow> raw_node \<times> heap" where
  "Node_DeepCopyInto L x h =
     (let (m, h1) = om_DeepCopyInto L (rn_Meta x) h;
          (s, h2) = NodeStatus_DeepCopyInto (rn_Status x) h1
      in (x\<lparr>rn_Type := rn_Type x, rn_Meta := m, rn_Spec := rn_Spec x, rn_Status := s\<rparr>, h2))"

definition Node_DeepCopy :: "meta_lib \<Rightarrow> addr option \<Rightarrow> heap \<Rightarrow> addr option \<times> heap" where
  "Node_DeepCopy L = new_copy CNode get_node (Node_DeepCopyInto L)"

definition Node_DeepCopyObject :: "meta_lib \<Rightarrow> addr option \<Rightarrow> heap \<Rightarrow> runtime_object \<times> heap" where
  "Node_DeepCopyObject L p h =
     (let (c, h1) = Node_DeepCopy L p h in (if c \<noteq> None then NodeObject c else NilObject, h1))"

definition NodeList_DeepCopyInto :: "meta_lib \<Rightarrow> raw_list \<Rightarrow> heap \<Rightarrow> raw_list \<times> heap" where
  "NodeList_DeepCopyInto L x h =
     (let (m, h1) = lm_DeepCopyInto L (rl_Meta x) h;
          (s, h2) = new_slice CNodes get_nodes (Node_DeepCopyInto L) (rl_Items x) h1
      in (x\<lparr>rl_Type := rl_Type x, rl_Meta := m, rl_Items := s\<rparr>, h2))"

definition NodeList_DeepCopy :: "meta_lib \<Rightarrow> addr option \<Rightarrow> heap \<Rightarrow> addr option \<times> heap" where
  "NodeList_DeepCopy L = new_copy CNodeList get_node_list (NodeList_DeepCopyInto L)"

definition NodeList_DeepCopyObject :: "meta_lib \<Rightarrow> addr option \<Rightarrow> heap \<Rightarrow> runtime_object \<times> heap" where
  "NodeList_DeepCopyObject L p h =
     (let (c, h1) = NodeList_DeepCopy L p h in (if c \<noteq> None then NodeListObject c else NilObject, h1))"

definition ConfigMap_DeepCopyInto :: "meta_lib \<Rightarrow> raw_configmap \<Rightarrow> heap \<Rightarrow> raw_configmap \<times> heap" where
  "ConfigMap_DeepCopyInto L x h =
     (let (m, h1) = om_DeepCopyInto L (rc_Meta x) h;
          (d, h2) = copy_map_ptr (rc_Data x) h1
      in (x\<lparr>rc_Type := rc_Type x, rc_Meta := m, rc_Data := d\<rparr>, h2))"

definition ConfigMap_DeepCopy :: "meta_lib \<Rightarrow> addr option \<Rightarrow> heap \<Rightarrow> addr option \<times> heap" where
  "ConfigMap_DeepCopy L = new_copy CConfigMap get_configmap (ConfigMap_DeepCopyInto L)"

definition ConfigMap_DeepCopyObject :: "meta_lib \<Rightarrow> addr option \<Rightarrow> heap \<Rightarrow> runtime_object \<times> heap" where
  "ConfigMap_DeepCopyObject L p h =
     (let (c, h1) = ConfigMap_DeepCopy L p h in (if c \<noteq> None then ConfigMapObject c else NilObject, h1))"

definition ConfigMapList_DeepCopyInto :: "meta_lib \<Rightarrow> raw_list \<Rightarrow> heap \<Rightarrow> raw_list \<times> heap" where
  "ConfigMapList_DeepCopyInto L x h =
     (let (m, h1) = lm_DeepCopyInto L (rl_Meta x) h;
          (s, h2) = new_slice CConfigMaps get_configmaps (ConfigMap_DeepCopyInto L) (rl_Items x) h1
      in (x\<lparr>rl_Type := rl_Type x, rl_Meta := m, rl_Items := s\<rparr>, h2))"

definition ConfigMapList_DeepCopy :: "meta_lib \<Rightarrow> addr option \<Rightarrow> heap \<Rightarrow> addr option \<times> heap" where
  "ConfigMapList_DeepCopy L = new_copy CConfigMapList get_configmap_list (ConfigMapList_DeepCopyInto L)"

definition ConfigMapList_DeepCopyObject :: "meta_lib \<Rightarrow> addr option \<Rightarrow> heap \<Rightarrow> runtime_object \<times> heap" where
  "ConfigMapList_DeepCopyObject L p h =
     (let (c, h1) = ConfigMapList_DeepCopy L p h
      in (if c \<noteq> None then ConfigMapListObject c else NilObject, h1))"

definition Firmware_DeepCopyInto :: "firmware_spec \<Rightarrow> heap \<Rightarrow> firmware_spec \<times> heap" where
  "Firmware_DeepCopyInto = assign"

definition DeploymentSpec_DeepCopyInto :: "raw_dspec \<Rightarrow> heap \<Rightarrow> raw_dspec \<times> heap" where
  "DeploymentSpec_DeepCopyInto x h =
     (let (m, h1) = copy_map_ptr (rds_NodeSelector x) h
      in (x\<lparr>rds_Firmware := rds_Firmware x, rds_NodeSelector := m\<rparr>, h1))"

definition DeploymentStatus_DeepCopyInto :: "raw_dstatus \<Rightarrow> heap \<Rightarrow> raw_dstatus \<times> heap" where
  "DeploymentStatus_DeepCopyInto x h =
     (let (c, h1) = copy_conditions (rdt_Conditions x) h in (x\<lparr>rdt_Conditions := c\<rparr>, h1))"

definition Deployment_DeepCopyInto :: "meta_lib \<Rightarrow> raw_deployment \<Rightarrow> heap \<Rightarrow> raw_deployment \<times> heap" where
  "Deployment_DeepCopyInto L x h =
     (let (m, h1) = om_DeepCopyInto L (rd_Meta x) h;
          (p, h2) = DeploymentSpec_DeepCopyInto (rd_Spec x) h1;
          (s, h3) = DeploymentStatus_DeepCopyInto (rd_Status x) h2
      in (x\<lparr>rd_Type := rd_Type x, rd_Meta := m, rd_Spec := p, rd_Status := s\<rparr>, h3))"

definition Deployment_DeepCopy :: "meta_lib \<Rightarrow> addr option \<Rightarrow> heap \<Rightarrow> addr option \<times> heap" where
  "Deployment_DeepCopy L = new_copy CDep get_dep (Deployment_DeepCopyInto L)"

definition Deployment_DeepCopyObject :: "meta_lib \<Rightarrow> addr option \<Rightarrow> heap \<Rightarrow> runtime_object \<times> heap" where
  "Deployment_DeepCopyObject L p h =
     (let (c, h1) = Deployment_DeepCopy L p h in (if c \<noteq> None then DeploymentObject c else NilObject, h1))"

definition DeploymentList_DeepCopyInto :: "meta_lib \<Rightarrow> raw_list \<Rightarrow> heap \<Rightarrow> raw_list \<times> heap" where
  "DeploymentList_DeepCopyInto L x h =
     (let (m, h1) = lm_DeepCopyInto L (rl_Meta x) h;
          (s, h2) = new_slice CDeps get_deps (Deployment_DeepCopyInto L) (rl_Items x) h1
      in (x\<lparr>rl_Type := rl_Type x, rl_Meta := m, rl_Items := s\<rparr>, h2))"

definition DeploymentList_DeepCopy :: "meta_lib \<Rightarrow> addr option \<Rightarrow> heap \<Rightarrow> addr option \<times> heap" where
  "DeploymentList_DeepCopy L = new_copy CDepList get_dep_list (DeploymentList_DeepCopyInto L)"

definition DeploymentList_DeepCopyObject :: "meta_lib \<Rightarrow> addr option \<Rightarrow> heap \<Rightarrow> runtime_object \<times> heap" where
  "DeploymentList_DeepCopyObject L p h =
     (let (c, h1) = DeploymentList_DeepCopy L p h
      in (if c \<noteq> None then DeploymentListObject c else NilObject, h1))"

section \<open>What the objects mean\<close>

text \<open>
  The value of an object, with its maps, slices and pointers followed, is the record the other
  theories use, with its \<open>TypeMeta\<close>.
\<close>

abbreviation map_at :: "heap \<Rightarrow> addr option \<Rightarrow> (string \<times> string) list option" where
  "map_at \<equiv> read_ptr get_map (\<lambda>h es. es)"

abbreviation map_closed :: "heap \<Rightarrow> addr option \<Rightarrow> bool" where
  "map_closed \<equiv> closed_ptr get_map (\<lambda>h es. distinct (map fst es))"

definition entries :: "(string \<times> string) list option \<Rightarrow> (string \<times> string) list" where
  "entries m = (case m of None \<Rightarrow> [] | Some es \<Rightarrow> es)"

definition elements :: "'a list option \<Rightarrow> 'a list" where
  "elements s = (case s of None \<Rightarrow> [] | Some xs \<Rightarrow> xs)"

definition read_meta :: "heap \<Rightarrow> raw_meta \<Rightarrow> object_meta" where
  "read_meta h m =
     (rm_Plain m)\<lparr>m_Labels := map_of (entries (map_at h (rm_Labels m))),
       m_Annotations := map_of (entries (map_at h (rm_Annotations m))),
       m_Finalizers := elements (read_slice get_strings (\<lambda>h x. x) h (rm_Finalizers m)),
       m_OwnerReferences := elements (read_slice get_strings (\<lambda>h x. x) h (rm_OwnerReferences m)),
       m_DeletionTimestamp := read_ptr get_stamp (\<lambda>h x. x) h (rm_DeletionTimestamp m)\<rparr>"

definition closed_meta :: "heap \<Rightarrow> raw_meta \<Rightarrow> bool" where
  "closed_meta h m \<longleftrightarrow>
     map_closed h (rm_Labels m) \<and> map_closed h (rm_Annotations m) \<and>
     closed_slice get_strings (\<lambda>h x. True) h (rm_Finalizers m) \<and>
     closed_slice get_strings (\<lambda>h x. True) h (rm_OwnerReferences m) \<and>
     closed_ptr get_stamp (\<lambda>h x. True) h (rm_DeletionTimestamp m)"

definition read_list_meta :: "heap \<Rightarrow> raw_list_meta \<Rightarrow> string \<times> string \<times> int option" where
  "read_list_meta h m =
     (rl_ResourceVersion m, rl_Continue m, read_ptr get_count (\<lambda>h x. x) h (rl_RemainingItemCount m))"

definition closed_list_meta :: "heap \<Rightarrow> raw_list_meta \<Rightarrow> bool" where
  "closed_list_meta h m = closed_ptr get_count (\<lambda>h x. True) h (rl_RemainingItemCount m)"

abbreviation conds_at :: "heap \<Rightarrow> go_slice option \<Rightarrow> condition list option" where
  "conds_at \<equiv> read_slice get_conds (\<lambda>h x. x)"

abbreviation conds_closed :: "heap \<Rightarrow> go_slice option \<Rightarrow> bool" where
  "conds_closed \<equiv> closed_slice get_conds (\<lambda>h x. True)"

definition read_nstatus :: "heap \<Rightarrow> raw_nstatus \<Rightarrow> mcunode_status" where
  "read_nstatus h s =
     (rs_Plain s)\<lparr>nst_LastHeartbeat := read_ptr get_stamp (\<lambda>h x. x) h (rs_LastHeartbeat s),
       nst_Conditions := elements (conds_at h (rs_Conditions s))\<rparr>"

definition closed_nstatus :: "heap \<Rightarrow> raw_nstatus \<Rightarrow> bool" where
  "closed_nstatus h s \<longleftrightarrow> closed_ptr get_stamp (\<lambda>h x. True) h (rs_LastHeartbeat s) \<and> conds_closed h (rs_Conditions s)"

definition read_node :: "heap \<Rightarrow> raw_node \<Rightarrow> type_meta \<times> mcunode" where
  "read_node h n =
     (rn_Type n, \<lparr>n_Meta = read_meta h (rn_Meta n), n_Spec = rn_Spec n, n_Status = read_nstatus h (rn_Status n)\<rparr>)"

definition closed_node :: "heap \<Rightarrow> raw_node \<Rightarrow> bool" where
  "closed_node h n \<longleftrightarrow> closed_meta h (rn_Meta n) \<and> closed_nstatus h (rn_Status n)"

definition read_configmap :: "heap \<Rightarrow> raw_configmap \<Rightarrow> type_meta \<times> mcuconfigmap" where
  "read_configmap h c =
     (rc_Type c, \<lparr>cm_Meta = read_meta h (rc_Meta c), cm_Data = entries (map_at h (rc_Data c))\<rparr>)"

definition closed_configmap :: "heap \<Rightarrow> raw_configmap \<Rightarrow> bool" where
  "closed_configmap h c \<longleftrightarrow> closed_meta h (rc_Meta c) \<and> map_closed h (rc_Data c)"

definition read_dspec :: "heap \<Rightarrow> raw_dspec \<Rightarrow> mcudeployment_spec" where
  "read_dspec h s =
     (rds_Plain s)\<lparr>ds_Firmware := rds_Firmware s, ds_NodeSelector := entries (map_at h (rds_NodeSelector s))\<rparr>"

definition closed_dspec :: "heap \<Rightarrow> raw_dspec \<Rightarrow> bool" where
  "closed_dspec h s = map_closed h (rds_NodeSelector s)"

definition read_dstatus :: "heap \<Rightarrow> raw_dstatus \<Rightarrow> mcudeployment_status" where
  "read_dstatus h s = (rdt_Plain s)\<lparr>dst_Conditions := elements (conds_at h (rdt_Conditions s))\<rparr>"

definition closed_dstatus :: "heap \<Rightarrow> raw_dstatus \<Rightarrow> bool" where
  "closed_dstatus h s = conds_closed h (rdt_Conditions s)"

definition read_deployment :: "heap \<Rightarrow> raw_deployment \<Rightarrow> type_meta \<times> mcudeployment" where
  "read_deployment h d =
     (rd_Type d, \<lparr>d_Meta = read_meta h (rd_Meta d), d_Spec = read_dspec h (rd_Spec d),
        d_Status = read_dstatus h (rd_Status d)\<rparr>)"

definition closed_deployment :: "heap \<Rightarrow> raw_deployment \<Rightarrow> bool" where
  "closed_deployment h d \<longleftrightarrow>
     closed_meta h (rd_Meta d) \<and> closed_dspec h (rd_Spec d) \<and> closed_dstatus h (rd_Status d)"

definition read_list ::
  "(cell \<Rightarrow> 'a list option) \<Rightarrow> (heap \<Rightarrow> 'a \<Rightarrow> 'b) \<Rightarrow> heap \<Rightarrow> raw_list \<Rightarrow>
     type_meta \<times> (string \<times> string \<times> int option) \<times> 'b list option" where
  "read_list get rd h l = (rl_Type l, read_list_meta h (rl_Meta l), read_slice get rd h (rl_Items l))"

definition closed_list ::
  "(cell \<Rightarrow> 'a list option) \<Rightarrow> (heap \<Rightarrow> 'a \<Rightarrow> bool) \<Rightarrow> heap \<Rightarrow> raw_list \<Rightarrow> bool" where
  "closed_list get cl h l \<longleftrightarrow> closed_list_meta h (rl_Meta l) \<and> closed_slice get cl h (rl_Items l)"

section \<open>Every operation is a deep copy\<close>

text \<open>What the code relies on: apimachinery's metadata copies are deep copies.\<close>

definition meta_lib_ok :: "meta_lib \<Rightarrow> bool" where
  "meta_lib_ok L \<longleftrightarrow>
     deep_copy read_meta (om_DeepCopyInto L) closed_meta \<and>
     deep_copy read_list_meta (lm_DeepCopyInto L) closed_list_meta"

lemmas stamp_deep = new_copy_deep [OF assign_deep, of get_stamp CStamp, simplified]
lemmas conditions_deep = new_slice_deep [OF assign_deep, of get_conds CConds, simplified, folded copy_conditions_def]
lemmas map_ptr_deep = new_copy_deep [OF copy_map_deep, of get_map CMap, simplified, folded copy_map_ptr_def]

interpretation node_status: deep_copy read_nstatus NodeStatus_DeepCopyInto closed_nstatus
  by (rule struct_deep [OF both_deep [OF stamp_deep conditions_deep], where part = "\<lambda>s. (rs_LastHeartbeat s, rs_Conditions s)"
        and upd = "\<lambda>y s. s\<lparr>rs_LastHeartbeat := fst y, rs_Conditions := snd y\<rparr>" and plain = rs_Plain
        and R = "\<lambda>p y. p\<lparr>nst_LastHeartbeat := fst y, nst_Conditions := elements (snd y)\<rparr>"])
     (auto simp: NodeStatus_DeepCopyInto_def both_def read_nstatus_def closed_nstatus_def split: prod.splits)

interpretation deployment_spec: deep_copy read_dspec DeploymentSpec_DeepCopyInto closed_dspec
  by (rule struct_deep [OF map_ptr_deep, where part = rds_NodeSelector
        and upd = "\<lambda>y s. s\<lparr>rds_NodeSelector := y\<rparr>" and plain = "\<lambda>s. (rds_Plain s, rds_Firmware s)"
        and R = "\<lambda>p y. (fst p)\<lparr>ds_Firmware := snd p, ds_NodeSelector := entries y\<rparr>"])
     (auto simp: DeploymentSpec_DeepCopyInto_def read_dspec_def closed_dspec_def split: prod.splits)

interpretation deployment_status: deep_copy read_dstatus DeploymentStatus_DeepCopyInto closed_dstatus
  by (rule struct_deep [OF conditions_deep, where part = rdt_Conditions
        and upd = "\<lambda>y s. s\<lparr>rdt_Conditions := y\<rparr>" and plain = rdt_Plain
        and R = "\<lambda>p y. p\<lparr>dst_Conditions := elements y\<rparr>"])
     (auto simp: DeploymentStatus_DeepCopyInto_def read_dstatus_def closed_dstatus_def split: prod.splits)

lemma node_deep:
  assumes "meta_lib_ok L" shows "deep_copy read_node (Node_DeepCopyInto L) closed_node"
proof -
  from assms have "deep_copy read_meta (om_DeepCopyInto L) closed_meta" by (simp add: meta_lib_ok_def)
  then show ?thesis
    by (rule struct_deep [OF both_deep [OF _ node_status.deep_copy_axioms], where part = "\<lambda>s. (rn_Meta s, rn_Status s)"
          and upd = "\<lambda>y s. s\<lparr>rn_Meta := fst y, rn_Status := snd y\<rparr>" and plain = "\<lambda>s. (rn_Type s, rn_Spec s)"
          and R = "\<lambda>p y. (fst p, \<lparr>n_Meta = fst y, n_Spec = snd p, n_Status = snd y\<rparr>)"])
       (auto simp: Node_DeepCopyInto_def both_def read_node_def closed_node_def split: prod.splits)
qed

lemma configmap_deep:
  assumes "meta_lib_ok L" shows "deep_copy read_configmap (ConfigMap_DeepCopyInto L) closed_configmap"
proof -
  from assms have "deep_copy read_meta (om_DeepCopyInto L) closed_meta" by (simp add: meta_lib_ok_def)
  then show ?thesis
    by (rule struct_deep [OF both_deep [OF _ map_ptr_deep], where part = "\<lambda>s. (rc_Meta s, rc_Data s)"
          and upd = "\<lambda>y s. s\<lparr>rc_Meta := fst y, rc_Data := snd y\<rparr>" and plain = rc_Type
          and R = "\<lambda>p y. (p, \<lparr>cm_Meta = fst y, cm_Data = entries (snd y)\<rparr>)"])
       (auto simp: ConfigMap_DeepCopyInto_def both_def read_configmap_def closed_configmap_def split: prod.splits)
qed

lemma deployment_deep:
  assumes "meta_lib_ok L" shows "deep_copy read_deployment (Deployment_DeepCopyInto L) closed_deployment"
proof -
  from assms have "deep_copy read_meta (om_DeepCopyInto L) closed_meta" by (simp add: meta_lib_ok_def)
  then show ?thesis
    by (rule struct_deep [OF both_deep [OF _ both_deep [OF deployment_spec.deep_copy_axioms deployment_status.deep_copy_axioms]],
          where part = "\<lambda>s. (rd_Meta s, rd_Spec s, rd_Status s)"
          and upd = "\<lambda>y s. s\<lparr>rd_Meta := fst y, rd_Spec := fst (snd y), rd_Status := snd (snd y)\<rparr>" and plain = rd_Type
          and R = "\<lambda>p y. (p, \<lparr>d_Meta = fst y, d_Spec = fst (snd y), d_Status = snd (snd y)\<rparr>)"])
       (auto simp: Deployment_DeepCopyInto_def both_def read_deployment_def closed_deployment_def split: prod.splits)
qed

lemma list_deep:
  assumes L: "meta_lib_ok L" and D: "deep_copy rd cp cl" and get: "\<And>xs. get (mk xs) = Some xs"
    and copy: "\<And>x h. copy x h =
      (let (m, h1) = lm_DeepCopyInto L (rl_Meta x) h; (s, h2) = new_slice mk get cp (rl_Items x) h1
       in (x\<lparr>rl_Type := rl_Type x, rl_Meta := m, rl_Items := s\<rparr>, h2))"
  shows "deep_copy (read_list get rd) copy (closed_list get cl)"
proof -
  from L have "deep_copy read_list_meta (lm_DeepCopyInto L) closed_list_meta" by (simp add: meta_lib_ok_def)
  then show ?thesis
    by (rule struct_deep [OF both_deep [OF _ new_slice_deep [where mk = mk, OF D get]], where part = "\<lambda>s. (rl_Meta s, rl_Items s)"
          and upd = "\<lambda>y s. s\<lparr>rl_Meta := fst y, rl_Items := snd y\<rparr>" and plain = rl_Type
          and R = "\<lambda>p y. (p, fst y, snd y)"])
       (auto simp: copy both_def read_list_def closed_list_def split: prod.splits)
qed

end
