(* ===== verification/ApiProps.thy ===== *)
theory ApiProps
  imports DeepCopy
begin

text \<open>
  Properties of the API types: the deep copies that serve as the base of every patch are independent
  of the object they were taken from.
\<close>

section \<open>What a faithful copy is\<close>

text \<open>
  The copy reads as the original did. It keeps doing so whatever is written later to cells that it
  has not allocated itself, so whatever happens to the original; and the original does not change
  whatever is written to new cells, so whatever happens to the copy.
\<close>

definition faithful_copy ::
  "(heap \<Rightarrow> 'a \<Rightarrow> 'b) \<Rightarrow> ('a \<Rightarrow> heap \<Rightarrow> 'a \<times> heap) \<Rightarrow> (heap \<Rightarrow> 'a \<Rightarrow> bool) \<Rightarrow> bool" where
  "faithful_copy rd cp cl \<longleftrightarrow>
     (\<forall>h x y h'. heap_wf h \<and> cl h x \<and> cp x h = (y, h') \<longrightarrow>
        heap_wf h' \<and> cl h' y \<and> rd h' y = rd h x \<and>
        (\<forall>h''. agree {h_next h..<h_next h'} h' h'' \<longrightarrow> rd h'' y = rd h x) \<and>
        (\<forall>h''. agree {..<h_next h} h' h'' \<longrightarrow> rd h'' x = rd h x))"

lemma faithful_copyI:
  assumes "deep_copy rd cp cl" shows "faithful_copy rd cp cl"
  unfolding faithful_copy_def
proof (intro allI impI, elim conjE)
  fix h x y h' assume w: "heap_wf h" and c: "cl h x" and e: "cp x h = (y, h')"
  have k: "agree {..<h_next h} h h'"
    using deep_copy.copied [OF assms w c e] by (simp add: extends_agree)
  have "rd h'' x = rd h x" if "agree {..<h_next h} h' h''" for h''
    using deep_copy.local [OF assms c agree_trans [OF k that]] by simp
  then show "heap_wf h' \<and> cl h' y \<and> rd h' y = rd h x \<and>
      (\<forall>h''. agree {h_next h..<h_next h'} h' h'' \<longrightarrow> rd h'' y = rd h x) \<and>
      (\<forall>h''. agree {..<h_next h} h' h'' \<longrightarrow> rd h'' x = rd h x)"
    using deep_copy.copied [OF assms w c e] deep_copy.copy_equal [OF assms w c e]
      deep_copy.fresh [OF assms w c e] by blast
qed

lemma faithful_copyD:
  "faithful_copy rd cp cl \<Longrightarrow> heap_wf h \<Longrightarrow> cl h x \<Longrightarrow> cp x h = (y, h') \<Longrightarrow>
     agree {h_next h..<h_next h'} h' h'' \<Longrightarrow> rd h'' y = rd h x"
  unfolding faithful_copy_def by blast

lemmas pointer_copy = faithful_copyI [OF new_copy_deep]

text \<open>A \<open>runtime.Object\<close> that holds a nil pointer would not be equal to \<open>nil\<close>.\<close>

lemma new_copy_nil: "new_copy mk get cp p h = (q, h') \<Longrightarrow> q = None \<longleftrightarrow> p = None"
  by (auto simp: new_copy_def split: option.splits prod.splits)

lemma copy_object_nil:
  "fst (Node_DeepCopyObject L p h) = NilObject \<longleftrightarrow> p = None"
  "fst (Deployment_DeepCopyObject L p h) = NilObject \<longleftrightarrow> p = None"
  "fst (ConfigMap_DeepCopyObject L p h) = NilObject \<longleftrightarrow> p = None"
  "fst (NodeList_DeepCopyObject L p h) = NilObject \<longleftrightarrow> p = None"
  "fst (DeploymentList_DeepCopyObject L p h) = NilObject \<longleftrightarrow> p = None"
  "fst (ConfigMapList_DeepCopyObject L p h) = NilObject \<longleftrightarrow> p = None"
  unfolding Node_DeepCopyObject_def Node_DeepCopy_def Deployment_DeepCopyObject_def Deployment_DeepCopy_def
      ConfigMap_DeepCopyObject_def ConfigMap_DeepCopy_def NodeList_DeepCopyObject_def NodeList_DeepCopy_def
      DeploymentList_DeepCopyObject_def DeploymentList_DeepCopy_def ConfigMapList_DeepCopyObject_def
      ConfigMapList_DeepCopy_def
  by (auto split: prod.splits dest!: new_copy_nil)

text \<open>
  C23: Given that apimachinery's metadata copies are deep copies, \<open>DeepCopy\<close> of each of the three
  resources and of their lists is one too. The base of a patch therefore keeps the value the object
  had, although the controllers then write into the maps, conditions and pointers of that object in
  place; and reading the objects as values, as all other definitions do, is exact.
\<close>

theorem deep_copies_independent:
  assumes "meta_lib_ok L"
  shows "faithful_copy (read_ptr get_node read_node) (Node_DeepCopy L) (closed_ptr get_node closed_node) \<and>
    faithful_copy (read_ptr get_dep read_deployment) (Deployment_DeepCopy L) (closed_ptr get_dep closed_deployment) \<and>
    faithful_copy (read_ptr get_configmap read_configmap) (ConfigMap_DeepCopy L)
      (closed_ptr get_configmap closed_configmap) \<and>
    faithful_copy (read_ptr get_node_list (read_list get_nodes read_node)) (NodeList_DeepCopy L)
      (closed_ptr get_node_list (closed_list get_nodes closed_node)) \<and>
    faithful_copy (read_ptr get_dep_list (read_list get_deps read_deployment)) (DeploymentList_DeepCopy L)
      (closed_ptr get_dep_list (closed_list get_deps closed_deployment)) \<and>
    faithful_copy (read_ptr get_configmap_list (read_list get_configmaps read_configmap)) (ConfigMapList_DeepCopy L)
      (closed_ptr get_configmap_list (closed_list get_configmaps closed_configmap))"
  unfolding Node_DeepCopy_def Deployment_DeepCopy_def ConfigMap_DeepCopy_def NodeList_DeepCopy_def
    DeploymentList_DeepCopy_def ConfigMapList_DeepCopy_def
  by (intro conjI pointer_copy node_deep deployment_deep configmap_deep assms get_node.simps get_dep.simps
      get_configmap.simps get_node_list.simps get_dep_list.simps get_configmap_list.simps
      list_deep [OF assms node_deep [OF assms] get_nodes.simps(1) NodeList_DeepCopyInto_def]
      list_deep [OF assms deployment_deep [OF assms] get_deps.simps(1) DeploymentList_DeepCopyInto_def]
      list_deep [OF assms configmap_deep [OF assms] get_configmaps.simps(1) ConfigMapList_DeepCopyInto_def])+

section \<open>A deployment on a heap\<close>

text \<open>A metadata library that copies every field, and a deployment that is changed after its copy was taken.\<close>

definition sample_lib :: meta_lib where
  "sample_lib = \<lparr>
     om_DeepCopyInto = (\<lambda>m h.
       let (y, h') = both (both (both copy_map_ptr copy_map_ptr)
               (both (new_slice CStrings get_strings assign) (new_slice CStrings get_strings assign)))
             (new_copy CStamp get_stamp assign)
             (((rm_Labels m, rm_Annotations m), (rm_Finalizers m, rm_OwnerReferences m)), rm_DeletionTimestamp m) h
       in (m\<lparr>rm_Labels := fst (fst (fst y)), rm_Annotations := snd (fst (fst y)),
             rm_Finalizers := fst (snd (fst y)), rm_OwnerReferences := snd (snd (fst y)),
             rm_DeletionTimestamp := snd y\<rparr>, h')),
     lm_DeepCopyInto = (\<lambda>m h.
       let (y, h') = new_copy CCount get_count assign (rl_RemainingItemCount m) h
       in (m\<lparr>rl_RemainingItemCount := y\<rparr>, h'))\<rparr>"

lemma sample_lib_ok: "meta_lib_ok sample_lib"
  unfolding meta_lib_ok_def
proof
  have str: "deep_copy (read_slice get_strings (\<lambda>h x. x)) (new_slice CStrings get_strings assign)
      (closed_slice get_strings (\<lambda>h x. True))"
    by (rule new_slice_deep [OF assign_deep]) simp
  have "deep_copy (read_ptr get_stamp (\<lambda>h x. x)) (new_copy CStamp get_stamp assign) (closed_ptr get_stamp (\<lambda>h x. True))"
    by (rule stamp_deep)
  from both_deep [OF both_deep [OF both_deep [OF map_ptr_deep map_ptr_deep] both_deep [OF str str]] this]
  show "deep_copy read_meta (om_DeepCopyInto sample_lib) closed_meta"
    by (rule struct_deep [where
          part = "\<lambda>m. (((rm_Labels m, rm_Annotations m), (rm_Finalizers m, rm_OwnerReferences m)), rm_DeletionTimestamp m)"
          and upd = "\<lambda>y m. m\<lparr>rm_Labels := fst (fst (fst y)), rm_Annotations := snd (fst (fst y)),
             rm_Finalizers := fst (snd (fst y)), rm_OwnerReferences := snd (snd (fst y)), rm_DeletionTimestamp := snd y\<rparr>"
          and plain = rm_Plain
          and R = "\<lambda>p y. p\<lparr>m_Labels := map_of (entries (fst (fst (fst y)))), m_Annotations := map_of (entries (snd (fst (fst y)))),
             m_Finalizers := elements (fst (snd (fst y))), m_OwnerReferences := elements (snd (snd (fst y))),
             m_DeletionTimestamp := snd y\<rparr>"])
       (auto simp: sample_lib_def read_meta_def closed_meta_def split: prod.splits)
  have "deep_copy (read_ptr get_count (\<lambda>h x. x)) (new_copy CCount get_count assign) (closed_ptr get_count (\<lambda>h x. True))"
    by (rule new_copy_deep [OF assign_deep]) simp
  then show "deep_copy read_list_meta (lm_DeepCopyInto sample_lib) closed_list_meta"
    by (rule struct_deep [where part = rl_RemainingItemCount and upd = "\<lambda>y m. m\<lparr>rl_RemainingItemCount := y\<rparr>"
          and plain = "\<lambda>m. (rl_ResourceVersion m, rl_Continue m)" and R = "\<lambda>p y. (fst p, snd p, y)"])
       (auto simp: sample_lib_def read_list_meta_def closed_list_meta_def split: prod.splits)
qed

definition heap_deployment :: raw_deployment where
  "heap_deployment = \<lparr>
     rd_Type = \<lparr>tm_Kind = ''McuDeployment'', tm_APIVersion = ''embewi.io/v1alpha1''\<rparr>,
     rd_Meta = \<lparr>rm_Plain = new_meta ''blink'' ''plant'' Map.empty, rm_Labels = None, rm_Annotations = Some 0,
       rm_Finalizers = None, rm_OwnerReferences = None, rm_DeletionTimestamp = None\<rparr>,
     rd_Spec = \<lparr>rds_Plain = \<lparr>ds_NodeName = '''', ds_NodeSelector = [],
         ds_Firmware = \<lparr>fw_Image = '''', fw_Name = '''', fw_Version = ''''\<rparr>, ds_ConfigMapRef = '''', ds_AppPort = 0\<rparr>,
       rds_Firmware = \<lparr>fw_Image = ''reg/blink:1'', fw_Name = ''blink'', fw_Version = ''1''\<rparr>, rds_NodeSelector = Some 1\<rparr>,
     rd_Status = \<lparr>rdt_Plain = \<lparr>dst_Phase = PhaseActivating, dst_BoundNode = ''n1'', dst_DeploymentID = ''id'',
         dst_Message = '''', dst_Digest = ''d'', dst_Size = 3, dst_Conditions = []\<rparr>,
       rdt_Conditions = Some \<lparr>sl_arr = 2, sl_off = 0, sl_len = 1\<rparr>\<rparr>\<rparr>"

definition progressing :: condition where
  "progressing = \<lparr>c_Type = ''Progressing'', c_Status = ConditionTrue, c_Reason = ''Activating'', c_Message = ''''\<rparr>"

definition sample_heap :: heap where
  "sample_heap = \<lparr>
     h_cells = [0 \<mapsto> CMap [(''team'', ''line-a'')], 1 \<mapsto> CMap [(''zone'', ''north'')], 2 \<mapsto> CConds [progressing],
       3 \<mapsto> CDep heap_deployment],
     h_next = 4\<rparr>"

text \<open>What \<open>setPhase\<close> does in place: a new annotation, a condition overwritten, the phase changed.\<close>

definition in_place :: "heap \<Rightarrow> heap" where
  "in_place h = h\<lparr>h_cells := (h_cells h)
     (0 \<mapsto> CMap [(''team'', ''line-a''), (''embewi.io/confirming-since'', ''now'')],
      2 \<mapsto> CConds [progressing\<lparr>c_Reason := ''Confirming''\<rparr>],
      3 \<mapsto> CDep (heap_deployment\<lparr>rd_Status := (rd_Status heap_deployment)\<lparr>rdt_Plain :=
        (rdt_Plain (rd_Status heap_deployment))\<lparr>dst_Phase := PhaseConfirming\<rparr>\<rparr>\<rparr>))\<rparr>"

lemma sample_heap_wf: "heap_wf sample_heap"
  by (simp add: heap_wf_def sample_heap_def)

lemma sample_closed: "closed_ptr get_dep closed_deployment sample_heap (Some 3)"
  by (simp add: closed_ptr_def sample_heap_def closed_deployment_def closed_meta_def closed_dspec_def
      closed_dstatus_def closed_slice_def slice_items_def heap_deployment_def)

theorem deep_copies_independent_witness:
  "(case Deployment_DeepCopy sample_lib (Some 3) sample_heap of (base, h) \<Rightarrow>
      read_ptr get_dep read_deployment (in_place h) base = read_ptr get_dep read_deployment sample_heap (Some 3) \<and>
      read_ptr get_dep read_deployment (in_place h) (Some 3) \<noteq> read_ptr get_dep read_deployment sample_heap (Some 3))"
proof -
  obtain base h where c: "Deployment_DeepCopy sample_lib (Some 3) sample_heap = (base, h)" by fastforce
  have "agree {h_next sample_heap..<h_next h} h (in_place h)"
    by (auto simp: agree_def in_place_def sample_heap_def)
  from faithful_copyD [OF conjunct1 [OF conjunct2 [OF deep_copies_independent [OF sample_lib_ok]]]
      sample_heap_wf sample_closed c this]
  show ?thesis
    by (simp add: c) (simp add: read_ptr_def in_place_def sample_heap_def read_deployment_def read_dstatus_def heap_deployment_def)
qed

end
