(* ===== verification/TokenRotation.thy ===== *)
theory TokenRotation
  imports NodeController Heartbeat
begin

text \<open>
  The token rotation as a protocol between four parties: the operator, who writes a new token and keeps
  the old one as \<open>previousToken\<close>; the node reconciler, which replays \<open>POST /token\<close>; the device, which
  takes a new token from whoever presents its own; and the heartbeat server, which withdraws
  \<open>previousToken\<close>. The reconciler and the server are the definitions of the other theories, run in
  any order and any number of times; requests and answers may be lost.
\<close>

section \<open>The world of a rotation\<close>

record 'w rot_view =
  rv_secret :: "'w \<Rightarrow> secret"  \<comment> \<open>the token Secret in the API server\<close>
  rv_device :: "'w \<Rightarrow> string"  \<comment> \<open>the token the device accepts\<close>
  rv_cache :: "'w \<Rightarrow> secret set"  \<comment> \<open>what a read of the Secret may return\<close>

text \<open>
  The client of the manager reads through a cache. What it may return changes only by the stored Secret
  getting there, and by older copies going away.
\<close>

definition cache_follows :: "'w rot_view \<Rightarrow> 'w \<Rightarrow> 'w \<Rightarrow> bool" where
  "cache_follows V w w' \<longleftrightarrow> rv_cache V w' \<subseteq> insert (rv_secret V w') (rv_cache V w)"

definition same_rotation :: "'w rot_view \<Rightarrow> 'w \<Rightarrow> 'w \<Rightarrow> bool" where
  "same_rotation V w w' \<longleftrightarrow> rv_secret V w' = rv_secret V w \<and> rv_device V w' = rv_device V w \<and> cache_follows V w w'"

text \<open>A merge patch (\<open>client.MergeFrom\<close>): it carries the keys in which the two objects differ.\<close>

definition merge_data :: "secret \<Rightarrow> secret \<Rightarrow> secret \<Rightarrow> string \<rightharpoonup> string" where
  "merge_data base x cur = (\<lambda>k. if sec_Data x k = sec_Data base k then sec_Data cur k else sec_Data x k)"

text \<open>\<open>POST /token\<close> that carries the token of the device.\<close>

definition token_request :: "string \<Rightarrow> string \<Rightarrow> string \<Rightarrow> http_request" where
  "token_request addr own new =
     agent_request (agent_New addr own) False ''POST'' ''/token'' (BJson (JObj [(''token'', JStr new)])) (-1) json_header"

definition token_post :: "http_request \<Rightarrow> string \<Rightarrow> string \<Rightarrow> bool" where
  "token_post q own new \<longleftrightarrow> (\<exists>addr. q = token_request addr own new)"

text \<open>
  What the protocol relies on: a read returns a Secret of the cache or fails, a patch is applied to what is
  stored or fails, and the device changes its token only on such a request.
\<close>

definition rot_env :: "'w rot_view \<Rightarrow> 'w ext \<Rightarrow> obj_key \<Rightarrow> bool" where
  "rot_env V E key \<longleftrightarrow>
     (\<forall>w r w'. kGetSecret E key w = (r, w') \<longrightarrow>
        same_rotation V w w' \<and> (\<forall>x. r = Inr x \<longrightarrow> x \<in> rv_cache V w)) \<and>
     (\<forall>base x w r w'. kPatchSecret E base x w = (r, w') \<longrightarrow>
        rv_device V w' = rv_device V w \<and> cache_follows V w w' \<and>
        (sec_Data (rv_secret V w') = sec_Data (rv_secret V w) \<or>
         sec_Data (rv_secret V w') = merge_data base x (rv_secret V w))) \<and>
     (\<forall>q w r w'. hDo E q w = (r, w') \<longrightarrow>
        rv_secret V w' = rv_secret V w \<and> cache_follows V w w' \<and>
        (rv_device V w' = rv_device V w \<or> token_post q (rv_device V w) (rv_device V w')))"

definition data_of :: "'w rot_view \<Rightarrow> 'w \<Rightarrow> string \<rightharpoonup> string" where
  "data_of V w = sec_Data (rv_secret V w)"

text \<open>No read returns a Secret that still shows a previous token.\<close>

definition cache_settled :: "'w rot_view \<Rightarrow> 'w \<Rightarrow> bool" where
  "cache_settled V w \<longleftrightarrow> (\<forall>x \<in> rv_cache V w. mget (sec_Data x) ''previousToken'' = '''')"

text \<open>
  The heartbeat server does not accept the token of the device any more, and nothing the reconciler can
  send is accepted by the device.
\<close>

definition locked_out :: "'w rot_view \<Rightarrow> 'w \<Rightarrow> bool" where
  "locked_out V w \<longleftrightarrow> check_token (data_of V w) ''token'' (rv_device V w) = tokenNoMatch"

section \<open>The steps\<close>

text \<open>
  A state is the world and the Secrets that heartbeat handlers have read and not yet patched. With
  \<open>wait\<close>, the operator starts a rotation only when there are none and no read returns a Secret with a
  previous token any more; without, whenever the stored Secret holds no \<open>previousToken\<close>, which is what
  the documentation asks for. Whoever presents the current token to the heartbeat server is the device. A
  run of the reconciler is one step.
\<close>

inductive rot_step ::
  "'w rot_view \<Rightarrow> 'w ext \<Rightarrow> hb_server \<Rightarrow> mcunode \<Rightarrow> obj_key \<Rightarrow> bool
     \<Rightarrow> 'w \<times> secret list \<Rightarrow> 'w \<times> secret list \<Rightarrow> bool"
  for V E srv node key wait where
  rotate: "(wait \<Longrightarrow> inflight = [] \<and> cache_settled V w) \<Longrightarrow> mget (data_of V w) ''previousToken'' = '''' \<Longrightarrow>
      data_of V w ''token'' = Some old \<Longrightarrow> trimSpace new \<noteq> '''' \<Longrightarrow>
      data_of V w' = (data_of V w)(''token'' \<mapsto> new, ''previousToken'' \<mapsto> old) \<Longrightarrow>
      rv_device V w' = rv_device V w \<Longrightarrow> cache_follows V w w' \<Longrightarrow>
      rot_step V E srv node key wait (w, inflight) (w', inflight)"
| replay: "run_state (reconcileTokenRotation E rec node) s = (err, t) \<Longrightarrow>
      rot_step V E srv node key wait (world s, inflight) (world t, inflight)"
| heartbeat: "run_state (validateToken E srv auth node) s = ((tokenMatchCurrent, Some sec), t) \<Longrightarrow>
      auth = ''Bearer '' @ rv_device V (world s) \<Longrightarrow> mget (sec_Data sec) ''previousToken'' \<noteq> '''' \<Longrightarrow>
      rot_step V E srv node key wait (world s, inflight) (world t, sec # inflight)"
| withdraw: "sec \<in> set inflight \<Longrightarrow> run_state (clearPreviousToken E sec) s = (u, t) \<Longrightarrow>
      rot_step V E srv node key wait (world s, inflight) (world t, remove1 sec inflight)"
| other: "same_rotation V w w' \<Longrightarrow> rot_step V E srv node key wait (w, inflight) (w', inflight)"

inductive rot_reach ::
  "'w rot_view \<Rightarrow> 'w ext \<Rightarrow> hb_server \<Rightarrow> mcunode \<Rightarrow> obj_key \<Rightarrow> bool \<Rightarrow> 'w \<times> secret list \<Rightarrow> 'w \<times> secret list \<Rightarrow> bool"
  for V E srv node key wait st where
  start: "rot_reach V E srv node key wait st st"
| step: "rot_reach V E srv node key wait st st1 \<Longrightarrow> rot_step V E srv node key wait st1 st2 \<Longrightarrow>
      rot_reach V E srv node key wait st st2"

inductive_cases rot_stepE: "rot_step V E srv node key wait (w, inflight) (w', inflight')"

section \<open>What each party does to the Secret and the device\<close>

lemma rot_envD:
  assumes "rot_env V E key"
  shows "kGetSecret E key w = (r, w') \<Longrightarrow> same_rotation V w w'"
    and "kGetSecret E key w = (Inr x, w') \<Longrightarrow> x \<in> rv_cache V w"
    and "kPatchSecret E base x w = (p, w') \<Longrightarrow> rv_device V w' = rv_device V w"
    and "kPatchSecret E base x w = (p, w') \<Longrightarrow> data_of V w' = data_of V w \<or> data_of V w' = merge_data base x (rv_secret V w)"
    and "hDo E q w = (h, w') \<Longrightarrow> rv_secret V w' = rv_secret V w"
    and "hDo E q w = (h, w') \<Longrightarrow> rv_device V w' = rv_device V w \<or> token_post q (rv_device V w) (rv_device V w')"
    and "kPatchSecret E base x w = (p, w') \<Longrightarrow> cache_follows V w w'"
    and "hDo E q w = (h, w') \<Longrightarrow> cache_follows V w w'"
  using assms unfolding rot_env_def data_of_def by metis+

lemma cache_follows_refl [simp]: "cache_follows V w w"
  by (auto simp: cache_follows_def)

lemma cache_follows_trans:
  "cache_follows V w w1 \<Longrightarrow> rv_secret V w2 = rv_secret V w1 \<Longrightarrow> cache_follows V w1 w2 \<Longrightarrow> cache_follows V w w2"
  by (auto simp: cache_follows_def)

text \<open>
  A copy of the Secret that still shows a previous token belongs to the current rotation: it holds the
  stored token.
\<close>

definition fresh_copies :: "'w rot_view \<Rightarrow> 'w \<Rightarrow> bool" where
  "fresh_copies V w \<longleftrightarrow> (\<forall>x \<in> rv_cache V w. mget (sec_Data x) ''previousToken'' \<noteq> '''' \<longrightarrow>
     sec_Data x ''token'' = data_of V w ''token'')"

lemma fresh_copies_follow:
  assumes "fresh_copies V w" "cache_follows V w w'" "data_of V w' ''token'' = data_of V w ''token''"
  shows "fresh_copies V w'"
  using assms by (auto simp: fresh_copies_def cache_follows_def data_of_def)

lemma settled_copies_follow:
  assumes "cache_settled V w" "cache_follows V w w'"
  shows "fresh_copies V w'"
  using assms by (auto simp: fresh_copies_def cache_follows_def cache_settled_def data_of_def)

text \<open>Two requests of the agent client to \<open>/token\<close> are the same only if their tokens are.\<close>

lemma token_post_agent:
  "token_post (agent_request (agent_New addr tok) False ''POST'' ''/token'' (BJson (JObj [(''token'', JStr new)])) (-1) json_header) own new'
     \<Longrightarrow> own = tok \<and> new' = new"
  by (auto simp: token_post_def token_request_def agent_request_def agent_New_def Let_def split: if_splits)

lemma replay_effect:
  assumes env: "rot_env V E key" and key: "token_secret_key node (ns_TokenRef (n_Spec node)) = key"
    and run: "run_state (reconcileTokenRotation E rec node) s = (err, t)"
  shows "rv_secret V (world t) = rv_secret V (world s) \<and> cache_follows V (world s) (world t) \<and>
    (rv_device V (world t) = rv_device V (world s) \<or>
     (\<exists>x \<in> rv_cache V (world s). mget (sec_Data x) ''previousToken'' \<noteq> '''' \<and>
        rv_device V (world t) = trimSpace (mget (sec_Data x) ''token'') \<and> rv_device V (world t) \<noteq> ''''))"
    (is "?Q (world t)")
proof -
  have "wp (reconcileTokenRotation E rec node) (\<lambda>_ t. ?Q (world t)) s"
  proof (cases "sr_Name (ns_TokenRef (n_Spec node)) = ''''")
    case True
    then show ?thesis by (simp add: reconcileTokenRotation_def wp_simps)
  next
    case False
    obtain r w1 where g: "kGetSecret E key (world s) = (r, w1)" by (cases "kGetSecret E key (world s)")
    then have w1: "rv_secret V w1 = rv_secret V (world s)" "rv_device V w1 = rv_device V (world s)" "cache_follows V (world s) w1"
      using rot_envD(1) [OF env g] by (simp_all add: same_rotation_def)
    show ?thesis
    proof (cases r)
      case (Inl e)
      with False g w1 key show ?thesis by (simp add: reconcileTokenRotation_def wp_simps Let_def)
    next
      case (Inr sec)
      with g rot_envD(2) [OF env] have sec: "sec \<in> rv_cache V (world s)" by simp
      let ?p = "trimSpace (mget (sec_Data sec) ''previousToken'')" and ?n = "trimSpace (mget (sec_Data sec) ''token'')"
      let ?q = "agent_request (agent_New (nst_IP (n_Status node)) ?p) False ''POST'' ''/token''
        (BJson (JObj [(''token'', JStr ?n)])) (-1) json_header"
      have post: "?Q u" if h: "hDo E ?q w1 = (h, u)" and n: "?n \<noteq> ''''" and p: "?p \<noteq> ''''" for h u
      proof -
        from p have "mget (sec_Data sec) ''previousToken'' \<noteq> ''''" by auto
        moreover from rot_envD(6) [OF env h] have "rv_device V u = rv_device V w1 \<or> rv_device V u = ?n"
          using token_post_agent by blast
        ultimately show ?thesis
          using rot_envD(5) [OF env h] cache_follows_trans [OF w1(3) rot_envD(5,8) [OF env h]] w1 n sec by metis
      qed
      show ?thesis
        using False g w1 key Inr post
        by (auto simp: reconcileTokenRotation_def wp_simps Let_def RotateToken_def agent_do_def doWith_def
            record_event_def split: prod.splits option.splits sum.splits dest: post)
    qed
  qed
  then show ?thesis using run by (rule wpD)
qed

lemma validate_effect:
  assumes env: "rot_env V E key" and ref: "resolveTokenSecret srv node = (key, ''token'')"
    and run: "run_state (validateToken E srv (''Bearer '' @ tok) node) s = ((tokenMatchCurrent, Some sec), t)"
  shows "same_rotation V (world s) (world t) \<and> sec \<in> rv_cache V (world s) \<and>
    (\<exists>cur. sec_Data sec ''token'' = Some cur \<and> trimSpace cur = tok)"
proof -
  obtain r w1 where g: "kGetSecret E key (world s) = (r, w1)" by (cases "kGetSecret E key (world s)")
  from run ref g obtain x where "r = Inr x" and x: "x = sec" "world t = w1"
    "check_token (sec_Data sec) ''token'' tok = tokenMatchCurrent"
    by (auto simp: validateToken_def ext_call_def hasPrefix_def trimPrefix_def split: sum.splits tokenMatch.splits if_splits)
  with g rot_envD(1,2) [OF env] show ?thesis
    by (auto simp: check_token_def split: if_splits)
qed

lemma withdraw_effect:
  assumes env: "rot_env V E key" and run: "run_state (clearPreviousToken E sec) s = (u, t)"
  shows "rv_device V (world t) = rv_device V (world s) \<and> cache_follows V (world s) (world t) \<and>
    (data_of V (world t) = data_of V (world s) \<or> data_of V (world t) = (data_of V (world s))(''previousToken'' := None) \<or>
     sec_Data sec ''previousToken'' = None)"
proof -
  let ?x = "sec\<lparr>sec_Data := (sec_Data sec)(''previousToken'' := None)\<rparr>"
  obtain r where p: "kPatchSecret E sec ?x (world s) = (r, world t)"
    using run by (auto simp: clearPreviousToken_def ext_call_def split: prod.splits)
  have "merge_data sec ?x (rv_secret V (world s)) = (data_of V (world s))(''previousToken'' := None)"
    if "sec_Data sec ''previousToken'' \<noteq> None"
    using that by (auto simp: merge_data_def data_of_def fun_eq_iff)
  with rot_envD(3,4,7) [OF env p] show ?thesis by auto
qed

section \<open>The device is never locked out\<close>

text \<open>
  The invariant: the device holds a token the stored Secret accepts, every copy of the Secret that shows a
  previous token is of the current rotation, and while a withdrawal is under way the device holds the
  current token.
\<close>

definition rot_inv :: "'w rot_view \<Rightarrow> 'w \<times> secret list \<Rightarrow> bool" where
  "rot_inv V st \<longleftrightarrow>
     (case st of (w, inflight) \<Rightarrow>
        \<not> locked_out V w \<and> rv_device V w \<noteq> '''' \<and> fresh_copies V w \<and>
        (\<forall>sec \<in> set inflight. sec_Data sec ''previousToken'' \<noteq> None) \<and>
        (inflight \<noteq> [] \<longrightarrow> (\<exists>cur. data_of V w ''token'' = Some cur \<and> trimSpace cur = rv_device V w)))"

lemma current_accepted:
  "data ''token'' = Some cur \<Longrightarrow> trimSpace cur = tok \<Longrightarrow> check_token data ''token'' tok = tokenMatchCurrent"
  by (simp add: check_token_def)

lemma accepted_cases:
  assumes "check_token data ''token'' tok \<noteq> tokenNoMatch"
  obtains cur where "data ''token'' = Some cur" "trimSpace cur = tok"
  | prev where "data ''previousToken'' = Some prev" "prev \<noteq> ''''" "trimSpace prev = tok"
  using assms by (auto simp: check_token_def split: if_splits)

lemma mget_Some: "m k = Some v \<Longrightarrow> mget m k = v"
  by (simp add: mget_def)

lemma rot_inv_step:
  assumes env: "rot_env V E key" and key: "token_secret_key node (ns_TokenRef (n_Spec node)) = key"
    and ref: "resolveTokenSecret srv node = (key, ''token'')"
    and "rot_step V E srv node key True st st'" "rot_inv V st"
  shows "rot_inv V st'"
  using assms(4,5)
proof (cases rule: rot_step.cases)
  case (rotate inflight w old new w')
  from rotate(1,3) assms(5) have a: "check_token (data_of V w) ''token'' (rv_device V w) \<noteq> tokenNoMatch"
    and d: "rv_device V w \<noteq> ''''" and e: "inflight = []" "cache_settled V w"
    by (auto simp: rot_inv_def locked_out_def)
  from a rotate(4,5) have "trimSpace old = rv_device V w"
    by (cases rule: accepted_cases) (auto dest: mget_Some)
  moreover from this d have "old \<noteq> ''''" by auto
  ultimately have "check_token (data_of V w') ''token'' (rv_device V w') \<noteq> tokenNoMatch"
    using rotate(7,8) by (auto simp: check_token_def)
  with rotate(2,8) e(1) d settled_copies_follow [OF e(2) rotate(9)] show ?thesis by (simp add: rot_inv_def locked_out_def)
next
  case (replay rec s err t inflight)
  note eff = replay_effect [OF env key replay(3)]
  have same: "data_of V (world t) = data_of V (world s)" using eff by (simp add: data_of_def)
  have f: "fresh_copies V (world s)" using assms(5) replay(1) by (simp add: rot_inv_def)
  have f': "fresh_copies V (world t)" using fresh_copies_follow [OF f] eff same by simp
  show ?thesis
  proof (cases "rv_device V (world t) = rv_device V (world s)")
    case True
    with same f' assms(5) replay(1,2) show ?thesis by (auto simp: rot_inv_def locked_out_def)
  next
    case False
    with eff obtain x where x: "x \<in> rv_cache V (world s)" "mget (sec_Data x) ''previousToken'' \<noteq> ''''"
      "rv_device V (world t) = trimSpace (mget (sec_Data x) ''token'')" "rv_device V (world t) \<noteq> ''''" by auto
    with f have "rv_device V (world t) = trimSpace (mget (data_of V (world s)) ''token'')"
      by (simp add: fresh_copies_def mget_def)
    with x(4) obtain cur where "data_of V (world s) ''token'' = Some cur" "rv_device V (world t) = trimSpace cur"
      by (cases "data_of V (world s) ''token''") (auto simp: mget_def)
    with same x(4) f' assms(5) replay(1,2) show ?thesis
      by (auto simp: rot_inv_def locked_out_def current_accepted)
  qed
next
  case (heartbeat auth s sec t inflight)
  note eff = validate_effect [OF env ref heartbeat(3) [unfolded heartbeat(4)]]
  have same: "data_of V (world t) = data_of V (world s)" "rv_device V (world t) = rv_device V (world s)"
    "cache_follows V (world s) (world t)"
    using eff by (simp_all add: data_of_def same_rotation_def)
  have f: "fresh_copies V (world s)" using assms(5) heartbeat(1) by (simp add: rot_inv_def)
  have "sec_Data sec ''token'' = data_of V (world s) ''token''" using eff f heartbeat(5) by (simp add: fresh_copies_def)
  with eff same fresh_copies_follow [OF f same(3)] assms(5) heartbeat(1,2,5)
  show ?thesis
    by (auto simp: rot_inv_def locked_out_def mget_def split: option.splits)
next
  case (withdraw sec inflight s u t)
  from assms(5) withdraw(1,3) obtain cur where
    c: "data_of V (world s) ''token'' = Some cur" "trimSpace cur = rv_device V (world s)" "rv_device V (world s) \<noteq> ''''"
      "sec_Data sec ''previousToken'' \<noteq> None" "\<forall>sec \<in> set inflight. sec_Data sec ''previousToken'' \<noteq> None"
      "fresh_copies V (world s)"
    by (fastforce simp: rot_inv_def)
  from withdraw_effect [OF env withdraw(4)] c(4)
  have e: "rv_device V (world t) = rv_device V (world s)" "data_of V (world t) ''token'' = data_of V (world s) ''token''"
    "cache_follows V (world s) (world t)" by auto
  with c withdraw(2) fresh_copies_follow [OF c(6) e(3,2)] show ?thesis
    by (auto simp: rot_inv_def locked_out_def current_accepted dest: notin_set_remove1 [THEN contrapos_pp] set_remove1_subset [THEN subsetD])
next
  case (other w w' inflight)
  with assms(5) show ?thesis
    by (auto simp: rot_inv_def locked_out_def same_rotation_def data_of_def intro: fresh_copies_follow)
qed

lemma rot_inv_reach:
  assumes "rot_env V E key" "token_secret_key node (ns_TokenRef (n_Spec node)) = key"
    and "resolveTokenSecret srv node = (key, ''token'')"
    and "rot_reach V E srv node key True st st'" "rot_inv V st"
  shows "rot_inv V st'"
  using assms(4,5) by induction (auto intro: rot_inv_step [OF assms(1-3)])

end
