(* ===== verification/RotationProps.thy ===== *)
theory RotationProps
  imports TokenRotation TestBed
begin

text \<open>The properties of the token rotation, with a run of the protocol on a concrete world.\<close>

section \<open>A concrete rotation\<close>

record rot_world =
  rw_secret :: secret
  rw_device :: string

definition rot_view :: "rot_world rot_view" where
  "rot_view = \<lparr>rv_secret = rw_secret, rv_device = rw_device, rv_cache = (\<lambda>w. {rw_secret w})\<rparr>"

definition rot_device :: "http_request \<Rightarrow> rot_world \<Rightarrow> (gerr + http_response) \<times> rot_world" where
  "rot_device q w =
     (case rq_Body q of
        BJson (JObj [(_, JStr new)]) \<Rightarrow>
          if q = token_request ''10.0.0.1'' (rw_device w) new then (Inr (bed_ok ''''), w\<lparr>rw_device := new\<rparr>)
          else (Inr ((bed_ok '''')\<lparr>rs_StatusCode := 401\<rparr>), w)
      | _ \<Rightarrow> (Inr ((bed_ok '''')\<lparr>rs_StatusCode := 404\<rparr>), w))"

definition rotE :: "rot_world ext" where
  "rotE = bedE\<lparr>kGetSecret := (\<lambda>_ w. (Inr (rw_secret w), w)),
     kPatchSecret := (\<lambda>base x w. (Inr x, w\<lparr>rw_secret := (rw_secret w)\<lparr>sec_Data := merge_data base x (rw_secret w)\<rparr>\<rparr>)),
     hDo := rot_device\<rparr>"

abbreviation rot_srv :: hb_server where "rot_srv \<equiv> hb_New '':8080''"
abbreviation rot_key :: obj_key where "rot_key \<equiv> \<lparr>key_Namespace = ''ns'', key_Name = ''tok''\<rparr>"

definition rot_at :: "(string \<rightharpoonup> string) \<Rightarrow> string \<Rightarrow> rot_world" where
  "rot_at data device = \<lparr>rw_secret = bed_secret data, rw_device = device\<rparr>"

lemma rotE_simps [simp]:
  "kGetSecret rotE k w = (Inr (rw_secret w), w)"
  "kPatchSecret rotE base x w = (Inr x, w\<lparr>rw_secret := (rw_secret w)\<lparr>sec_Data := merge_data base x (rw_secret w)\<rparr>\<rparr>)"
  "hDo rotE = rot_device" "hNewRequest rotE m u = None"
  by (simp_all add: rotE_def bedE_def)

lemma rot_device_effect:
  "rot_device q w = (r, w') \<Longrightarrow> rw_secret w' = rw_secret w \<and>
     (rw_device w' = rw_device w \<or> (\<exists>new. q = token_request ''10.0.0.1'' (rw_device w) new \<and> rw_device w' = new))"
  by (auto simp: rot_device_def split: req_body.splits json.splits list.splits prod.splits if_splits)

lemma rotE_env: "rot_env rot_view rotE rot_key"
  unfolding rot_env_def same_rotation_def cache_follows_def rot_view_def
  by (auto dest!: rot_device_effect simp: token_post_def)

lemma rot_refs:
  "token_secret_key bed_node (ns_TokenRef (n_Spec bed_node)) = rot_key"
  "resolveTokenSecret rot_srv bed_node = (rot_key, ''token'')"
  by (simp_all add: token_secret_key_def resolveTokenSecret_def bed_node_def bed_meta_def new_meta_def)

lemma rot_trim [simp]: "trimSpace ''A'' = ''A''" "trimSpace ''B'' = ''B''" "trimSpace ''C'' = ''C''"
  by code_simp+

lemma rot_data [simp]: "data_of rot_view (rot_at data device) = data" "rv_device rot_view (rot_at data device) = device"
  "rv_cache rot_view (rot_at data device) = {bed_secret data}" "rv_secret rot_view (rot_at data device) = bed_secret data"
  by (simp_all add: data_of_def rot_view_def rot_at_def bed_secret_def)

abbreviation "rot_run \<equiv> rot_step rot_view rotE rot_srv bed_node rot_key"

text \<open>The four steps of the protocol on this world.\<close>

lemma rot_rotate:
  "(wait \<Longrightarrow> fl = []) \<Longrightarrow> trimSpace new \<noteq> '''' \<Longrightarrow>
     rot_run wait (rot_at [''token'' \<mapsto> old] device, fl) (rot_at [''token'' \<mapsto> new, ''previousToken'' \<mapsto> old] device, fl)"
  by (rule rot_step.rotate) (auto simp: fun_eq_iff cache_settled_def cache_follows_def bed_secret_def mget_def)

lemma rot_replay:
  assumes "trimSpace old = old" "trimSpace new = new" "old \<noteq> ''''" "new \<noteq> ''''"
  shows "rot_run wait (rot_at [''token'' \<mapsto> new, ''previousToken'' \<mapsto> old] old, fl)
    (rot_at [''token'' \<mapsto> new, ''previousToken'' \<mapsto> old] new, fl)"
proof -
  have n: "sr_Name (ns_TokenRef (n_Spec bed_node)) = ''tok''" "nst_IP (n_Status bed_node) = ''10.0.0.1''"
    by (simp_all add: bed_node_def)
  have d: "rot_device (agent_request (agent_New ''10.0.0.1'' old) False ''POST'' ''/token''
        (BJson (JObj [(''token'', JStr new)])) (-1) json_header)
      (rot_at [''token'' \<mapsto> new, ''previousToken'' \<mapsto> old] old) =
      (Inr (bed_ok ''''), rot_at [''token'' \<mapsto> new, ''previousToken'' \<mapsto> old] new)"
    by (simp add: rot_device_def agent_request_def token_request_def rot_at_def)
  obtain t where r: "run_state (reconcileTokenRotation rotE False bed_node)
      (bed_sys (rot_at [''token'' \<mapsto> new, ''previousToken'' \<mapsto> old] old)) = (None, t)"
    and w: "world t = rot_at [''token'' \<mapsto> new, ''previousToken'' \<mapsto> old] new"
    using assms
    by (auto simp: reconcileTokenRotation_def Let_def n ext_call_def RotateToken_def agent_do_def doWith_def record_event_def
        rot_at_def bed_secret_def d [unfolded rot_at_def bed_secret_def] bed_ok_def)
  from rot_step.replay [where V = rot_view and srv = rot_srv and wait = wait and inflight = fl and key = rot_key, OF r]
  show ?thesis by (simp add: w)
qed

lemma rot_heartbeat:
  assumes "trimSpace cur = cur" "prev \<noteq> ''''"
  shows "rot_run wait (rot_at [''token'' \<mapsto> cur, ''previousToken'' \<mapsto> prev] cur, fl)
    (rot_at [''token'' \<mapsto> cur, ''previousToken'' \<mapsto> prev] cur, bed_secret [''token'' \<mapsto> cur, ''previousToken'' \<mapsto> prev] # fl)"
proof -
  obtain t where r: "run_state (validateToken rotE rot_srv (''Bearer '' @ cur) bed_node)
      (bed_sys (rot_at [''token'' \<mapsto> cur, ''previousToken'' \<mapsto> prev] cur)) =
      ((tokenMatchCurrent, Some (bed_secret [''token'' \<mapsto> cur, ''previousToken'' \<mapsto> prev])), t)"
    and w: "world t = rot_at [''token'' \<mapsto> cur, ''previousToken'' \<mapsto> prev] cur"
    using assms(1)
    by (auto simp: validateToken_def hasPrefix_def trimPrefix_def rot_refs ext_call_def rot_at_def bed_secret_def check_token_def)
  from rot_step.heartbeat [where V = rot_view and key = rot_key and wait = wait and inflight = fl, OF r] assms(2)
  show ?thesis by (simp add: w bed_secret_def)
qed

lemma rot_withdraw:
  assumes "sec = bed_secret [''token'' \<mapsto> a, ''previousToken'' \<mapsto> b]"
  shows "rot_run wait (rot_at data device, sec # fl) (rot_at (data(''previousToken'' := None)) device, fl)"
proof -
  have m: "merge_data sec (sec\<lparr>sec_Data := (sec_Data sec)(''previousToken'' := None)\<rparr>) (bed_secret data) = data(''previousToken'' := None)"
    by (auto simp: merge_data_def assms bed_secret_def fun_eq_iff)
  obtain t where r: "run_state (clearPreviousToken rotE sec) (bed_sys (rot_at data device)) = ((), t)"
    and w: "world t = rot_at (data(''previousToken'' := None)) device"
    by (auto simp: clearPreviousToken_def ext_call_def rot_at_def m [unfolded bed_secret_def] bed_secret_def)
  from rot_step.withdraw [where V = rot_view and srv = rot_srv and node = bed_node and key = rot_key and wait = wait
      and inflight = "sec # fl" and sec = sec, OF _ r]
  show ?thesis by (simp add: w)
qed

section \<open>Safety\<close>

text \<open>
  C9: Through any number of token rotations, with requests and answers lost, reads served from a cache that
  is behind, the reconciler replaying and heartbeats arriving in any order, the token the device holds is
  one that the stored Secret accepts, provided the operator starts a rotation only when the stored Secret
  and every copy of it that a read may still return show no previous token, and no heartbeat handler has
  yet to withdraw the previous token of the last one. At the start the stored Secret accepts the token of
  the device, which is not empty, and no older copy is around. A run of the reconciler is one step.
\<close>

theorem device_never_locked_out:
  assumes "rot_env V E key" "token_secret_key node (ns_TokenRef (n_Spec node)) = key"
    and "resolveTokenSecret srv node = (key, ''token'')"
    and "rot_reach V E srv node key True (w0, []) (w, inflight)"
    and "check_token (data_of V w0) ''token'' (rv_device V w0) \<noteq> tokenNoMatch" "rv_device V w0 \<noteq> ''''"
    and "rv_cache V w0 \<subseteq> {rv_secret V w0}"
  shows "check_token (data_of V w) ''token'' (rv_device V w) \<noteq> tokenNoMatch"
proof -
  have "rot_inv V (w0, [])" using assms(5-7) by (auto simp: rot_inv_def locked_out_def fresh_copies_def data_of_def)
  from rot_inv_reach [OF assms(1-4) this] show ?thesis by (simp add: rot_inv_def locked_out_def)
qed

text \<open>The same world behind a cache: a read returns a copy of the Secret that may be behind.\<close>

record lag_world = rot_world +
  lw_cached :: secret

definition lag_at :: "(string \<rightharpoonup> string) \<Rightarrow> string \<Rightarrow> (string \<rightharpoonup> string) \<Rightarrow> lag_world" where
  "lag_at data device cached = \<lparr>rw_secret = bed_secret data, rw_device = device, lw_cached = bed_secret cached\<rparr>"

definition lag_view :: "lag_world rot_view" where
  "lag_view = \<lparr>rv_secret = rw_secret, rv_device = rw_device, rv_cache = (\<lambda>w. {lw_cached w})\<rparr>"

definition lag_device :: "http_request \<Rightarrow> lag_world \<Rightarrow> (gerr + http_response) \<times> lag_world" where
  "lag_device q w =
     (case rq_Body q of
        BJson (JObj [(_, JStr new)]) \<Rightarrow>
          if q = token_request ''10.0.0.1'' (rw_device w) new then (Inr (bed_ok ''''), w\<lparr>rw_device := new\<rparr>)
          else (Inr ((bed_ok '''')\<lparr>rs_StatusCode := 401\<rparr>), w)
      | _ \<Rightarrow> (Inr ((bed_ok '''')\<lparr>rs_StatusCode := 404\<rparr>), w))"

definition lagE :: "lag_world ext" where
  "lagE = bedE\<lparr>kGetSecret := (\<lambda>_ w. (Inr (lw_cached w), w)),
     kPatchSecret := (\<lambda>base x w. (Inr x, w\<lparr>rw_secret := (rw_secret w)\<lparr>sec_Data := merge_data base x (rw_secret w)\<rparr>\<rparr>)),
     hDo := lag_device\<rparr>"

lemma lagE_simps [simp]:
  "kGetSecret lagE k w = (Inr (lw_cached w), w)"
  "kPatchSecret lagE base x w = (Inr x, w\<lparr>rw_secret := (rw_secret w)\<lparr>sec_Data := merge_data base x (rw_secret w)\<rparr>\<rparr>)"
  "hDo lagE = lag_device" "hNewRequest lagE m u = None"
  by (simp_all add: lagE_def bedE_def)

lemma lag_device_effect:
  "lag_device q w = (r, w') \<Longrightarrow> rw_secret w' = rw_secret w \<and> lw_cached w' = lw_cached w \<and>
     (rw_device w' = rw_device w \<or> (\<exists>new. q = token_request ''10.0.0.1'' (rw_device w) new \<and> rw_device w' = new))"
  by (auto simp: lag_device_def split: req_body.splits json.splits list.splits prod.splits if_splits)

lemma lagE_env: "rot_env lag_view lagE rot_key"
  unfolding rot_env_def same_rotation_def cache_follows_def lag_view_def
  by (auto dest!: lag_device_effect simp: token_post_def)

lemma lag_data [simp]:
  "data_of lag_view (lag_at data device c) = data" "rv_device lag_view (lag_at data device c) = device"
  "rv_cache lag_view (lag_at data device c) = {bed_secret c}" "rv_secret lag_view (lag_at data device c) = bed_secret data"
  by (simp_all add: data_of_def lag_view_def lag_at_def bed_secret_def)

abbreviation "lag_run \<equiv> rot_step lag_view lagE rot_srv bed_node rot_key"

lemma lag_rotate:
  "(wait \<Longrightarrow> fl = [] \<and> c ''previousToken'' = None) \<Longrightarrow> trimSpace new \<noteq> '''' \<Longrightarrow>
     lag_run wait (lag_at [''token'' \<mapsto> old] device c, fl) (lag_at [''token'' \<mapsto> new, ''previousToken'' \<mapsto> old] device c, fl)"
  by (rule rot_step.rotate) (auto simp: fun_eq_iff cache_settled_def cache_follows_def bed_secret_def mget_def)

lemma lag_sync: "lag_run wait (lag_at data device c, fl) (lag_at data device data, fl)"
  by (rule rot_step.other) (simp add: same_rotation_def cache_follows_def)

lemma lag_replay:
  assumes "trimSpace old = old" "trimSpace new = new" "old \<noteq> ''''" "new \<noteq> ''''"
  shows "lag_run wait (lag_at data old [''token'' \<mapsto> new, ''previousToken'' \<mapsto> old], fl)
    (lag_at data new [''token'' \<mapsto> new, ''previousToken'' \<mapsto> old], fl)"
proof -
  have n: "sr_Name (ns_TokenRef (n_Spec bed_node)) = ''tok''" "nst_IP (n_Status bed_node) = ''10.0.0.1''"
    by (simp_all add: bed_node_def)
  have d: "lag_device (agent_request (agent_New ''10.0.0.1'' old) False ''POST'' ''/token''
        (BJson (JObj [(''token'', JStr new)])) (-1) json_header)
      (lag_at data old [''token'' \<mapsto> new, ''previousToken'' \<mapsto> old]) =
      (Inr (bed_ok ''''), lag_at data new [''token'' \<mapsto> new, ''previousToken'' \<mapsto> old])"
    by (simp add: lag_device_def agent_request_def token_request_def lag_at_def)
  obtain t where r: "run_state (reconcileTokenRotation lagE False bed_node)
      (bed_sys (lag_at data old [''token'' \<mapsto> new, ''previousToken'' \<mapsto> old])) = (None, t)"
    and w: "world t = lag_at data new [''token'' \<mapsto> new, ''previousToken'' \<mapsto> old]"
    using assms
    by (auto simp: reconcileTokenRotation_def Let_def n ext_call_def RotateToken_def agent_do_def doWith_def record_event_def
        lag_at_def bed_secret_def d [unfolded lag_at_def bed_secret_def] bed_ok_def)
  from rot_step.replay [where V = lag_view and srv = rot_srv and wait = wait and inflight = fl and key = rot_key, OF r]
  show ?thesis by (simp add: w)
qed

lemma lag_heartbeat:
  assumes "trimSpace cur = cur" "prev \<noteq> ''''"
  shows "lag_run wait (lag_at data cur [''token'' \<mapsto> cur, ''previousToken'' \<mapsto> prev], fl)
    (lag_at data cur [''token'' \<mapsto> cur, ''previousToken'' \<mapsto> prev], bed_secret [''token'' \<mapsto> cur, ''previousToken'' \<mapsto> prev] # fl)"
proof -
  obtain t where r: "run_state (validateToken lagE rot_srv (''Bearer '' @ cur) bed_node)
      (bed_sys (lag_at data cur [''token'' \<mapsto> cur, ''previousToken'' \<mapsto> prev])) =
      ((tokenMatchCurrent, Some (bed_secret [''token'' \<mapsto> cur, ''previousToken'' \<mapsto> prev])), t)"
    and w: "world t = lag_at data cur [''token'' \<mapsto> cur, ''previousToken'' \<mapsto> prev]"
    using assms(1)
    by (auto simp: validateToken_def hasPrefix_def trimPrefix_def rot_refs ext_call_def lag_at_def bed_secret_def check_token_def)
  from rot_step.heartbeat [where V = lag_view and key = rot_key and wait = wait and inflight = fl, OF r] assms(2)
  show ?thesis by (simp add: w bed_secret_def)
qed

lemma lag_withdraw:
  assumes "sec = bed_secret [''token'' \<mapsto> a, ''previousToken'' \<mapsto> b]"
  shows "lag_run wait (lag_at data device c, sec # fl) (lag_at (data(''previousToken'' := None)) device c, fl)"
proof -
  have m: "merge_data sec (sec\<lparr>sec_Data := (sec_Data sec)(''previousToken'' := None)\<rparr>) (bed_secret data) = data(''previousToken'' := None)"
    by (auto simp: merge_data_def assms bed_secret_def fun_eq_iff)
  obtain t where r: "run_state (clearPreviousToken lagE sec) (bed_sys (lag_at data device c)) = ((), t)"
    and w: "world t = lag_at (data(''previousToken'' := None)) device c"
    by (auto simp: clearPreviousToken_def ext_call_def lag_at_def m [unfolded bed_secret_def] bed_secret_def)
  from rot_step.withdraw [where V = lag_view and srv = rot_srv and node = bed_node and key = rot_key and wait = wait
      and inflight = "sec # fl" and sec = sec, OF _ r]
  show ?thesis by (simp add: w)
qed

abbreviation "rot_AB \<equiv> [''token'' \<mapsto> ''B'', ''previousToken'' \<mapsto> ''A'']"
abbreviation "rot_BC \<equiv> [''token'' \<mapsto> ''C'', ''previousToken'' \<mapsto> ''B'']"

abbreviation "rot_A \<equiv> [''token'' \<mapsto> ''A'']"
abbreviation "rot_B \<equiv> [''token'' \<mapsto> ''B'']"

abbreviation "lag_runs \<equiv> rot_reach lag_view lagE rot_srv bed_node rot_key"

lemma rot_drop [simp]: "[''token'' \<mapsto> x, ''previousToken'' \<mapsto> y](''previousToken'' := None) = [''token'' \<mapsto> x]"
  "[''token'' \<mapsto> x](''previousToken'' := None) = [''token'' \<mapsto> x]"
  by (simp_all add: fun_eq_iff)

text \<open>The rotation from \<open>A\<close> to \<open>B\<close>, confirmed and withdrawn; the cache still shows the previous token.\<close>

lemma lag_first:
  "lag_runs wait (lag_at rot_A ''A'' rot_A, []) (lag_at rot_B ''B'' rot_AB, [])"
proof -
  note S = rot_reach.step
  have 1: "lag_run wait (lag_at rot_A ''A'' rot_A, []) (lag_at rot_AB ''A'' rot_A, [])" by (rule lag_rotate) simp_all
  have 2: "lag_run wait (lag_at rot_AB ''A'' rot_A, []) (lag_at rot_AB ''A'' rot_AB, [])" by (rule lag_sync)
  have 3: "lag_run wait (lag_at rot_AB ''A'' rot_AB, []) (lag_at rot_AB ''B'' rot_AB, [])" by (rule lag_replay) simp_all
  have 4: "lag_run wait (lag_at rot_AB ''B'' rot_AB, []) (lag_at rot_AB ''B'' rot_AB, [bed_secret rot_AB])" by (rule lag_heartbeat) simp_all
  have 5: "lag_run wait (lag_at rot_AB ''B'' rot_AB, [bed_secret rot_AB]) (lag_at rot_B ''B'' rot_AB, [])"
    using lag_withdraw [OF refl, where data = rot_AB and c = rot_AB and fl = "[]"] by simp
  show ?thesis by (rule S [OF S [OF S [OF S [OF S [OF rot_reach.start 1] 2] 3] 4] 5])
qed

text \<open>One more heartbeat, validated against the old copy, after the withdrawal.\<close>

lemma lag_late_heartbeat:
  "lag_run wait (lag_at data ''B'' rot_AB, []) (lag_at data ''B'' rot_AB, [bed_secret rot_AB])"
  "lag_run wait (lag_at data ''B'' rot_AB, [bed_secret rot_AB]) (lag_at (data(''previousToken'' := None)) ''B'' rot_AB, [])"
  by (rule lag_heartbeat; simp) (rule lag_withdraw [OF refl])

lemma lag_second:
  "lag_runs True (lag_at rot_A ''A'' rot_A, []) (lag_at rot_BC ''B'' rot_B, [])"
proof -
  note S = rot_reach.step
  have 1: "lag_run True (lag_at rot_B ''B'' rot_AB, [bed_secret rot_AB]) (lag_at rot_B ''B'' rot_AB, [])"
    using lag_late_heartbeat(2) [where data = rot_B] by simp
  have 2: "lag_run True (lag_at rot_B ''B'' rot_B, []) (lag_at rot_BC ''B'' rot_B, [])" by (rule lag_rotate) simp_all
  show ?thesis by (rule S [OF S [OF S [OF S [OF lag_first lag_late_heartbeat(1)] 1] lag_sync] 2])
qed

theorem device_never_locked_out_witness:
  "check_token [''token'' \<mapsto> ''C'', ''previousToken'' \<mapsto> ''B''] ''token'' ''B'' \<noteq> tokenNoMatch"
  using device_never_locked_out [OF lagE_env rot_refs lag_second]
  by (simp add: check_token_def)

text \<open>
  Without the condition on the cache the device is locked out: the next rotation starts when nothing is
  under way and the stored Secret shows no previous token, but a heartbeat is then validated against the
  old copy, and the withdrawal removes the previous token of that next rotation.
\<close>

lemma stale_copy_locks_out:
  "lag_runs False (lag_at rot_A ''A'' rot_A, []) (lag_at [''token'' \<mapsto> ''C''] ''B'' rot_AB, []) \<and>
   check_token [''token'' \<mapsto> ''C''] ''token'' ''B'' = tokenNoMatch"
proof -
  note S = rot_reach.step
  have 1: "lag_run False (lag_at rot_B ''B'' rot_AB, []) (lag_at rot_BC ''B'' rot_AB, [])" by (rule lag_rotate) simp_all
  have 2: "lag_run False (lag_at rot_BC ''B'' rot_AB, [bed_secret rot_AB]) (lag_at [''token'' \<mapsto> ''C''] ''B'' rot_AB, [])"
    using lag_late_heartbeat(2) [where data = rot_BC] by simp
  have "lag_runs False (lag_at rot_A ''A'' rot_A, []) (lag_at [''token'' \<mapsto> ''C''] ''B'' rot_AB, [])"
    by (rule S [OF S [OF S [OF lag_first 1] lag_late_heartbeat(1)] 2])
  then show ?thesis by (simp add: check_token_def)
qed

text \<open>The rotation from \<open>A\<close> to \<open>B\<close> up to the confirmation, with reads that are current.\<close>

abbreviation "rot_runs \<equiv> rot_reach rot_view rotE rot_srv bed_node rot_key"

lemma rot_confirmed:
  "rot_runs wait (rot_at [''token'' \<mapsto> ''A''] ''A'', []) (rot_at rot_AB ''B'', [bed_secret rot_AB])"
proof -
  have 1: "rot_run wait (rot_at [''token'' \<mapsto> ''A''] ''A'', []) (rot_at rot_AB ''A'', [])" by (rule rot_rotate) simp_all
  have 2: "rot_run wait (rot_at rot_AB ''A'', []) (rot_at rot_AB ''B'', [])" by (rule rot_replay) simp_all
  have 3: "rot_run wait (rot_at rot_AB ''B'', []) (rot_at rot_AB ''B'', [bed_secret rot_AB])" by (rule rot_heartbeat) simp_all
  show ?thesis by (rule rot_reach.step [OF rot_reach.step [OF rot_reach.step [OF rot_reach.start 1] 2] 3])
qed

text \<open>
  C39: A rotation that is started while a heartbeat handler has yet to withdraw the previous token of the
  last one can lock the device out, even if the operator always keeps the old token as the previous one:
  the withdrawal is a patch without a lock, computed from a Secret read before. If a second heartbeat with
  the new token is handled while the first withdraws the previous one, and the operator starts the next
  rotation in between, then the late withdrawal removes the previous token of that next rotation, and the
  server no longer accepts the token the device still holds.
\<close>

theorem late_withdrawal_locks_out:
  "rot_reach rot_view rotE rot_srv bed_node rot_key False (rot_at [''token'' \<mapsto> ''A''] ''A'', [])
     (rot_at [''token'' \<mapsto> ''C''] ''B'', []) \<and>
   check_token (data_of rot_view (rot_at [''token'' \<mapsto> ''A''] ''A'')) ''token'' ''A'' = tokenMatchCurrent \<and>
   check_token (data_of rot_view (rot_at [''token'' \<mapsto> ''C''] ''B'')) ''token'' ''B'' = tokenNoMatch"
proof -
  let ?s = "bed_secret rot_AB" and ?d = "[''token'' \<mapsto> ''C'', ''previousToken'' \<mapsto> ''B'']"
  have 1: "rot_run False (rot_at rot_AB ''B'', [?s]) (rot_at rot_AB ''B'', [?s, ?s])" by (rule rot_heartbeat) simp_all
  have 2: "rot_run False (rot_at rot_AB ''B'', [?s, ?s]) (rot_at [''token'' \<mapsto> ''B''] ''B'', [?s])"
    using rot_withdraw [OF refl, where data = rot_AB and device = "''B''" and fl = "[?s]"] by simp
  have 3: "rot_run False (rot_at [''token'' \<mapsto> ''B''] ''B'', [?s]) (rot_at ?d ''B'', [?s])" by (rule rot_rotate) simp_all
  have 4: "rot_run False (rot_at ?d ''B'', [?s]) (rot_at [''token'' \<mapsto> ''C''] ''B'', [])"
    using rot_withdraw [OF refl, where data = ?d and device = "''B''" and fl = "[]"] by simp
  have "rot_runs False (rot_at [''token'' \<mapsto> ''A''] ''A'', []) (rot_at [''token'' \<mapsto> ''C''] ''B'', [])"
    by (rule rot_reach.step [OF rot_reach.step [OF rot_reach.step [OF rot_reach.step [OF rot_confirmed 1] 2] 3] 4])
  then show ?thesis by (simp add: check_token_def)
qed

section \<open>Progress\<close>

text \<open>Nothing is lost: reads are current, reads and patches succeed, and the device gets and answers the request.\<close>

definition rot_delivers :: "'w rot_view \<Rightarrow> 'w ext \<Rightarrow> obj_key \<Rightarrow> string \<Rightarrow> bool" where
  "rot_delivers V E key addr \<longleftrightarrow>
     (\<forall>m u. hNewRequest E m u = None) \<and>
     (\<forall>w. \<exists>w'. kGetSecret E key w = (Inr (rv_secret V w), w')) \<and>
     (\<forall>new w r w'. hDo E (token_request addr (rv_device V w) new) w = (r, w') \<longrightarrow> rv_device V w' = new) \<and>
     (\<forall>base x w r w'. kPatchSecret E base x w = (r, w') \<longrightarrow> data_of V w' = merge_data base x (rv_secret V w))"

text \<open>
  C21: A rotation comes to its end: if nothing is lost and reads are current, one run of the reconciler gives the device the new
  token, the next heartbeat of the device is accepted under it, and its withdrawal removes the previous
  token and nothing else.
\<close>

theorem rotation_completes:
  assumes "rot_env V E key" "rot_delivers V E key (nst_IP (n_Status node))"
    and "token_secret_key node (ns_TokenRef (n_Spec node)) = key" "resolveTokenSecret srv node = (key, ''token'')"
    and "sr_Name (ns_TokenRef (n_Spec node)) \<noteq> ''''"
    and "data_of V (world s0) ''token'' = Some new" "trimSpace new \<noteq> ''''"
    and "data_of V (world s0) ''previousToken'' = Some prev" "trimSpace prev = rv_device V (world s0)" "rv_device V (world s0) \<noteq> ''''"
    and "run_state (reconcileTokenRotation E rec node) s0 = (err, s1)"
    and "run_state (validateToken E srv (''Bearer '' @ rv_device V (world s1)) node) s1 = (m, s2)"
    and "run_state (clearPreviousToken E (the (snd m))) s2 = (u, s3)"
  shows "fst m = tokenMatchCurrent \<and> rv_device V (world s3) = trimSpace new \<and>
    data_of V (world s3) = (data_of V (world s0))(''previousToken'' := None)"
proof -
  obtain sec w1 where g: "kGetSecret E key (world s0) = (Inr sec, w1)" and sec: "sec = rv_secret V (world s0)"
    using assms(2) unfolding rot_delivers_def by blast
  note e = rot_envD [OF assms(1)]
  from e(1) [OF g] have w1: "rv_device V w1 = rv_device V (world s0)"
    by (auto simp: same_rotation_def)
  let ?q = "token_request (nst_IP (n_Status node)) (trimSpace prev) (trimSpace new)"
  have mg: "mget (sec_Data sec) ''token'' = new" "mget (sec_Data sec) ''previousToken'' = prev"
    using assms(6,8) by (simp_all add: sec data_of_def mget_def)
  obtain h w' where h: "hDo E ?q w1 = (h, w')" by (cases "hDo E ?q w1")
  have nr: "hNewRequest E mt ur = None" for mt ur using assms(2) by (simp add: rot_delivers_def)
  have prev: "trimSpace prev \<noteq> ''''" using assms(9,10) by simp
  have "world s1 = w'"
  proof -
    have "wp (reconcileTokenRotation E rec node) (\<lambda>_ t. world t = w') s0"
      using assms(3,5,7) prev h g
      by (cases h) (auto simp: reconcileTokenRotation_def Let_def wp_simps mg RotateToken_def agent_do_def doWith_def nr
          record_event_def token_request_def)
    from wpD [OF this assms(11)] show ?thesis .
  qed
  with h have "hDo E ?q w1 = (h, world s1)" by simp
  then have "hDo E (token_request (nst_IP (n_Status node)) (rv_device V w1) (trimSpace new)) w1 = (h, world s1)"
    using assms(9) by (simp add: w1)
  then have dev: "rv_device V (world s1) = trimSpace new"
    using assms(2) unfolding rot_delivers_def by blast
  have same: "rv_secret V (world s1) = rv_secret V (world s0)"
    using replay_effect [OF assms(1,3,11)] by simp
  obtain sec2 w2 where g2: "kGetSecret E key (world s1) = (Inr sec2, w2)" and "sec2 = rv_secret V (world s1)"
    using assms(2) unfolding rot_delivers_def by blast
  then have sec2: "sec2 = rv_secret V (world s0)" using same by simp
  have "check_token (sec_Data sec2) ''token'' (trimSpace new) = tokenMatchCurrent"
    using assms(6) by (simp add: sec2 check_token_def data_of_def)
  with assms(4,12) g2 dev have m: "m = (tokenMatchCurrent, Some sec2)" "world s2 = w2"
    by (auto simp: validateToken_def ext_call_def hasPrefix_def trimPrefix_def split: if_splits)
  have w2: "rv_secret V w2 = rv_secret V (world s0)" "rv_device V w2 = trimSpace new"
    using e(1) [OF g2] same dev by (simp_all add: same_rotation_def)
  let ?x = "sec2\<lparr>sec_Data := (sec_Data sec2)(''previousToken'' := None)\<rparr>"
  obtain r where p: "kPatchSecret E sec2 ?x w2 = (r, world s3)"
    using assms(13) m by (auto simp: clearPreviousToken_def ext_call_def split: prod.splits)
  have "data_of V (world s3) = merge_data sec2 ?x (rv_secret V w2)"
    using assms(2) p unfolding rot_delivers_def by blast
  also have "\<dots> = (data_of V (world s0))(''previousToken'' := None)"
    by (auto simp: merge_data_def sec2 w2 data_of_def fun_eq_iff)
  finally show ?thesis using m e(3) [OF p] w2 by simp
qed

lemma rotE_delivers: "rot_delivers rot_view rotE rot_key (nst_IP (n_Status bed_node))"
  unfolding rot_delivers_def
  by (auto simp: rot_view_def data_of_def bed_node_def rot_device_def token_request_def agent_request_def split: if_splits)

theorem rotation_completes_witness:
  "\<exists>(m :: tokenMatch \<times> secret option) (s3 :: rot_world sys). fst m = tokenMatchCurrent \<and> rv_device rot_view (world s3) = trimSpace ''B'' \<and>
     data_of rot_view (world s3) = (data_of rot_view (rot_at rot_AB ''A''))(''previousToken'' := None)"
proof -
  obtain err s1 where 1: "run_state (reconcileTokenRotation rotE False bed_node) (bed_sys (rot_at rot_AB ''A'')) = (err, s1)"
    by fastforce
  obtain m s2 where 2: "run_state (validateToken rotE rot_srv (''Bearer '' @ rv_device rot_view (world s1)) bed_node) s1 = (m, s2)"
    by fastforce
  obtain u s3 where 3: "run_state (clearPreviousToken rotE (the (snd m))) s2 = (u, s3)"
    by (cases "run_state (clearPreviousToken rotE (the (snd m))) s2")
  have "sr_Name (ns_TokenRef (n_Spec bed_node)) \<noteq> ''''" by (simp add: bed_node_def)
  from rotation_completes [OF rotE_env rotE_delivers rot_refs this _ _ _ _ _ 1 2 3, where new = "''B''" and prev = "''A''"]
  have "fst m = tokenMatchCurrent \<and> rv_device rot_view (world s3) = trimSpace ''B'' \<and>
     data_of rot_view (world s3) = (data_of rot_view (rot_at rot_AB ''A''))(''previousToken'' := None)"
    unfolding bed_sys_sel rot_data rot_trim by simp
  then show ?thesis by blast
qed

end
