(* ===== verification/Fleet.thy ===== *)
theory Fleet
  imports DeploymentSpec NodeSpec
begin

text \<open>
  The stored nodes and those who write them. The heartbeat server, the node controller and the deployment
  controller patch the status of the same objects, with runs that overlap: \<open>fleet_run\<close> interleaves their
  accepted patches one by one, whatever each of them read before, with creation, deletion and edits by
  users. Its abstract specification is a register for each node that holds what the device last reported.
\<close>

section \<open>Merge patches\<close>

text \<open>
  What the API server makes of a merge patch: the fields in which the object sent differs from its base
  replace those of the stored status, whatever it has become.
\<close>

definition merged :: "(mcunode_status \<Rightarrow> 'a) \<Rightarrow> mcunode_status \<Rightarrow> mcunode_status \<Rightarrow> mcunode_status \<Rightarrow> 'a" where
  "merged f b n cur = (if f n = f b then f cur else f n)"

definition merge_status :: "mcunode_status \<Rightarrow> mcunode_status \<Rightarrow> mcunode_status \<Rightarrow> mcunode_status" where
  "merge_status b n cur = \<lparr>
     nst_IP = merged nst_IP b n cur, nst_State = merged nst_State b n cur,
     nst_FirmwareName = merged nst_FirmwareName b n cur, nst_FirmwareVersion = merged nst_FirmwareVersion b n cur,
     nst_FirmwareDigest = merged nst_FirmwareDigest b n cur, nst_DeploymentID = merged nst_DeploymentID b n cur,
     nst_OtaValidated = merged nst_OtaValidated b n cur, nst_HeapFree = merged nst_HeapFree b n cur,
     nst_RSSI = merged nst_RSSI b n cur, nst_UptimeMs = merged nst_UptimeMs b n cur,
     nst_ConfigGeneration = merged nst_ConfigGeneration b n cur, nst_TempCelsius = merged nst_TempCelsius b n cur,
     nst_TaskHwmMin = merged nst_TaskHwmMin b n cur, nst_Chip = merged nst_Chip b n cur,
     nst_IDFVersion = merged nst_IDFVersion b n cur, nst_FlashSize = merged nst_FlashSize b n cur,
     nst_RAMSize = merged nst_RAMSize b n cur, nst_AppPort = merged nst_AppPort b n cur,
     nst_ApiVersion = merged nst_ApiVersion b n cur, nst_TLSCertDigest = merged nst_TLSCertDigest b n cur,
     nst_LastRebootRequested = merged nst_LastRebootRequested b n cur, nst_Ready = merged nst_Ready b n cur,
     nst_LastHeartbeat = merged nst_LastHeartbeat b n cur, nst_Conditions = merged nst_Conditions b n cur\<rparr>"

lemma merge_keeps_reports:
  "heartbeat_fields n = heartbeat_fields b \<Longrightarrow> heartbeat_fields (merge_status b n cur) = heartbeat_fields cur"
  by (simp add: heartbeat_fields_def merge_status_def merged_def)

text \<open>A node patch is locked, or leaves what the device reported as it is stored by then.\<close>

definition no_lost_report :: "call \<times> bool \<Rightarrow> bool" where
  "no_lost_report c \<longleftrightarrow> (\<forall>lock b n. fst c = CPatchNodeStatus lock b n \<longrightarrow> lock \<or>
     (\<forall>cur. heartbeat_fields (merge_status (n_Status b) (n_Status n) cur) = heartbeat_fields cur))"

lemma no_lost_report_simps [simp]:
  "no_lost_report (CPatchNodeStatus True b n, ok)"
  "heartbeat_fields (n_Status n) = heartbeat_fields (n_Status b) \<Longrightarrow> no_lost_report (CPatchNodeStatus lock b n, ok)"
  "no_lost_report (CGetNode k, ok)" "no_lost_report (CGetSlice k, ok)" "no_lost_report (CGetService k, ok)"
  "no_lost_report (CCreateService sv, ok)" "no_lost_report (CPatchService sv sv', ok)" "no_lost_report (CGetSecret k, ok)"
  "no_lost_report (CHttp q, ok)" "no_lost_report (CEvent k ty reason msg, ok)" "no_lost_report (CCreateSlice x, ok)"
  "no_lost_report (CPatchSlice x x', ok)" "no_lost_report (CTime, ok)" "no_lost_report (CMetrics m, ok)"
  "no_lost_report (CUpdateNode n', ok)" "no_lost_report (CPatchSecret sc sc', ok)" "no_lost_report (CListNodes ns, ok)"
  "no_lost_report (CWsClose code reason, ok)" "no_lost_report (CLog a1 a2 a3 a4 a5, ok)"
  "no_lost_report (CServerLog a1 a2 a3, ok)" "no_lost_report (CGetDeployment k, ok)"
  by (auto simp: no_lost_report_def merge_keeps_reports)

lemma agent_call_no_lost_report: "agent_call m p c k \<Longrightarrow> no_lost_report (k, b)"
  by (auto simp: agent_call_def)

lemma heartbeat_fields_core [simp]:
  "heartbeat_fields (st\<lparr>nst_TLSCertDigest := x\<rparr>) = heartbeat_fields st"
  "heartbeat_fields (st\<lparr>nst_LastRebootRequested := x\<rparr>) = heartbeat_fields st"
  by (simp_all add: heartbeat_fields_def)

lemma emits_device_no_lost_report: "emits no_lost_report (reconcile_device E rec node)"
proof -
  have rot: "emits no_lost_report (reconcileTokenRotation E rec node)" for node
    unfolding reconcileTokenRotation_def by (intro emits_intros emits_record_event) simp_all
  have tls: "emits no_lost_report (reconcileTLSCert E rec node)" for node
    unfolding reconcileTLSCert_def push_tls_def
    by (intro emits_intros emits_record_event emits_currentToken) (auto intro: agent_call_no_lost_report)
  have reboot: "emits no_lost_report (reconcileRebootRequest E rec node)" for node
    unfolding reconcileRebootRequest_def
    by (intro emits_intros emits_record_event emits_currentToken) (auto intro: agent_call_no_lost_report)
  show ?thesis
    unfolding reconcile_device_def reconcileService_def reconcileEndpointSlice_def
    by (intro emits_intros rot tls reboot) simp_all
qed

lemma emits_live_no_lost_report: "emits no_lost_report (reconcile_live E rec node)"
  unfolding reconcile_live_def heartbeat_expired_def
  by (intro emits_intros emits_device_no_lost_report) simp_all

text \<open>
  No writer undoes what another has recorded of a device: whichever component patches a node status,
  either the patch holds the optimistic lock, or it leaves all fourteen reported fields as they are stored
  when it is applied, whatever heartbeats came in since its base was read.
\<close>

lemma reports_never_overwritten:
  assumes "retry_law E"
  shows "emits no_lost_report (Reconcile_node E rec nkey) \<and> emits no_lost_report (Reconcile_deployment E R dkey) \<and>
    emits no_lost_report (hb_Handler E srv path r upgrade)"
proof (intro conjI)
  show "emits no_lost_report (Reconcile_node E rec nkey)"
    unfolding Reconcile_node_def
    by (intro emits_intros) (auto split: prod.splits bool.splits
        intro!: emits_live_no_lost_report emits_bind emits_ext_call emits_return emits_case_sum)
  have "no_lost_report c" if "legal E p c" for p c
    using that by (cases c, cases "fst c") (auto simp: no_lost_report_def merge_keeps_reports)
  then have "emits no_lost_report (dispatch E R dep)" for dep
    by (intro emits_mono [OF dispatcher.handler_legal]) auto
  then show "emits no_lost_report (Reconcile_deployment E R dkey)"
    unfolding Reconcile_deployment_def by (intro emits_intros) simp_all
  have "emits no_lost_report (hb_attempt E hb ip t k)" for hb ip t k
    unfolding hb_attempt_def by (intro emits_intros) simp_all
  then have "emits no_lost_report (store_heartbeat E srv r hb node)" for hb node
    unfolding store_heartbeat_def by (intro emits_intros emits_retry [OF assms]) simp_all
  then have "emits no_lost_report (handleHeartbeat E srv r)"
    unfolding handleHeartbeat_def accept_heartbeat_def clearPreviousToken_def
    by (intro emits_intros emits_findNode emits_validateToken) (simp_all split: prod.splits)
  then show "emits no_lost_report (hb_Handler E srv path r upgrade)"
    unfolding hb_Handler_def handleLog_def handleLogWS_def
    by (intro emits_intros emits_handleLogPost emits_ws_logs) simp_all
qed


section \<open>What a device reported\<close>

text \<open>
  The part of a status that comes from the device, and the register it is compared with: what it holds
  after a heartbeat. A temperature of -127 means that the device has no sensor and leaves the field.
\<close>

record device_report =
  rp_State :: string
  rp_IP :: string
  rp_FirmwareDigest :: string
  rp_DeploymentID :: string
  rp_OtaValidated :: bool
  rp_HeapFree :: int
  rp_RSSI :: int
  rp_UptimeMs :: int
  rp_ConfigGeneration :: int
  rp_TempCelsius :: f64
  rp_TaskHwmMin :: int
  rp_LastHeartbeat :: "int option"

definition device_view :: "mcunode_status \<Rightarrow> device_report" where
  "device_view st = \<lparr>rp_State = nst_State st, rp_IP = nst_IP st, rp_FirmwareDigest = nst_FirmwareDigest st,
     rp_DeploymentID = nst_DeploymentID st, rp_OtaValidated = nst_OtaValidated st, rp_HeapFree = nst_HeapFree st,
     rp_RSSI = nst_RSSI st, rp_UptimeMs = nst_UptimeMs st, rp_ConfigGeneration = nst_ConfigGeneration st,
     rp_TempCelsius = nst_TempCelsius st, rp_TaskHwmMin = nst_TaskHwmMin st, rp_LastHeartbeat = nst_LastHeartbeat st\<rparr>"

definition no_report :: device_report where
  "no_report = \<lparr>rp_State = '''', rp_IP = '''', rp_FirmwareDigest = '''', rp_DeploymentID = '''', rp_OtaValidated = False,
     rp_HeapFree = 0, rp_RSSI = 0, rp_UptimeMs = 0, rp_ConfigGeneration = 0, rp_TempCelsius = 0, rp_TaskHwmMin = 0,
     rp_LastHeartbeat = None\<rparr>"

definition report_heartbeat :: "heartbeat_payload \<Rightarrow> string \<Rightarrow> int \<Rightarrow> device_report \<Rightarrow> device_report" where
  "report_heartbeat hb ip t old = \<lparr>rp_State = hp_State hb, rp_IP = ip, rp_FirmwareDigest = hp_FirmwareDigest hb,
     rp_DeploymentID = hp_DeploymentID hb, rp_OtaValidated = hp_OtaValidated hb, rp_HeapFree = hp_HeapFree hb,
     rp_RSSI = hp_RSSI hb, rp_UptimeMs = hp_UptimeMs hb, rp_ConfigGeneration = hp_ConfigGeneration hb,
     rp_TempCelsius = (if hp_TempCelsius hb = f64_minus_127 then rp_TempCelsius old else hp_TempCelsius hb),
     rp_TaskHwmMin = hp_TaskHwmMin hb, rp_LastHeartbeat = Some t\<rparr>"

text \<open>
  A history of the fleet, newest first, and the register of each node. Everything but an accepted
  heartbeat and the creation of the node is internal and leaves the register as it is.
\<close>

datatype fleet_event =
    FCreated obj_key
  | FHeartbeat obj_key heartbeat_payload string int
  | FInternal

fun register :: "fleet_event list \<Rightarrow> obj_key \<Rightarrow> device_report" where
  "register [] k = no_report"
| "register (FCreated k' # tr) k = (if k' = k then no_report else register tr k)"
| "register (FHeartbeat k' hb ip t # tr) k =
     (if k' = k then report_heartbeat hb ip t (register tr k) else register tr k)"
| "register (FInternal # tr) k = register tr k"

text \<open>
  A status that tracks a register: the register, or the register of a device that is offline; and a node
  is ready only if it shows a running, validated image as it was reported.
\<close>

definition tracks :: "device_report \<Rightarrow> mcunode_status \<Rightarrow> bool" where
  "tracks rp st \<longleftrightarrow> device_view st \<in> {rp, rp\<lparr>rp_State := ''offline''\<rparr>} \<and>
     (nst_Ready st \<longrightarrow> device_view st = rp \<and> rp_State rp = ''running'' \<and> rp_OtaValidated rp)"

lemma device_view_fields:
  "heartbeat_fields st = heartbeat_fields st' \<Longrightarrow> device_view st = device_view st' \<and> nst_Ready st = nst_Ready st'"
  by (simp add: heartbeat_fields_def device_view_def)

lemma tracks_fields: "heartbeat_fields st' = heartbeat_fields st \<Longrightarrow> tracks rp st \<Longrightarrow> tracks rp st'"
  unfolding tracks_def by (drule device_view_fields) simp

lemma device_view_apply: "device_view (apply_heartbeat E hb ip t st) = report_heartbeat hb ip t (device_view st)"
  by (simp add: device_view_def apply_heartbeat_def report_heartbeat_def Let_def)

lemma apply_heartbeat_ready: "nst_Ready (apply_heartbeat E hb ip t st) \<longleftrightarrow> hb_ready hb"
  by (simp add: apply_heartbeat_def Let_def)

lemma apply_heartbeat_time: "nst_LastHeartbeat (apply_heartbeat E hb ip t st) = Some t"
  by (simp add: apply_heartbeat_def Let_def)

lemma report_heartbeat_state [simp]: "report_heartbeat hb ip t (rp\<lparr>rp_State := x\<rparr>) = report_heartbeat hb ip t rp"
  by (simp add: report_heartbeat_def)

lemma tracks_heartbeat: "tracks rp st \<Longrightarrow> tracks (report_heartbeat hb ip t rp) (apply_heartbeat E hb ip t st)"
  by (auto simp: tracks_def device_view_apply apply_heartbeat_ready hb_ready_def)
    (simp_all add: report_heartbeat_def)

lemma device_view_expired:
  "device_view (node_status_update E ex st) =
     (if ex \<and> nst_LastHeartbeat st \<noteq> None then (device_view st)\<lparr>rp_State := ''offline''\<rparr> else device_view st)"
  by (simp add: device_view_def node_status_update_def Let_def)

lemma device_view_sel:
  "rp_State (device_view st) = nst_State st" "rp_OtaValidated (device_view st) = nst_OtaValidated st"
  by (simp_all add: device_view_def)

lemma tracks_expired:
  assumes "tracks rp st"
  shows "tracks rp (node_status_update E ex st)"
proof -
  have "device_view st \<noteq> rp \<Longrightarrow> nst_State st = ''offline''"
    using assms by (auto simp: tracks_def simp flip: device_view_sel)
  with assms show ?thesis
    by (auto simp: tracks_def device_view_expired node_status_update_facts simp flip: device_view_sel)
qed

lemma merge_current: "merge_status b n b = n"
  by (simp add: merge_status_def merged_def)

section \<open>What each writer patches\<close>

text \<open>The node controller: the readiness it derives, under the lock, or nothing a device reports.\<close>

definition loop_patch :: "'w ext \<Rightarrow> call \<times> bool \<Rightarrow> bool" where
  "loop_patch E c \<longleftrightarrow> (\<forall>lock b n. fst c = CPatchNodeStatus lock b n \<longrightarrow>
     heartbeat_fields (n_Status n) = heartbeat_fields (n_Status b) \<or>
     lock \<and> (\<exists>ex. n = upd_nstatus (node_status_update E ex) b))"

lemma loop_patch_simps [simp]:
  "loop_patch E (CPatchNodeStatus True b (upd_nstatus (node_status_update E ex) b), ok)"
  "heartbeat_fields (n_Status n) = heartbeat_fields (n_Status b) \<Longrightarrow> loop_patch E (CPatchNodeStatus lock b n, ok)"
  "loop_patch E (CGetNode k, ok)" "loop_patch E (CGetSlice k, ok)" "loop_patch E (CGetService k, ok)"
  "loop_patch E (CCreateService sv, ok)" "loop_patch E (CPatchService sv sv', ok)" "loop_patch E (CGetSecret k, ok)"
  "loop_patch E (CHttp q, ok)" "loop_patch E (CEvent k ty reason msg, ok)" "loop_patch E (CCreateSlice x, ok)"
  "loop_patch E (CPatchSlice x x', ok)" "loop_patch E (CTime, ok)" "loop_patch E (CMetrics m, ok)"
  "loop_patch E (CUpdateNode n', ok)"
  by (auto simp: loop_patch_def)

lemma agent_call_loop_patch: "agent_call m p c k \<Longrightarrow> loop_patch E (k, b)"
  by (auto simp: agent_call_def)

lemma emits_device_loop_patch: "emits (loop_patch E) (reconcile_device E rec node)"
proof -
  have rot: "emits (loop_patch E) (reconcileTokenRotation E rec node)" for node
    unfolding reconcileTokenRotation_def by (intro emits_intros emits_record_event) simp_all
  have tls: "emits (loop_patch E) (reconcileTLSCert E rec node)" for node
    unfolding reconcileTLSCert_def push_tls_def
    by (intro emits_intros emits_record_event emits_currentToken) (auto intro: agent_call_loop_patch)
  have reboot: "emits (loop_patch E) (reconcileRebootRequest E rec node)" for node
    unfolding reconcileRebootRequest_def
    by (intro emits_intros emits_record_event emits_currentToken) (auto intro: agent_call_loop_patch)
  show ?thesis
    unfolding reconcile_device_def reconcileService_def reconcileEndpointSlice_def
    by (intro emits_intros rot tls reboot) simp_all
qed

lemma emits_loop_patch: "emits (loop_patch E) (Reconcile_node E rec key)"
proof -
  have "emits (loop_patch E) (reconcile_live E rec node)" for node
    unfolding reconcile_live_def heartbeat_expired_def by (intro emits_intros emits_device_loop_patch) simp_all
  then show ?thesis
    unfolding Reconcile_node_def
    by (intro emits_intros) (auto split: prod.splits bool.splits intro!: emits_bind emits_ext_call emits_return emits_case_sum)
qed

text \<open>The deployment controller: nothing a device reports.\<close>

definition keeps_report :: "call \<times> bool \<Rightarrow> bool" where
  "keeps_report c \<longleftrightarrow> (\<forall>lock b n. fst c = CPatchNodeStatus lock b n \<longrightarrow>
     heartbeat_fields (n_Status n) = heartbeat_fields (n_Status b))"

lemma emits_keeps_report: "emits keeps_report (Reconcile_deployment E R key)"
proof -
  have "keeps_report c" if "legal E p c" for p c
    using that by (cases c, cases "fst c") (auto simp: keeps_report_def)
  then have "emits keeps_report (dispatch E R dep)" for dep
    by (intro emits_mono [OF dispatcher.handler_legal]) auto
  then show ?thesis
    unfolding Reconcile_deployment_def by (intro emits_intros) (simp_all add: keeps_report_def)
qed

text \<open>
  The heartbeat server: the heartbeat of a request, with the address of the payload or else of the peer,
  on the node that the heartbeat names and whose token the request carried.
\<close>

definition source_ip :: "server_request \<Rightarrow> heartbeat_payload \<Rightarrow> string" where
  "source_ip r hb = (if hp_IP hb = '''' then tcp_ip r else hp_IP hb)"

definition own_report ::
  "'w ext \<Rightarrow> hb_server \<Rightarrow> server_request \<Rightarrow> 'w sys \<Rightarrow> heartbeat_payload \<Rightarrow> bool \<Rightarrow> mcunode \<Rightarrow> mcunode \<Rightarrow> bool" where
  "own_report E srv r s hb lock b n \<longleftrightarrow>
     jHeartbeat E (fst (readAllLimited 4096 (sq_Body r))) = Inr hb \<and> hp_State hb \<in> set validNodeStates \<and>
     (\<exists>node u m secret. run_state (findNode E srv (hp_NodeID hb)) s = (Inr node, u) \<and>
        auth_as E srv (sq_Authorization r) node (world u) m secret \<and> obj_key_of (n_Meta b) = obj_key_of (n_Meta node)) \<and>
     lock \<and> (\<exists>t. n = upd_nstatus (apply_heartbeat E hb (source_ip r hb) t) b)"

abbreviation server_patch :: "'w ext \<Rightarrow> hb_server \<Rightarrow> server_request \<Rightarrow> 'w sys \<Rightarrow> call \<times> bool \<Rightarrow> bool" where
  "server_patch E srv r s c \<equiv> \<forall>lock b n. fst c = CPatchNodeStatus lock b n \<longrightarrow> (\<exists>hb. own_report E srv r s hb lock b n)"

lemma emits_hb_attempt:
  assumes "get_law E" "\<And>k ok. P (CGetNode k, ok)"
    and patch: "\<And>b ok. obj_key_of (n_Meta b) = key \<Longrightarrow> P (CPatchNodeStatus True b (upd_nstatus (apply_heartbeat E hb ip t) b), ok)"
  shows "emits P (hb_attempt E hb ip t key)"
  unfolding hb_attempt_def
proof (rule emits_ext_bind)
  fix w r w' assume "kGetNode E key w = (r, w')"
  then have "obj_key_of (n_Meta n) = key" if "r = Inr n" for n using assms(1) that by (auto simp: get_law_def)
  then show "emits P (case r of Inl err \<Rightarrow> ret (Inl err)
      | Inr node \<Rightarrow> patchNodeStatus E True node (upd_nstatus (apply_heartbeat E hb ip t) node))"
    by (intro emits_intros patch)
qed (rule assms(2))

lemma handleHeartbeat_own:
  assumes "retry_law E" "get_law E"
  shows "adds (server_patch E srv r s) (handleHeartbeat E srv r) s"
proof (rule handleHeartbeat_adds)
  let ?P = "server_patch E srv r s"
  show "emits ?P (findNode E srv nodeID)" for nodeID by (intro emits_findNode) simp_all
  show "emits ?P (validateToken E srv (sq_Authorization r) node)" for node by (intro emits_validateToken) simp
  fix hb node u m secret
  assume a: "jHeartbeat E (fst (readAllLimited 4096 (sq_Body r))) = Inr hb"
    "run_state (findNode E srv (hp_NodeID hb)) s = (Inr node, u)"
    "auth_as E srv (sq_Authorization r) node (world u) m secret"
  have "own_report E srv r s hb True b (upd_nstatus (apply_heartbeat E hb (source_ip r hb) t) b)"
    if "hp_State hb \<in> set validNodeStates" "obj_key_of (n_Meta b) = obj_key_of (n_Meta node)" for b t
    using a that unfolding own_report_def by blast
  then have "emits ?P (hb_attempt E hb (source_ip r hb) t (obj_key_of (n_Meta node)))"
    if "hp_State hb \<in> set validNodeStates" for t
    using that by (intro emits_hb_attempt [OF assms(2)]) auto
  then have "emits ?P (store_heartbeat E srv r hb node)" if "hp_State hb \<in> set validNodeStates"
    using that unfolding store_heartbeat_def Let_def
    by (intro emits_intros emits_retry [OF assms(1)]) (simp_all add: source_ip_def)
  then show "emits ?P (accept_heartbeat E srv r hb node m secret)"
    unfolding accept_heartbeat_def clearPreviousToken_def by (intro emits_intros) simp_all
qed

lemma hb_Handler_own:
  assumes "retry_law E" "get_law E"
  shows "adds (server_patch E srv r s) (hb_Handler E srv path r upgrade) s"
proof (cases "path = ''/v1alpha1/heartbeat''")
  case True
  with handleHeartbeat_own [OF assms, of srv r s] show ?thesis by (simp add: hb_Handler_def adds_ret)
next
  case False
  then show ?thesis
    unfolding hb_Handler_def handleLog_def handleLogWS_def
    by (intro emits_adds emits_intros emits_handleLogPost emits_ws_logs) simp_all
qed

section \<open>Interleaved writers\<close>

text \<open>
  What the API server makes of a status patch is an argument: \<open>api lock base new current\<close> is the object
  stored next, or \<open>None\<close> if the patch is refused. It merges, and accepts a patch with the optimistic lock
  only if the base is the current object.
\<close>

type_synonym node_api = "bool \<Rightarrow> mcunode \<Rightarrow> mcunode \<Rightarrow> mcunode \<Rightarrow> mcunode option"

definition node_patch_law :: "node_api \<Rightarrow> bool" where
  "node_patch_law api \<longleftrightarrow> (\<forall>lock b n cur cur'. api lock b n cur = Some cur' \<longrightarrow>
     n_Status cur' = merge_status (n_Status b) (n_Status n) (n_Status cur) \<and>
     (lock \<longrightarrow> n_Status b = n_Status cur))"

text \<open>A patch that some run of \<open>m\<close> made and that was accepted.\<close>

definition patched_by :: "('w sys, 'a) state \<Rightarrow> bool \<Rightarrow> mcunode \<Rightarrow> mcunode \<Rightarrow> bool" where
  "patched_by m lock b n \<longleftrightarrow> (\<exists>s a t. run_state m s = (a, t) \<and>
     (CPatchNodeStatus lock b n, True) \<in> set (drop (length (calls s)) (calls t)))"

lemma patched_by_emits: "patched_by m lock b n \<Longrightarrow> emits P m \<Longrightarrow> P (CPatchNodeStatus lock b n, True)"
  by (auto simp: patched_by_def dest: emits_new)

text \<open>
  The contract of a writer: what it patches leaves the reported fields alone, or takes the register from
  what its base tracks to what the writer was told, under the lock. Such a writer keeps the stored status
  on track whatever happened between its read and its patch.
\<close>

locale status_writer =
  fixes patches :: "bool \<Rightarrow> mcunode \<Rightarrow> mcunode \<Rightarrow> bool" and told :: "device_report \<Rightarrow> device_report"
  assumes writes_on_track: "patches lock b n \<Longrightarrow>
    heartbeat_fields (n_Status n) = heartbeat_fields (n_Status b) \<and> (\<forall>rp. told rp = rp) \<or>
    lock \<and> (\<forall>rp. tracks rp (n_Status b) \<longrightarrow> tracks (told rp) (n_Status n))"
begin

lemma stays_on_track:
  assumes "patches lock b n" "node_patch_law api" "api lock b n cur = Some cur'" "tracks rp (n_Status cur)"
  shows "tracks (told rp) (n_Status cur')"
proof -
  note law = assms(2) [unfolded node_patch_law_def, rule_format, OF assms(3)]
  from writes_on_track [OF assms(1)] show ?thesis
  proof
    assume "heartbeat_fields (n_Status n) = heartbeat_fields (n_Status b) \<and> (\<forall>rp. told rp = rp)"
    with law assms(4) show ?thesis by (simp add: tracks_fields [OF merge_keeps_reports])
  next
    assume "lock \<and> (\<forall>rp. tracks rp (n_Status b) \<longrightarrow> tracks (told rp) (n_Status n))"
    with law assms(4) show ?thesis by (simp add: merge_current)
  qed
qed

end

interpretation node_loop: status_writer "patched_by (Reconcile_node E rec key)" "\<lambda>rp. rp" for E rec key
proof unfold_locales
  fix lock b n assume "patched_by (Reconcile_node E rec key) lock b n"
  from patched_by_emits [OF this emits_loop_patch]
  show "heartbeat_fields (n_Status n) = heartbeat_fields (n_Status b) \<and> (\<forall>rp. rp = (rp :: device_report)) \<or>
      lock \<and> (\<forall>rp. tracks rp (n_Status b) \<longrightarrow> tracks rp (n_Status n))"
    by (auto simp: loop_patch_def intro: tracks_expired)
qed

interpretation deployment_loop: status_writer "patched_by (Reconcile_deployment E R key)" "\<lambda>rp. rp" for E R key
proof unfold_locales
  fix lock b n assume "patched_by (Reconcile_deployment E R key) lock b n"
  from patched_by_emits [OF this emits_keeps_report]
  show "heartbeat_fields (n_Status n) = heartbeat_fields (n_Status b) \<and> (\<forall>rp. rp = (rp :: device_report)) \<or>
      lock \<and> (\<forall>rp. tracks rp (n_Status b) \<longrightarrow> tracks rp (n_Status n))"
    by (simp add: keeps_report_def)
qed

text \<open>The server, told a heartbeat at a time.\<close>

definition server_patches ::
  "'w ext \<Rightarrow> hb_server \<Rightarrow> heartbeat_payload \<Rightarrow> string \<Rightarrow> int \<Rightarrow> bool \<Rightarrow> mcunode \<Rightarrow> mcunode \<Rightarrow> bool" where
  "server_patches E srv hb ip at lock b n \<longleftrightarrow> retry_law E \<and> get_law E \<and>
     (\<exists>path r upgrade. patched_by (hb_Handler E srv path r upgrade) lock b n \<and>
        jHeartbeat E (fst (readAllLimited 4096 (sq_Body r))) = Inr hb \<and> ip = source_ip r hb) \<and>
     nst_LastHeartbeat (n_Status n) = Some at"

lemma server_patch_own:
  assumes "retry_law E" "get_law E" "patched_by (hb_Handler E srv path r upgrade) lock b n"
  shows "\<exists>s hb. own_report E srv r s hb lock b n"
  using assms(3) adds_new [OF hb_Handler_own [OF assms(1,2)]] unfolding patched_by_def by fastforce

interpretation server: status_writer "server_patches E srv hb ip at" "report_heartbeat hb ip at" for E srv hb ip at
proof unfold_locales
  fix lock b n assume p: "server_patches E srv hb ip at lock b n"
  then obtain path r upgrade where "patched_by (hb_Handler E srv path r upgrade) lock b n" and
    hb: "jHeartbeat E (fst (readAllLimited 4096 (sq_Body r))) = Inr hb" "ip = source_ip r hb"
    by (auto simp: server_patches_def)
  with server_patch_own p obtain s hb' where "own_report E srv r s hb' lock b n"
    unfolding server_patches_def by blast
  with hb obtain t where n: "lock" "n = upd_nstatus (apply_heartbeat E hb ip t) b"
    by (auto simp: own_report_def)
  then have "t = at" using p by (simp add: server_patches_def apply_heartbeat_time)
  with n show "heartbeat_fields (n_Status n) = heartbeat_fields (n_Status b) \<and> (\<forall>rp. report_heartbeat hb ip at rp = rp) \<or>
      lock \<and> (\<forall>rp. tracks rp (n_Status b) \<longrightarrow> tracks (report_heartbeat hb ip at rp) (n_Status n))"
    by (simp add: tracks_heartbeat)
qed

text \<open>
  The runs of the three writers overlap in any way: a step is one patch that the API server accepts, made
  by some run of one of them, from whatever state that run was in and whatever it had read. Users create,
  edit (the status is a subresource, which an edit does not touch) and delete nodes.
\<close>

inductive fleet_run ::
  "'w ext \<Rightarrow> hb_server \<Rightarrow> bool \<Rightarrow> dep_reconciler \<Rightarrow> node_api \<Rightarrow> fleet_event list \<Rightarrow> (obj_key \<rightharpoonup> mcunode) \<Rightarrow> bool"
  for E srv rec R api where
  fleet_start: "fleet_run E srv rec R api [] Map.empty"
| fleet_create: "fleet_run E srv rec R api tr \<sigma> \<Longrightarrow> \<sigma> k = None \<Longrightarrow>
    device_view (n_Status n) = no_report \<Longrightarrow> \<not> nst_Ready (n_Status n) \<Longrightarrow>
    fleet_run E srv rec R api (FCreated k # tr) (\<sigma>(k \<mapsto> n))"
| fleet_edit: "fleet_run E srv rec R api tr \<sigma> \<Longrightarrow> \<sigma> k = Some n \<Longrightarrow> n_Status n' = n_Status n \<Longrightarrow>
    fleet_run E srv rec R api (FInternal # tr) (\<sigma>(k \<mapsto> n'))"
| fleet_delete: "fleet_run E srv rec R api tr \<sigma> \<Longrightarrow> fleet_run E srv rec R api (FInternal # tr) (\<sigma>(k := None))"
| fleet_node: "fleet_run E srv rec R api tr \<sigma> \<Longrightarrow> patched_by (Reconcile_node E rec key) lock b n \<Longrightarrow>
    k = obj_key_of (n_Meta b) \<Longrightarrow> \<sigma> k = Some cur \<Longrightarrow> api lock b n cur = Some cur' \<Longrightarrow>
    fleet_run E srv rec R api (FInternal # tr) (\<sigma>(k \<mapsto> cur'))"
| fleet_deployment: "fleet_run E srv rec R api tr \<sigma> \<Longrightarrow> patched_by (Reconcile_deployment E R key) lock b n \<Longrightarrow>
    k = obj_key_of (n_Meta b) \<Longrightarrow> \<sigma> k = Some cur \<Longrightarrow> api lock b n cur = Some cur' \<Longrightarrow>
    fleet_run E srv rec R api (FInternal # tr) (\<sigma>(k \<mapsto> cur'))"
| fleet_heartbeat: "fleet_run E srv rec R api tr \<sigma> \<Longrightarrow> patched_by (hb_Handler E srv path r upgrade) lock b n \<Longrightarrow>
    k = obj_key_of (n_Meta b) \<Longrightarrow> \<sigma> k = Some cur \<Longrightarrow> api lock b n cur = Some cur' \<Longrightarrow>
    jHeartbeat E (fst (readAllLimited 4096 (sq_Body r))) = Inr hb \<Longrightarrow> nst_LastHeartbeat (n_Status n) = Some at \<Longrightarrow>
    fleet_run E srv rec R api (FHeartbeat k hb (source_ip r hb) at # tr) (\<sigma>(k \<mapsto> cur'))"

lemma tracks_new: "device_view st = no_report \<Longrightarrow> \<not> nst_Ready st \<Longrightarrow> tracks no_report st"
  by (simp add: tracks_def)

text \<open>The simulation: every stored status tracks the register of its node.\<close>

lemma fleet_run_tracks:
  assumes "fleet_run E srv rec R api tr \<sigma>" "retry_law E" "get_law E" "node_patch_law api"
  shows "\<forall>k n. \<sigma> k = Some n \<longrightarrow> tracks (register tr k) (n_Status n)"
  using assms(1)
proof (induction rule: fleet_run.induct)
  case (fleet_heartbeat tr \<sigma> path r upgrade lock b n k cur cur' hb at)
  then have "server_patches E srv hb (source_ip r hb) at lock b n"
    using assms(2,3) unfolding server_patches_def by blast
  from server.stays_on_track [OF this assms(4) fleet_heartbeat.hyps(5)] show ?case
    using fleet_heartbeat.IH fleet_heartbeat.hyps(4) by simp
next
  case (fleet_node tr \<sigma> key lock b n k cur cur')
  then show ?case using node_loop.stays_on_track [OF fleet_node.hyps(2) assms(4) fleet_node.hyps(5)] by simp
next
  case (fleet_deployment tr \<sigma> key lock b n k cur cur')
  then show ?case using deployment_loop.stays_on_track [OF fleet_deployment.hyps(2) assms(4) fleet_deployment.hyps(5)] by simp
qed (auto intro: tracks_new)

section \<open>What a register goes back to\<close>

lemma register_origin:
  "register tr k = no_report \<or> (\<exists>hb ip at old. FHeartbeat k hb ip at \<in> set tr \<and> register tr k = report_heartbeat hb ip at old)"
  by (induction tr k rule: register.induct) auto

text \<open>A stored node that shows a running image does so by the word of a heartbeat.\<close>

lemma fleet_run_running:
  assumes "fleet_run E srv rec R api tr \<sigma>" "retry_law E" "get_law E" "node_patch_law api" "\<sigma> k = Some n"
    and "nst_State (n_Status n) = ''running''"
  shows "\<exists>hb ip at. FHeartbeat k hb ip at \<in> set tr \<and> hp_State hb = ''running'' \<and>
    hp_OtaValidated hb = nst_OtaValidated (n_Status n) \<and> hp_DeploymentID hb = nst_DeploymentID (n_Status n)"
proof -
  have "tracks (register tr k) (n_Status n)" using fleet_run_tracks [OF assms(1-4)] assms(5) by blast
  then have "device_view (n_Status n) = register tr k \<or> nst_State (n_Status n) = ''offline''"
    by (auto simp: tracks_def simp flip: device_view_sel)
  with assms(6) have v: "device_view (n_Status n) = register tr k" by simp
  from v have "register tr k \<noteq> no_report" using assms(6) by (auto simp: device_view_def no_report_def)
  then obtain hb ip at old where "FHeartbeat k hb ip at \<in> set tr" "register tr k = report_heartbeat hb ip at old"
    using register_origin [of tr k] by blast
  with v assms(6) show ?thesis
    by (intro exI [of _ hb] exI [of _ ip] exI [of _ at]) (simp add: device_view_def report_heartbeat_def)
qed

text \<open>Every heartbeat of a history was authenticated as coming from its node.\<close>

lemma fleet_run_authentic:
  assumes "fleet_run E srv rec R api tr \<sigma>" "retry_law E" "get_law E" "FHeartbeat k hb ip at \<in> set tr"
  shows "\<exists>(req :: server_request) s node u m secret. jHeartbeat E (fst (readAllLimited 4096 (sq_Body req))) = Inr hb \<and>
    run_state (findNode E srv (hp_NodeID hb)) s = (Inr node, u) \<and>
    auth_as E srv (sq_Authorization req) node (world u) m secret \<and> obj_key_of (n_Meta node) = k"
  using assms(1,4)
proof (induction rule: fleet_run.induct)
  case (fleet_heartbeat tr \<sigma> path r upgrade lock b n k' cur cur' hb' at')
  show ?case
  proof (cases "FHeartbeat k hb ip at \<in> set tr")
    case False
    with fleet_heartbeat.prems have new: "k = k'" "hb = hb'" by auto
    from server_patch_own [OF assms(2,3) fleet_heartbeat.hyps(2)] fleet_heartbeat.hyps(6)
    obtain s node u m secret where "run_state (findNode E srv (hp_NodeID hb')) s = (Inr node, u)"
      "auth_as E srv (sq_Authorization r) node (world u) m secret" "obj_key_of (n_Meta b) = obj_key_of (n_Meta node)"
      unfolding own_report_def by auto
    with fleet_heartbeat.hyps(3,6) new have "jHeartbeat E (fst (readAllLimited 4096 (sq_Body r))) = Inr hb \<and>
      run_state (findNode E srv (hp_NodeID hb)) s = (Inr node, u) \<and>
      auth_as E srv (sq_Authorization r) node (world u) m secret \<and> obj_key_of (n_Meta node) = k" by simp
    then show ?thesis by blast
  qed (rule fleet_heartbeat.IH)
qed auto

end
