(* ===== verification/SystemProps.thy ===== *)
theory SystemProps
  imports DeploymentProps NodeProps Setup Fleet
begin

text \<open>
  Properties of the components together: three writers of one object (the heartbeat server, the node
  reconciler, the deployment reconciler), stale reads, and the way of a heartbeat through the program.
\<close>

section \<open>Well-typed statuses\<close>

text \<open>The enumerations of the CRDs; an empty string is omitted from the JSON and so always valid.\<close>

definition crd_states :: "string set" where
  "crd_states = {''booting'', ''pending_verify'', ''running'', ''degraded'', ''rollback'', ''failed'', ''offline''}"

definition crd_phases :: "string set" where
  "crd_phases = {''Binding'', ''Pulling'', ''Preparing'', ''Writing'', ''Activating'', ''Confirming'', ''Deployed'', ''Failed''}"

definition node_typed :: "mcunode \<Rightarrow> bool" where
  "node_typed n \<longleftrightarrow> nst_State (n_Status n) \<in> crd_states \<union> {''''}"

definition conforms :: "call \<times> bool \<Rightarrow> bool" where
  "conforms c \<longleftrightarrow>
     (\<forall>lock b n. fst c = CPatchNodeStatus lock b n \<longrightarrow>
        n_Spec n = n_Spec b \<and> n_Meta n = n_Meta b \<and> (node_typed b \<longrightarrow> node_typed n)) \<and>
     (\<forall>b d. fst c = CPatchDeploymentStatus b d \<longrightarrow>
        d_Spec d = d_Spec b \<and> d_Meta d = d_Meta b \<and> phase_text (phase_of d) \<in> crd_phases)"

lemma conforms_simps [simp]:
  "conforms (CPatchNodeStatus lock b n, ok) \<longleftrightarrow>
     n_Spec n = n_Spec b \<and> n_Meta n = n_Meta b \<and> (node_typed b \<longrightarrow> node_typed n)"
  "conforms (CPatchDeploymentStatus b' d, ok) \<longleftrightarrow>
     d_Spec d = d_Spec b' \<and> d_Meta d = d_Meta b' \<and> phase_text (phase_of d) \<in> crd_phases"
  "conforms (CGetNode k, ok)" "conforms (CGetSlice k, ok)" "conforms (CGetService k, ok)" "conforms (CCreateService sv, ok)"
  "conforms (CPatchService sv sv', ok)" "conforms (CGetSecret k, ok)" "conforms (CHttp q, ok)"
  "conforms (CEvent k ty reason msg, ok)" "conforms (CCreateSlice x, ok)" "conforms (CPatchSlice x x', ok)"
  "conforms (CTime, ok)" "conforms (CMetrics m, ok)" "conforms (CUpdateNode n', ok)" "conforms (CPatchSecret sc sc', ok)"
  "conforms (CListNodes ns, ok)" "conforms (CWsClose code reason, ok)" "conforms (CLog a1 a2 a3 a4 a5, ok)"
  "conforms (CServerLog a1 a2 a3, ok)" "conforms (CGetDeployment k, ok)"
  by (auto simp: conforms_def)

lemma node_typed_upd: "nst_State (f (n_Status b)) = nst_State (n_Status b) \<Longrightarrow> node_typed b \<Longrightarrow> node_typed (upd_nstatus f b)"
  by (simp add: node_typed_def)

lemma node_typed_expired: "node_typed b \<Longrightarrow> node_typed (upd_nstatus (node_status_update E ex) b)"
  by (simp add: node_typed_def node_status_update_facts crd_states_def)

lemma valid_states_crd: "s \<in> set validNodeStates \<Longrightarrow> s \<in> crd_states"
  by (auto simp: validNodeStates_def crd_states_def)

lemma agent_call_conforms: "agent_call m p c k \<Longrightarrow> conforms (k, b)"
  by (auto simp: agent_call_def)

lemma emits_device_conforms: "emits conforms (reconcile_device E rec node)"
proof -
  have rot: "emits conforms (reconcileTokenRotation E rec node)" for node
    unfolding reconcileTokenRotation_def by (intro emits_intros emits_record_event) simp_all
  have tls: "emits conforms (reconcileTLSCert E rec node)" for node
    unfolding reconcileTLSCert_def push_tls_def
    by (intro emits_intros emits_record_event emits_currentToken) (auto intro: agent_call_conforms node_typed_upd)
  have reboot: "emits conforms (reconcileRebootRequest E rec node)" for node
    unfolding reconcileRebootRequest_def
    by (intro emits_intros emits_record_event emits_currentToken) (auto intro: agent_call_conforms node_typed_upd)
  show ?thesis
    unfolding reconcile_device_def reconcileService_def reconcileEndpointSlice_def
    by (intro emits_intros rot tls reboot) simp_all
qed

lemma emits_live_conforms: "emits conforms (reconcile_live E rec node)"
  unfolding reconcile_live_def heartbeat_expired_def
  by (intro emits_intros emits_device_conforms) (auto intro: node_typed_expired)

lemma phase_step_crd: "phase_step p q \<Longrightarrow> phase_text q \<in> crd_phases"
  by (erule phase_step.cases) (auto simp: crd_phases_def)

lemma legal_conforms: "legal E p c \<Longrightarrow> conforms c"
proof -
  assume a: "legal E p c"
  obtain k ok where c: "c = (k, ok)" by (cases c)
  show ?thesis
  proof (cases k)
    case (CPatchDeploymentStatus b d)
    with a c show ?thesis using status_write_spec [of E p b d] by (auto intro: phase_step_crd)
  next
    case (CPatchNodeStatus lock b n)
    with a c have "nst_State (n_Status n) = nst_State (n_Status b)" by (simp add: heartbeat_fields_def)
    with a c CPatchNodeStatus show ?thesis by (simp add: node_typed_def)
  qed (simp_all add: c conforms_def)
qed

lemma emits_handleHeartbeat_conforms:
  assumes "retry_law E"
  shows "emits conforms (handleHeartbeat E srv r)"
proof -
  have attempt: "emits conforms (hb_attempt E hb ip t key)" if "hp_State hb \<in> set validNodeStates" for hb ip t key
    unfolding hb_attempt_def
    by (intro emits_intros) (use valid_states_crd [OF that] in \<open>auto simp: node_typed_def apply_heartbeat_def Let_def\<close>)
  have store: "emits conforms (store_heartbeat E srv r hb node)" if "hp_State hb \<in> set validNodeStates" for hb node
    unfolding store_heartbeat_def by (intro emits_intros emits_retry [OF assms] attempt that) simp_all
  have accept: "emits conforms (accept_heartbeat E srv r hb node m secret)" for hb node m secret
    unfolding accept_heartbeat_def clearPreviousToken_def by (intro emits_intros store) auto
  show ?thesis
    unfolding handleHeartbeat_def
    by (intro emits_intros emits_findNode emits_validateToken accept) (simp_all split: prod.splits)
qed

text \<open>
  C24: Every status that one of the three writers sends conforms to the CRD: a patch of a node status, by
  the heartbeat server or either reconciler, leaves the state within the enumeration if it was before (so
  the API server never refuses a heartbeat for its state), a patch of a deployment status has one of the
  eight phases, and neither changes spec or metadata.
\<close>

theorem statuses_conform:
  assumes "retry_law E"
  shows "emits conforms (Reconcile_node E rec nkey) \<and> emits conforms (Reconcile_deployment E R dkey) \<and>
    emits conforms (hb_Handler E srv path r upgrade)"
proof (intro conjI)
  show "emits conforms (Reconcile_node E rec nkey)"
    unfolding Reconcile_node_def
    by (intro emits_intros) (auto split: prod.splits bool.splits intro!: emits_live_conforms emits_bind emits_ext_call emits_return emits_case_sum)
  have "emits conforms (dispatch E R dep)" for dep
    by (rule emits_mono [OF dispatcher.handler_legal]) (auto intro: legal_conforms)
  then show "emits conforms (Reconcile_deployment E R dkey)"
    unfolding Reconcile_deployment_def by (intro emits_intros) simp_all
  have "emits conforms (handleHeartbeat E srv r)"
    by (rule emits_handleHeartbeat_conforms [OF assms])
  then show "emits conforms (hb_Handler E srv path r upgrade)"
    unfolding hb_Handler_def handleLog_def handleLogWS_def
    by (intro emits_intros emits_handleLogPost emits_ws_logs) simp_all
qed

theorem statuses_conform_witness:
  "emits conforms (Reconcile_node bed_hbE True (obj_key_of (n_Meta bed_node))) \<and>
   emits conforms (Reconcile_deployment bed_hbE bed_R (obj_key_of (d_Meta (bed_dep PhaseConfirming)))) \<and>
   emits conforms (hb_Handler bed_hbE bed_srv ''/v1alpha1/heartbeat'' bed_request None)"
  by (rule statuses_conform [OF bed_retry_law]) simp

section \<open>The stored nodes\<close>

lemma findNode_names:
  assumes "run_state (findNode E srv nodeID) s = (Inr node, u)"
  shows "ns_NodeID (n_Spec node) = nodeID"
proof -
  obtain items where "\<exists>rest. filter (\<lambda>n. ns_NodeID (n_Spec n) = nodeID) items = node # rest"
    using assms by (auto simp: findNode_def ext_call_def Let_def split: prod.splits sum.splits list.splits)
  then have "node \<in> set (filter (\<lambda>n. ns_NodeID (n_Spec n) = nodeID) items)" by (metis list.set_intros(1))
  then show ?thesis by simp
qed

text \<open>
  C11: A device writes its own node only, and what it reported: whatever request reaches the server, a status
  patch goes to the node whose nodeId the heartbeat names and whose token the request carried; it holds the
  optimistic lock, changes nothing but the status, has one of the seven states of the CRD, and shows the
  values of the payload, ready exactly when the device runs a validated image with a synchronised clock.
\<close>

theorem heartbeat_writes_own_node:
  assumes "retry_law E" "get_law E" "run_state (hb_Handler E srv path r upgrade) s = (rep, t)"
    and "(CPatchNodeStatus lock b n, ok) \<in> set (drop (length (calls s)) (calls t))"
  shows "\<exists>hb node u m secret at. jHeartbeat E (fst (readAllLimited 4096 (sq_Body r))) = Inr hb \<and>
    run_state (findNode E srv (hp_NodeID hb)) s = (Inr node, u) \<and> ns_NodeID (n_Spec node) = hp_NodeID hb \<and>
    auth_as E srv (sq_Authorization r) node (world u) m secret \<and>
    obj_key_of (n_Meta b) = obj_key_of (n_Meta node) \<and> n_Meta n = n_Meta b \<and> n_Spec n = n_Spec b \<and>
    lock \<and> hp_State hb \<in> set validNodeStates \<and>
    device_view (n_Status n) = report_heartbeat hb (source_ip r hb) at (device_view (n_Status b)) \<and>
    (nst_Ready (n_Status n) \<longleftrightarrow> hp_State hb = ''running'' \<and> hp_OtaValidated hb \<and> hp_Reason hb \<noteq> ''clock_unsynced'')"
proof -
  from adds_new [OF hb_Handler_own [OF assms(1,2)] assms(3,4)] obtain hb node u m secret at where
    o: "jHeartbeat E (fst (readAllLimited 4096 (sq_Body r))) = Inr hb" "hp_State hb \<in> set validNodeStates"
      "run_state (findNode E srv (hp_NodeID hb)) s = (Inr node, u)"
      "auth_as E srv (sq_Authorization r) node (world u) m secret"
      "obj_key_of (n_Meta b) = obj_key_of (n_Meta node)" "lock" "n = upd_nstatus (apply_heartbeat E hb (source_ip r hb) at) b"
    by (auto simp: own_report_def)
  moreover have "ns_NodeID (n_Spec node) = hp_NodeID hb" using o(3) by (rule findNode_names)
  moreover have "device_view (n_Status n) = report_heartbeat hb (source_ip r hb) at (device_view (n_Status b))"
    using o(7) by (simp add: device_view_apply)
  moreover have "nst_Ready (n_Status n) \<longleftrightarrow> hp_State hb = ''running'' \<and> hp_OtaValidated hb \<and> hp_Reason hb \<noteq> ''clock_unsynced''"
    using o(7) by (simp add: apply_heartbeat_ready hb_ready_def reasonClockUnsynced_def)
  moreover have "n_Meta n = n_Meta b" "n_Spec n = n_Spec b" using o(7) by simp_all
  ultimately show ?thesis by blast
qed

text \<open>
  C10: However the runs of the three writers overlap, whatever each of them read before and whatever users
  edit meanwhile, the stored status of a node shows exactly what the last accepted heartbeat reported (all
  twelve fields), except that the node controller may have marked it offline; and it is ready only if it
  is not, and the device reported a running, validated image.
\<close>

theorem stored_status_is_last_report:
  assumes "retry_law E" "get_law E" "node_patch_law api" "fleet_run E srv rec R api tr \<sigma>" "\<sigma> k = Some n"
  shows "device_view (n_Status n) \<in> {register tr k, (register tr k)\<lparr>rp_State := ''offline''\<rparr>} \<and>
    (nst_Ready (n_Status n) \<longrightarrow> device_view (n_Status n) = register tr k \<and>
       rp_State (register tr k) = ''running'' \<and> rp_OtaValidated (register tr k))"
  using fleet_run_tracks [OF assms(4,1-3)] assms(5) unfolding tracks_def by blast

section \<open>Stale reads\<close>

text \<open>The run of a node that is not being deleted, when its first patch is refused.\<close>

lemma refused_run:
  assumes "\<And>n w x w'. kPatchNodeStatus E True node n w = (Inr x, w') \<Longrightarrow> m_ResourceVersion (n_Meta node) \<notin> replaced w"
    and "\<And>w t w'. tNow E w = (t, w') \<Longrightarrow> replaced w \<subseteq> replaced w'"
    and "m_ResourceVersion (n_Meta node) \<in> replaced (world s)"
  shows "wp (reconcile_live E rec node) (\<lambda>r t. (\<exists>err. r = Inl err) \<and> mstate t = mstate s \<and>
    (\<exists>l. calls t = calls s @ l \<and> (\<forall>c \<in> set l. fst c = CTime \<or> (\<exists>n. c = (CPatchNodeStatus True node n, False))))) s"
proof -
  let ?Q = "\<lambda>(r :: gerr + ctrl_result) t. (\<exists>err. r = Inl err) \<and> mstate t = mstate s \<and>
    (\<exists>l. calls t = calls s @ l \<and> (\<forall>c \<in> set l. fst c = CTime \<or> (\<exists>n. c = (CPatchNodeStatus True node n, False))))"
  let ?K = "\<lambda>expired. State_Monad.bind (patchNodeStatus E True node (upd_nstatus (node_status_update E expired) node))
     (\<lambda>ures. case ures of Inl err \<Rightarrow> ret (Inl err)
       | Inr node' \<Rightarrow> if nst_IP (n_Status node') \<noteq> '''' then do {
            e \<leftarrow> reconcile_device E rec node';
            (case e of Some err \<Rightarrow> ret (Inl err) | None \<Rightarrow> ret (Inr (res_after HeartbeatTimeout)))
          }
          else ret (Inr (res_after HeartbeatTimeout)))"
  have refused: "wp (?K expired) ?Q u"
    if "m_ResourceVersion (n_Meta node) \<in> replaced (world u)" "mstate u = mstate s"
      "calls u = calls s \<or> calls u = calls s @ [(CTime, True)]" for expired u
  proof -
    obtain r w where p: "kPatchNodeStatus E True node (upd_nstatus (node_status_update E expired) node) (world u) = (r, w)"
      by (metis surj_pair)
    have "r \<noteq> Inr x" for x using assms(1) p that(1) by blast
    then obtain err where "r = Inl err" by (cases r) auto
    with p that(2,3) show ?thesis by (auto simp: wp_simps)
  qed
  have "wp (heartbeat_expired E (n_Status node)) (\<lambda>_ u. m_ResourceVersion (n_Meta node) \<in> replaced (world u) \<and>
      mstate u = mstate s \<and> (calls u = calls s \<or> calls u = calls s @ [(CTime, True)])) s"
    using assms(2,3) by (auto simp: heartbeat_expired_def wp_simps split: option.splits prod.splits)
  then show ?thesis
    unfolding reconcile_live_def by (subst wp_bind) (erule wp_conseq, rule refused, blast+)
qed

text \<open>
  C20: A run of the node reconciler that has read an outdated node (one whose resource version has been
  replaced), from a cache that is behind, has no effect on the device and publishes nothing: its status patch and its update carry the resource version
  that was read and are refused, before anything else is done, so that it sends no request, creates or
  changes no Service or EndpointSlice and emits no event. It returns the error and is run again. A
  certificate that has been recorded as pushed is therefore not pushed again from a copy that does not show
  the record. The one exception is an outdated node that is being deleted and shows the metrics finalizer:
  the series of that node are removed before its update is refused.
\<close>

theorem stale_node_has_no_effect:
  assumes "\<And>b n w x w'. kPatchNodeStatus E True b n w = (Inr x, w') \<Longrightarrow> m_ResourceVersion (n_Meta b) \<notin> replaced w"
    and "\<And>n w x w'. kUpdateNode E n w = (Inr x, w') \<Longrightarrow> m_ResourceVersion (n_Meta n) \<notin> replaced w"
    and "\<And>w t w'. tNow E w = (t, w') \<Longrightarrow> replaced w \<subseteq> replaced w'"
    and "\<And>m f m' b. kAddFinalizer E m f = (m', b) \<Longrightarrow> m_ResourceVersion m' = m_ResourceVersion m"
    and "\<And>m f. m_ResourceVersion (kRemoveFinalizer E m f) = m_ResourceVersion m"
    and "kGetNode E key (world s) = (Inr node, w1)" "m_ResourceVersion (n_Meta node) \<in> replaced w1"
    and "run_state (Reconcile_node E rec key) s = (r, t)"
  shows "\<exists>l. calls t = calls s @ (CGetNode key, True) # l \<and>
    (if m_DeletionTimestamp (n_Meta node) = None
     then (\<exists>err. r = Inl err) \<and> mstate t = mstate s \<and>
       (\<forall>(k, ok) \<in> set l. k = CTime \<or> ok = False \<and> ((\<exists>n. k = CUpdateNode n) \<or> (\<exists>b n. k = CPatchNodeStatus True b n)))
     else if kContainsFinalizer E (n_Meta node) nodeMetricsFinalizer
     then (\<exists>err. r = Inl err) \<and> mstate t = RemoveNode (ns_NodeID (n_Spec node)) (mstate s) \<and>
       (\<exists>n. l = [(CMetrics (MRemove (ns_NodeID (n_Spec node))), True), (CUpdateNode n, False)])
     else r = Inr res_done \<and> mstate t = mstate s \<and> l = [])"
    (is "?Q r t")
proof -
  have live: "wp (reconcile_live E rec (node\<lparr>n_Meta := m\<rparr>)) ?Q u"
    if m: "m_ResourceVersion m = m_ResourceVersion (n_Meta node)" and d: "m_DeletionTimestamp (n_Meta node) = None"
      and u: "world u = w1" "mstate u = mstate s" "calls u = calls s @ [(CGetNode key, True)]" for m u
  proof (rule wp_conseq [OF refused_run [where replaced = replaced]])
    show "m_ResourceVersion (n_Meta (node\<lparr>n_Meta := m\<rparr>)) \<in> replaced (world u)" using assms(7) m u(1) by simp
  qed (use assms(1,3) d u in \<open>fastforce+\<close>)
  have upd: "\<exists>err w'. kUpdateNode E (node\<lparr>n_Meta := m\<rparr>) w1 = (Inl err, w')"
    if "m_ResourceVersion m = m_ResourceVersion (n_Meta node)" for m
  proof -
    obtain x w' where p: "kUpdateNode E (node\<lparr>n_Meta := m\<rparr>) w1 = (x, w')" by (metis surj_pair)
    have "x \<noteq> Inr y" for y using assms(2) p assms(7) that by fastforce
    then obtain err where "x = Inl err" by (cases x) auto
    with p show ?thesis by blast
  qed
  have "wp (Reconcile_node E rec key) ?Q s"
  proof (cases "m_DeletionTimestamp (n_Meta node) = None")
    case True
    obtain m b where a: "kAddFinalizer E (n_Meta node) nodeMetricsFinalizer = (m, b)" by (metis surj_pair)
    have m: "m_ResourceVersion m = m_ResourceVersion (n_Meta node)" by (rule assms(4) [OF a])
    from upd [OF m] obtain err w' where p: "kUpdateNode E (node\<lparr>n_Meta := m\<rparr>) w1 = (Inl err, w')" by blast
    show ?thesis
      using assms(6) True a p live [OF m True] by (cases b) (simp_all add: Reconcile_node_def wp_simps)
  next
    case False
    from upd [OF assms(5)] obtain err w' where
      p: "kUpdateNode E (node\<lparr>n_Meta := kRemoveFinalizer E (n_Meta node) nodeMetricsFinalizer\<rparr>) w1 = (Inl err, w')" by blast
    show ?thesis using assms(6) False p by (auto simp: Reconcile_node_def wp_simps)
  qed
  then show ?thesis using assms(8) by (rule wpD)
qed

text \<open>The world is the stored node; reads come from a cache, and writes with another resource version are conflicts.\<close>

definition bed_lockE :: "mcunode \<Rightarrow> mcunode ext" where
  "bed_lockE cached = bedE\<lparr>kGetNode := (\<lambda>_ w. (Inr cached, w)),
     kPatchNodeStatus := (\<lambda>lock b n w. if lock \<and> m_ResourceVersion (n_Meta b) \<noteq> m_ResourceVersion (n_Meta w)
        then (Inl (ApiConflict ''mcunodes''), w) else (Inr n, w)),
     kUpdateNode := (\<lambda>n w. if m_ResourceVersion (n_Meta n) \<noteq> m_ResourceVersion (n_Meta w)
        then (Inl (ApiConflict ''mcunodes''), w) else (Inr n, w))\<rparr>"

definition bed_newer :: mcunode where
  "bed_newer = bed_node\<lparr>n_Meta := (n_Meta bed_node)\<lparr>m_ResourceVersion := ''2''\<rparr>\<rparr>"

lemma bed_lockE_simps:
  "kGetNode (bed_lockE c) k w = (Inr c, w)" "tNow (bed_lockE c) w = (0, w)"
  "kPatchNodeStatus (bed_lockE c) True b n w = (if m_ResourceVersion (n_Meta b) \<noteq> m_ResourceVersion (n_Meta w)
     then (Inl (ApiConflict ''mcunodes''), w) else (Inr n, w))"
  "kUpdateNode (bed_lockE c) n w = (if m_ResourceVersion (n_Meta n) \<noteq> m_ResourceVersion (n_Meta w)
     then (Inl (ApiConflict ''mcunodes''), w) else (Inr n, w))"
  "kAddFinalizer (bed_lockE c) m f = (if f \<in> set (m_Finalizers m) then (m, False) else (m\<lparr>m_Finalizers := m_Finalizers m @ [f]\<rparr>, True))"
  "kRemoveFinalizer (bed_lockE c) m f = m\<lparr>m_Finalizers := removeAll f (m_Finalizers m)\<rparr>"
  by (simp_all add: bed_lockE_def bedE_def)

theorem stale_node_has_no_effect_witness:
  "\<exists>err t l. run_state (Reconcile_node (bed_lockE bed_node) True (obj_key_of (bed_meta ''node1''))) (bed_sys bed_newer) = (Inl err, t) \<and>
     calls t = calls (bed_sys bed_newer) @ (CGetNode (obj_key_of (bed_meta ''node1'')), True) # l \<and>
     list_all (\<lambda>(k, ok). k = CTime \<or> ok = False \<and> ((\<exists>n. k = CUpdateNode n) \<or> (\<exists>b n. k = CPatchNodeStatus True b n))) l"
proof -
  obtain r t where run: "run_state (Reconcile_node (bed_lockE bed_node) True (obj_key_of (bed_meta ''node1''))) (bed_sys bed_newer) = (r, t)"
    by (metis surj_pair)
  have "m_ResourceVersion (n_Meta bed_node) \<noteq> ''2''" and d: "m_DeletionTimestamp (n_Meta bed_node) = None"
    by (simp_all add: bed_node_def bed_meta_def new_meta_def)
  then have out: "m_ResourceVersion (n_Meta bed_node) \<in> - {m_ResourceVersion (n_Meta bed_newer)}" by (simp add: bed_newer_def)
  have g: "kGetNode (bed_lockE bed_node) (obj_key_of (bed_meta ''node1'')) (world (bed_sys bed_newer)) = (Inr bed_node, bed_newer)"
    by (simp add: bed_lockE_simps)
  let ?rep = "\<lambda>w :: mcunode. - {m_ResourceVersion (n_Meta w)}" and ?E = "bed_lockE bed_node"
  have 1: "kPatchNodeStatus ?E True b n w = (Inr x, w') \<Longrightarrow> m_ResourceVersion (n_Meta b) \<notin> ?rep w"
    and 2: "kUpdateNode ?E n w = (Inr x, w') \<Longrightarrow> m_ResourceVersion (n_Meta n) \<notin> ?rep w"
    and 3: "tNow ?E w = (tm, w') \<Longrightarrow> ?rep w \<subseteq> ?rep w'"
    and 4: "kAddFinalizer ?E m f = (m', added) \<Longrightarrow> m_ResourceVersion m' = m_ResourceVersion m"
    and 5: "m_ResourceVersion (kRemoveFinalizer ?E m f) = m_ResourceVersion m" for b n w x w' tm m f m' added
    by (auto simp: bed_lockE_simps split: if_splits)
  show ?thesis
    by (rule exE [OF stale_node_has_no_effect [where replaced = ?rep, OF _ _ _ _ _ g out run]], fact 1, fact 2, fact 3, fact 4,
        fact 5, use run d in \<open>auto simp: list_all_iff\<close>)
qed

section \<open>From a heartbeat to a deployment that is done\<close>

lemma nodeClient_answers:
  assumes "kGetNode E \<lparr>key_Namespace = d_Namespace dep, key_Name = dst_BoundNode (d_Status dep)\<rparr> (world s) = (Inr n, w1)"
    and "nst_IP (n_Status n) \<noteq> ''''" "nodeTokenRef R n = (key, field)"
    and "kGetSecret E key w1 = (Inr x, w2)" "sec_Data x field = Some tok"
  shows "\<exists>cli t. run_state (nodeClient E R dep) s = (Inr (n, cli), t)"
  using assms by (simp add: nodeClient_def nodeToken_def ext_call_def)

text \<open>
  C15: The heartbeat that a deployment waits for completes it: when the server has stored a heartbeat of
  the bound node that reports running, validated, and this deployment id, the change of the node wakes the
  deployment reconciler for the deployment, and its next run, given that its reads and its patch succeed,
  moves the deployment from Confirming to Deployed.
\<close>

theorem heartbeat_confirms_deployment:
  assumes "retry_law E" "run_state (hb_Handler E srv ''/v1alpha1/heartbeat'' req up) s0 = (rep, t0)"
    and "(CPatchNodeStatus lock b n, True) \<in> set (drop (length (calls s0)) (calls t0))"
    and "jHeartbeat E (fst (readAllLimited 4096 (sq_Body req))) = Inr hb"
    and "hp_State hb = ''running''" "hp_OtaValidated hb" "hp_DeploymentID hb = dst_DeploymentID (d_Status dep)"
    and "phase_of dep = PhaseConfirming" "dst_BoundNode (d_Status dep) = n_Name n" "nst_IP (n_Status n) \<noteq> ''''"
    and "kListDeployments E (n_Namespace n) (world s1) = (Inr deps, w1)" "dep \<in> set deps"
    and "run_state (deployment_requests E (EvNode n)) s1 = (reqs, t1)"
    and "kGetDeployment E (dep_request dep) (world s2) = (Inr dep, w2)"
    and "kGetNode E \<lparr>key_Namespace = d_Namespace dep, key_Name = n_Name n\<rparr> w2 = (Inr n, w3)"
    and "nodeTokenRef R n = (key, field)" "kGetSecret E key w3 = (Inr secret, w4)" "sec_Data secret field = Some tok"
    and "\<And>d w. \<exists>x w'. kPatchDeploymentStatus E dep d w = (Inr x, w')"
    and "run_state (Reconcile_deployment E R (dep_request dep)) s2 = (res, t2)"
  shows "dep_request dep \<in> set reqs \<and>
    (\<exists>d. phase_of d = PhaseDeployed \<and> (CPatchDeploymentStatus dep d, True) \<in> set (drop (length (calls s2)) (calls t2)))"
proof
  obtain rep' where hb: "run_state (handleHeartbeat E srv req) s0 = (rep', t0)"
    using assms(2) by (auto simp: hb_Handler_def split: prod.splits)
  from adds_new [OF handleHeartbeat_allowed [OF assms(1)] hb assms(3)] assms(4) obtain ip at where
    n: "n = upd_nstatus (apply_heartbeat E hb ip at) b"
    by (auto simp: hb_allowed_def hb_write_def hb_auth_def)
  have conf: "confirmed dep n"
    using assms(5-7) by (simp add: confirmed_def n apply_heartbeat_def Let_def)
  show "dep_request dep \<in> set reqs"
    using assms(8,9,11-13) by (auto simp: nodeToDeployments_def ext_call_def)
  let ?s = "s2\<lparr>world := w2, calls := calls s2 @ [(CGetDeployment (dep_request dep), True)]\<rparr>"
  have run: "run_state (phaseConfirming E R dep) ?s = (res, t2)"
    using assms(8,14,20) by (simp add: Reconcile_deployment_def ext_call_def dispatch_def)
  obtain cli u where c: "run_state (nodeClient E R dep) ?s = (Inr (n, cli), u)"
    using nodeClient_answers [of E dep ?s n w3 R key field secret w4 tok] assms(9,10,15-18) by auto
  obtain l where l: "calls u = calls ?s @ l"
    using emitsD [OF emits_nodeClient c] by blast
  let ?d = "phased_dep E PhaseDeployed (n_Name n) (''d'' @ e_acute @ ''ploiement confirm'' @ e_acute @ '' par heartbeat'') dep"
  obtain x w5 where p: "kPatchDeploymentStatus E dep ?d (world u) = (Inr x, w5)" using assms(19) by blast
  from run c conf p have "calls t2 = calls u @ [(CPatchDeploymentStatus dep ?d, True)]"
    by (auto simp: phaseConfirming_def setPhase_def setPhase_status_def ext_call_def)
  with l have "(CPatchDeploymentStatus dep ?d, True) \<in> set (drop (length (calls s2)) (calls t2))" by simp
  then show "\<exists>d. phase_of d = PhaseDeployed \<and> (CPatchDeploymentStatus dep d, True) \<in> set (drop (length (calls s2)) (calls t2))"
    by (intro exI [of _ ?d]) simp
qed

text \<open>The world is the stored node; the heartbeat is the one that \<open>bed_dep\<close> waits for.\<close>

definition bed_waitE :: "mcunode ext" where
  "bed_waitE = bedE\<lparr>kListNodes := (\<lambda>_ w. (Inr [w], w)), 
     kGetNode := (\<lambda>k w. (if obj_key_of (n_Meta w) = k then Inr w else Inl (ApiNotFound ''mcunodes''), w)),
     kPatchNodeStatus := (\<lambda>_ _ n w. (Inr n, n)), kGetSecret := (\<lambda>_ w. (Inr bed_tokens, w)),
     jHeartbeat := (\<lambda>_. Inr bed_hb), kListDeployments := (\<lambda>_ w. (Inr [bed_dep PhaseConfirming], w)),
     kGetDeployment := (\<lambda>_ w. (Inr (bed_dep PhaseConfirming), w))\<rparr>"

definition bed_reported :: mcunode where
  "bed_reported = upd_nstatus (apply_heartbeat bed_waitE bed_hb ''10.0.0.2'' 0) bed_node"

lemma bed_waitE_simps [simp]:
  "kListNodes bed_waitE ns w = (Inr [w], w)" "kGetNode bed_waitE k w = (if obj_key_of (n_Meta w) = k then Inr w else Inl (ApiNotFound ''mcunodes''), w)"
  "kPatchNodeStatus bed_waitE lock b n w = (Inr n, n)" "kGetSecret bed_waitE k w = (Inr bed_tokens, w)"
  "jHeartbeat bed_waitE x = Inr bed_hb" "kListDeployments bed_waitE y w = (Inr [bed_dep PhaseConfirming], w)"
  "kGetDeployment bed_waitE k w = (Inr (bed_dep PhaseConfirming), w)" "kPatchSecret bed_waitE b' x' w = (Inr x', w)"
  "kRetryOnConflict bed_waitE = bed_retry 4" "tNow bed_waitE w = (0, w)"
  "kPatchDeploymentStatus bed_waitE bd d w = (Inr d, w)"
  by (simp_all add: bed_waitE_def bedE_def)

lemma bed_wait_run:
  assumes "n_Meta nd = n_Meta bed_node" "n_Spec nd = n_Spec bed_node"
  shows "\<exists>rep t. run_state (hb_Handler bed_waitE bed_srv ''/v1alpha1/heartbeat'' bed_request None) (bed_sys nd) = (rep, t) \<and>
     (CPatchNodeStatus True nd (upd_nstatus (apply_heartbeat bed_waitE bed_hb ''10.0.0.2'' 0) nd), True)
       \<in> set (drop (length (calls (bed_sys nd))) (calls t))"
proof -
  let ?n = "upd_nstatus (apply_heartbeat bed_waitE bed_hb ''10.0.0.2'' 0) nd"
  have req: "sq_Method bed_request = ''POST''" "sq_Authorization bed_request = ''Bearer x''"
    "readAllLimited 4096 (sq_Body bed_request) = (''{}'', None)"
    by (simp_all add: bed_request_def readAllLimited_def body_content_def readAll_def Let_def)
  have hb: "hp_NodeID bed_hb = ''id1''" "hp_State bed_hb \<in> set validNodeStates" "hp_IP bed_hb = ''10.0.0.2''"
    by (simp_all add: bed_hb_def validNodeStates_def)
  have prev: "mget (sec_Data bed_tokens) ''previousToken'' \<noteq> ''''" by (simp add: bed_tokens_def bed_secret_def)
  have rec: "hs_Recorder bed_srv = False" by (simp add: bed_srv_def hb_New_def)
  have nid: "ns_NodeID (n_Spec nd) = ''id1''" by (simp add: assms bed_node_def)
  have find: "run_state (findNode bed_waitE bed_srv ''id1'') (bed_sys nd) =
      (Inr nd, bed_sys nd\<lparr>calls := [(CListNodes None, True)]\<rparr>)"
    by (simp add: findNode_def ext_call_def nid)
  have valid: "run_state (validateToken bed_waitE bed_srv ''Bearer x'' nd) s =
      ((tokenMatchCurrent, Some bed_tokens), s\<lparr>calls := calls s @ [(CGetSecret \<lparr>key_Namespace = ''ns'', key_Name = ''tok''\<rparr>, True)]\<rparr>)" for s
    by (simp add: validateToken_def resolveTokenSecret_def assms bed_node_def bed_meta_def new_meta_def ext_call_def bed_check
        hasPrefix_def trimPrefix_def)
  have retry: "run_state (retryOnConflict bed_waitE (hb_attempt bed_waitE bed_hb ''10.0.0.2'' 0 (obj_key_of (n_Meta nd)))) x =
      (Inr ?n, x\<lparr>world := ?n, calls := calls x @ [(CGetNode (obj_key_of (n_Meta nd)), True), (CPatchNodeStatus True nd ?n, True)]\<rparr>)"
    if "world x = nd" for x
    using that by (simp add: retryOnConflict_def eval_nat_numeral hb_attempt_def ext_call_def)
  show ?thesis
    by (simp add: hb_Handler_def handleHeartbeat_def req hb find valid accept_heartbeat_def prev clearPreviousToken_def
        ext_call_def store_heartbeat_def rec Let_def now_def retry metrics_update_def)
qed

theorem heartbeat_confirms_deployment_witness:
  "\<exists>reqs t1 res t2 d. run_state (deployment_requests bed_waitE (EvNode bed_reported)) (bed_sys bed_reported) = (reqs, t1) \<and>
     run_state (Reconcile_deployment bed_waitE bed_R (dep_request (bed_dep PhaseConfirming))) (bed_sys bed_reported) = (res, t2) \<and>
     dep_request (bed_dep PhaseConfirming) \<in> set reqs \<and> phase_of d = PhaseDeployed \<and>
     (CPatchDeploymentStatus (bed_dep PhaseConfirming) d, True) \<in> set (drop (length (calls (bed_sys bed_reported))) (calls t2))"
proof -
  obtain rep t where hb: "run_state (hb_Handler bed_waitE bed_srv ''/v1alpha1/heartbeat'' bed_request None) (bed_sys bed_node) = (rep, t)"
    "(CPatchNodeStatus True bed_node bed_reported, True) \<in> set (drop (length (calls (bed_sys bed_node))) (calls t))"
    using bed_wait_run [of bed_node] by (auto simp: bed_reported_def)
  obtain reqs t1 where d: "run_state (deployment_requests bed_waitE (EvNode bed_reported)) (bed_sys bed_reported) = (reqs, t1)"
    by fastforce
  obtain res t2 where r: "run_state (Reconcile_deployment bed_waitE bed_R (dep_request (bed_dep PhaseConfirming))) (bed_sys bed_reported) = (res, t2)"
    by fastforce
  have n: "n_Name bed_reported = ''node1''" "nst_IP (n_Status bed_reported) = ''10.0.0.2''"
    "nodeTokenRef bed_R bed_reported = (\<lparr>key_Namespace = ''ns'', key_Name = ''tok''\<rparr>, ''token'')"
    by (simp_all add: bed_reported_def bed_node_def bed_meta_def new_meta_def apply_heartbeat_def Let_def nodeTokenRef_def)
  have key: "obj_key_of (n_Meta bed_reported) = \<lparr>key_Namespace = ''ns'', key_Name = ''node1''\<rparr>"
    by (simp add: obj_key_of_def n bed_reported_def bed_node_def bed_meta_def new_meta_def)
  have "sec_Data bed_tokens ''token'' = Some ''x''" by (simp add: bed_tokens_def bed_secret_def)
  from heartbeat_confirms_deployment [where dep = "bed_dep PhaseConfirming" and deps = "[bed_dep PhaseConfirming]" and hb = bed_hb
        and ?w1.0 = bed_reported and ?w2.0 = bed_reported and ?w3.0 = bed_reported and ?w4.0 = bed_reported,
      OF bed_retry_law hb _ _ _ _ _ _ _ _ _ d _ _ n(3) _ this _ r]
  have "dep_request (bed_dep PhaseConfirming) \<in> set reqs \<and> (\<exists>d. phase_of d = PhaseDeployed \<and>
      (CPatchDeploymentStatus (bed_dep PhaseConfirming) d, True) \<in> set (drop (length (calls (bed_sys bed_reported))) (calls t2)))"
    by (simp add: n key bed_hb_def bed_dep_def bed_meta_def new_meta_def)
  with d r show ?thesis by blast
qed

theorem reports_never_overwritten_witness:
  "emits no_lost_report (Reconcile_node bed_hbE True (obj_key_of (n_Meta bed_node))) \<and>
   emits no_lost_report (Reconcile_deployment bed_hbE bed_R (obj_key_of (d_Meta (bed_dep PhaseConfirming)))) \<and>
   emits no_lost_report (hb_Handler bed_hbE bed_srv ''/v1alpha1/heartbeat'' bed_request None)"
  by (rule reports_never_overwritten [OF bed_retry_law]) simp

section \<open>From the device to Deployed\<close>

text \<open>
  C3: Deployed is the word of the device: if a run moves a deployment to Deployed from the node as it is stored
  (now, or when the cache of the client last saw it), then the history of that node has an accepted heartbeat
  that says running, validated and this deployment id, and the request that brought it carried the token of
  the node the deployment is bound to.
\<close>

theorem deployed_means_device_reported:
  assumes "retry_law E" "get_law E" "node_patch_law api" "fleet_run E srv rec R api tr \<sigma>"
    and "run_state (dispatch E R dep) s = (r, t)"
    and "(CPatchDeploymentStatus b d, True) \<in> set (drop (length (calls s)) (calls t))"
    and "phase_of d = PhaseDeployed" "phase_of dep \<noteq> PhaseDeployed"
    and "\<And>node. bound_node E dep (world s) node \<Longrightarrow> \<sigma> (obj_key_of (n_Meta node)) = Some node"
  shows "\<exists>hb ip at (req :: server_request) s' node u m secret.
    FHeartbeat \<lparr>key_Namespace = d_Namespace dep, key_Name = dst_BoundNode (d_Status dep)\<rparr> hb ip at \<in> set tr \<and>
    hp_State hb = ''running'' \<and> hp_OtaValidated hb \<and> hp_DeploymentID hb = dst_DeploymentID (d_Status dep) \<and>
    jHeartbeat E (fst (readAllLimited 4096 (sq_Body req))) = Inr hb \<and>
    run_state (findNode E srv (hp_NodeID hb)) s' = (Inr node, u) \<and>
    auth_as E srv (sq_Authorization req) node (world u) m secret \<and>
    obj_key_of (n_Meta node) = \<lparr>key_Namespace = d_Namespace dep, key_Name = dst_BoundNode (d_Status dep)\<rparr>"
proof -
  let ?k = "\<lparr>key_Namespace = d_Namespace dep, key_Name = dst_BoundNode (d_Status dep)\<rparr>"
  from deploying_run [OF assms(5-8)] obtain node where
    n: "bound_node E dep (world s) node" "confirmed dep node" by blast
  have "obj_key_of (n_Meta node) = ?k" using n(1) assms(2) by (auto simp: bound_node_def get_law_def)
  with assms(9) [OF n(1)] have "\<sigma> ?k = Some node" by simp
  from fleet_run_running [OF assms(4,1-3) this] n(2) obtain hb ip at where
    f: "FHeartbeat ?k hb ip at \<in> set tr" "hp_State hb = ''running''" "hp_OtaValidated hb"
    "hp_DeploymentID hb = dst_DeploymentID (d_Status dep)"
    by (auto simp: confirmed_def)
  from fleet_run_authentic [OF assms(4,1,2) f(1)] obtain req :: server_request and s' node u m secret where
    "jHeartbeat E (fst (readAllLimited 4096 (sq_Body req))) = Inr hb" "run_state (findNode E srv (hp_NodeID hb)) s' = (Inr node, u)"
    "auth_as E srv (sq_Authorization req) node (world u) m secret" "obj_key_of (n_Meta node) = ?k" by blast
  with f show ?thesis by blast
qed

section \<open>Examples of stored nodes\<close>

lemma bed_get_law: "get_law bed_waitE"
  by (auto simp: get_law_def split: if_splits)

theorem heartbeat_writes_own_node_witness:
  "\<exists>hb node u m secret at. jHeartbeat bed_waitE (fst (readAllLimited 4096 (sq_Body bed_request))) = Inr hb \<and>
    run_state (findNode bed_waitE bed_srv (hp_NodeID hb)) (bed_sys bed_node) = (Inr node, u) \<and> ns_NodeID (n_Spec node) = hp_NodeID hb \<and>
    auth_as bed_waitE bed_srv (sq_Authorization bed_request) node (world u) m secret \<and>
    obj_key_of (n_Meta bed_node) = obj_key_of (n_Meta node) \<and> n_Meta bed_reported = n_Meta bed_node \<and>
    n_Spec bed_reported = n_Spec bed_node \<and> True \<and> hp_State hb \<in> set validNodeStates \<and>
    device_view (n_Status bed_reported) = report_heartbeat hb (source_ip bed_request hb) at (device_view (n_Status bed_node)) \<and>
    (nst_Ready (n_Status bed_reported) \<longleftrightarrow> hp_State hb = ''running'' \<and> hp_OtaValidated hb \<and> hp_Reason hb \<noteq> ''clock_unsynced'')"
proof -
  obtain rep t where "run_state (hb_Handler bed_waitE bed_srv ''/v1alpha1/heartbeat'' bed_request None) (bed_sys bed_node) = (rep, t)"
    "(CPatchNodeStatus True bed_node bed_reported, True) \<in> set (drop (length (calls (bed_sys bed_node))) (calls t))"
    using bed_wait_run [of bed_node] by (auto simp: bed_reported_def)
  from heartbeat_writes_own_node [OF bed_retry_law bed_get_law this] show ?thesis by simp
qed

text \<open>An API server, a node that was just created, and its first heartbeat.\<close>

definition bed_api :: node_api where
  "bed_api lock b n cur = (if lock \<and> n_Status b \<noteq> n_Status cur then None
     else Some (upd_nstatus (merge_status (n_Status b) (n_Status n)) cur))"

definition bed_new_node :: mcunode where
  "bed_new_node = upd_nstatus (\<lambda>st. st\<lparr>nst_IP := '''', nst_State := '''', nst_DeploymentID := '''',
     nst_OtaValidated := False, nst_Chip := '''', nst_LastHeartbeat := None\<rparr>) bed_node"

definition bed_first :: mcunode where
  "bed_first = upd_nstatus (apply_heartbeat bed_waitE bed_hb ''10.0.0.2'' 0) bed_new_node"

abbreviation bed_key :: obj_key where
  "bed_key \<equiv> obj_key_of (n_Meta bed_node)"

lemma bed_fleet: "fleet_run bed_waitE bed_srv True bed_R bed_api
    [FHeartbeat bed_key bed_hb (source_ip bed_request bed_hb) 0, FCreated bed_key] (Map.empty(bed_key \<mapsto> bed_new_node, bed_key \<mapsto> bed_first))"
proof -
  have meta: "n_Meta bed_new_node = n_Meta bed_node" "n_Spec bed_new_node = n_Spec bed_node"
    by (simp_all add: bed_new_node_def)
  obtain rep t where run:
    "run_state (hb_Handler bed_waitE bed_srv ''/v1alpha1/heartbeat'' bed_request None) (bed_sys bed_new_node) = (rep, t)"
    "(CPatchNodeStatus True bed_new_node bed_first, True) \<in> set (drop (length (calls (bed_sys bed_new_node))) (calls t))"
    using bed_wait_run [OF meta] by (auto simp: bed_first_def)
  have blank: "device_view (n_Status bed_new_node) = no_report" "\<not> nst_Ready (n_Status bed_new_node)"
    by (simp_all add: device_view_def no_report_def bed_new_node_def bed_node_def)
  have api: "bed_api True bed_new_node bed_first bed_new_node = Some bed_first"
    by (simp add: bed_api_def merge_current upd_nstatus_def bed_first_def)
  have at: "nst_LastHeartbeat (n_Status bed_first) = Some 0" by (simp add: apply_heartbeat_time bed_first_def)
  have c: "fleet_run bed_waitE bed_srv True bed_R bed_api [FCreated bed_key] (Map.empty(bed_key \<mapsto> bed_new_node))"
    by (rule fleet_create [OF fleet_start _ blank]) (rule refl)
  have key: "bed_key = obj_key_of (n_Meta bed_new_node)" by (simp only: meta)
  have stored: "(Map.empty(bed_key \<mapsto> bed_new_node)) bed_key = Some bed_new_node" by (rule fun_upd_same)
  have "patched_by (hb_Handler bed_waitE bed_srv ''/v1alpha1/heartbeat'' bed_request None) True bed_new_node bed_first"
    using run unfolding patched_by_def by blast
  from fleet_heartbeat [OF c this key stored api _ at] show ?thesis by (simp only: bed_waitE_simps)
qed

abbreviation bed_trace :: "fleet_event list" where
  "bed_trace \<equiv> [FHeartbeat bed_key bed_hb (source_ip bed_request bed_hb) 0, FCreated bed_key]"

theorem stored_status_is_last_report_witness:
  "nst_Ready (n_Status bed_first) \<and> device_view (n_Status bed_first) = register bed_trace bed_key \<and>
   rp_State (register bed_trace bed_key) = ''running'' \<and> rp_OtaValidated (register bed_trace bed_key)"
proof -
  have law: "node_patch_law bed_api" by (simp add: node_patch_law_def bed_api_def)
  have retry: "retry_law bed_waitE" by (rule bed_retry_law) simp
  have stored: "(Map.empty(bed_key \<mapsto> bed_new_node, bed_key \<mapsto> bed_first)) bed_key = Some bed_first" by (rule fun_upd_same)
  have ready: "nst_Ready (n_Status bed_first)"
    by (simp add: bed_first_def apply_heartbeat_ready hb_ready_def bed_hb_def reasonClockUnsynced_def)
  from stored_status_is_last_report [OF retry bed_get_law law bed_fleet stored] ready show ?thesis by blast
qed

text \<open>The deployment that waits for the first heartbeat of the node.\<close>

lemma bed_key_eq: "bed_key = \<lparr>key_Namespace = ''ns'', key_Name = ''node1''\<rparr>"
  by (simp add: obj_key_of_def bed_node_def bed_meta_def new_meta_def)

lemma bed_deploys:
  "\<exists>r t d. run_state (dispatch bed_waitE bed_R (bed_dep PhaseConfirming)) (bed_sys bed_first) = (r, t) \<and>
     (CPatchDeploymentStatus (bed_dep PhaseConfirming) d, True) \<in> set (drop (length (calls (bed_sys bed_first))) (calls t)) \<and>
     phase_of d = PhaseDeployed"
proof -
  have f: "n_Meta bed_first = n_Meta bed_node" "n_Spec bed_first = n_Spec bed_node" "nst_IP (n_Status bed_first) = ''10.0.0.2''"
    "confirmed (bed_dep PhaseConfirming) bed_first"
    by (simp_all add: bed_first_def bed_new_node_def apply_heartbeat_def Let_def confirmed_def bed_hb_def bed_dep_def)
  have d: "d_Namespace (bed_dep p) = ''ns''" "dst_BoundNode (d_Status (bed_dep p)) = ''node1''" for p
    by (simp_all add: bed_dep_def bed_meta_def new_meta_def)
  have k: "nodeTokenRef bed_R bed_first = (\<lparr>key_Namespace = ''ns'', key_Name = ''tok''\<rparr>, ''token'')"
    by (simp add: nodeTokenRef_def f bed_node_def bed_meta_def new_meta_def)
  have tok: "sec_Data bed_tokens ''token'' = Some ''x''" by (simp add: bed_tokens_def bed_secret_def)
  have "\<exists>cli t. run_state (nodeClient bed_waitE bed_R (bed_dep PhaseConfirming)) (bed_sys bed_first) = (Inr (bed_first, cli), t)"
    by (simp add: nodeClient_def nodeToken_def ext_call_def d f k tok bed_key_eq)
  then obtain cli t where c: "run_state (nodeClient bed_waitE bed_R (bed_dep PhaseConfirming)) (bed_sys bed_first) = (Inr (bed_first, cli), t)"
    by blast
  have "phase_of (bed_dep PhaseConfirming) = PhaseConfirming" by (simp add: bed_dep_def)
  then show ?thesis
    by (simp add: dispatch_def phaseConfirming_def c f setPhase_def setPhase_status_def ext_call_def)
      (rule exI, rule conjI, rule disjI1, rule refl, simp)
qed

theorem deployed_means_device_reported_witness:
  "\<exists>hb ip at (req :: server_request) s' node u m secret. FHeartbeat bed_key hb ip at \<in> set bed_trace \<and>
    hp_State hb = ''running'' \<and> hp_OtaValidated hb \<and> hp_DeploymentID hb = ''dep1'' \<and>
    jHeartbeat bed_waitE (fst (readAllLimited 4096 (sq_Body req))) = Inr hb \<and>
    run_state (findNode bed_waitE bed_srv (hp_NodeID hb)) s' = (Inr node, u) \<and>
    auth_as bed_waitE bed_srv (sq_Authorization req) node (world u) m secret \<and> obj_key_of (n_Meta node) = bed_key"
proof -
  have law: "node_patch_law bed_api" by (simp add: node_patch_law_def bed_api_def)
  have retry: "retry_law bed_waitE" by (rule bed_retry_law) simp
  obtain r t d where run: "run_state (dispatch bed_waitE bed_R (bed_dep PhaseConfirming)) (bed_sys bed_first) = (r, t)"
    "(CPatchDeploymentStatus (bed_dep PhaseConfirming) d, True) \<in> set (drop (length (calls (bed_sys bed_first))) (calls t))"
    "phase_of d = PhaseDeployed" using bed_deploys by blast
  have key: "\<lparr>key_Namespace = d_Namespace (bed_dep PhaseConfirming), key_Name = dst_BoundNode (d_Status (bed_dep PhaseConfirming))\<rparr> = bed_key"
    by (simp add: bed_key_eq bed_dep_def bed_meta_def new_meta_def)
  have "n_Meta bed_first = n_Meta bed_node" by (simp add: bed_first_def bed_new_node_def)
  then have read: "(Map.empty(bed_key \<mapsto> bed_new_node, bed_key \<mapsto> bed_first)) (obj_key_of (n_Meta node)) = Some node"
    if "bound_node bed_waitE (bed_dep PhaseConfirming) (world (bed_sys bed_first)) node" for node
    using that by (auto simp: bound_node_def split: if_splits)
  have "phase_of (bed_dep PhaseConfirming) \<noteq> PhaseDeployed" "dst_DeploymentID (d_Status (bed_dep PhaseConfirming)) = ''dep1''"
    by (simp_all add: bed_dep_def)
  from deployed_means_device_reported [OF retry bed_get_law law bed_fleet run this(1) read] this(2) show ?thesis
    unfolding key by simp
qed

end
