(* ===== verification/OtaRun.thy ===== *)
theory OtaRun
  imports DeploymentProps
begin

text \<open>
  A deployment from its creation to Confirming: what the API server, the registry and the device have to
  do for it, and that the state machine then gets there, one phase or more with each run. The runs are
  those of \<open>Reconcile_deployment\<close>; between and during them heartbeats may change the node.
\<close>

section \<open>The world of an update\<close>

text \<open>The deployment and the node the API server stores, and the firmware bytes the device holds.\<close>

record 'w fleet =
  fl_dep :: "'w \<Rightarrow> mcudeployment"
  fl_node :: "'w \<Rightarrow> mcunode"
  fl_flash :: "'w \<Rightarrow> string"

definition same_meta :: "object_meta \<Rightarrow> object_meta \<Rightarrow> bool" where
  "same_meta m m' \<longleftrightarrow> m' = m\<lparr>m_ResourceVersion := m_ResourceVersion m'\<rparr>"

definition same_node :: "mcunode \<Rightarrow> mcunode \<Rightarrow> bool" where
  "same_node n n' \<longleftrightarrow> same_meta (n_Meta n) (n_Meta n') \<and> n_Spec n' = n_Spec n \<and>
     nst_IP (n_Status n') = nst_IP (n_Status n)"

definition steady :: "'w fleet \<Rightarrow> 'w \<Rightarrow> 'w \<Rightarrow> bool" where
  "steady V w w' \<longleftrightarrow> fl_dep V w' = fl_dep V w \<and> same_node (fl_node V w) (fl_node V w') \<and> fl_flash V w' = fl_flash V w"

text \<open>A patch that is accepted: the object is stored as sent, under a new resource version.\<close>

definition stored_as :: "'w fleet \<Rightarrow> 'w \<Rightarrow> mcudeployment \<Rightarrow> 'w \<Rightarrow> bool" where
  "stored_as V w d w' \<longleftrightarrow> same_meta (d_Meta d) (d_Meta (fl_dep V w')) \<and> d_Spec (fl_dep V w') = d_Spec d \<and>
     d_Status (fl_dep V w') = d_Status d \<and> same_node (fl_node V w) (fl_node V w') \<and> fl_flash V w' = fl_flash V w"

text \<open>
  The API server answers: reads return what is stored, the node is the one that fits and it is free, the
  token exists, the configuration, if the deployment names one, exists and is within the limits, patches of
  the deployment are accepted. A patch of the node status may fail.
\<close>

definition cluster_answers :: "'w ext \<Rightarrow> dep_reconciler \<Rightarrow> 'w fleet \<Rightarrow> obj_key \<Rightarrow> string \<Rightarrow> bool" where
  "cluster_answers E R V dkey tok \<longleftrightarrow>
     (\<forall>w. \<exists>w'. kGetDeployment E dkey w = (Inr (fl_dep V w), w') \<and> steady V w w') \<and>
     (\<forall>w. \<exists>w'. kGetNode E \<lparr>key_Namespace = d_Namespace (fl_dep V w), key_Name = n_Name (fl_node V w)\<rparr> w
        = (Inr (fl_node V w), w') \<and> steady V w w') \<and>
     (\<forall>w. \<exists>x w'. kGetSecret E (fst (nodeTokenRef R (fl_node V w))) w = (Inr x, w') \<and> steady V w w' \<and>
        sec_Data x (snd (nodeTokenRef R (fl_node V w))) = Some tok) \<and>
     (\<forall>w. ds_ConfigMapRef (d_Spec (fl_dep V w)) \<noteq> '''' \<longrightarrow>
        (\<exists>cm w'. kGetConfigMap E \<lparr>key_Namespace = d_Namespace (fl_dep V w),
           key_Name = ds_ConfigMapRef (d_Spec (fl_dep V w))\<rparr> w = (Inr cm, w') \<and> steady V w w' \<and> check_limits (cm_Data cm) = None)) \<and>
     (\<forall>w. \<exists>ns w'. kListNodes E (Some (d_Namespace (fl_dep V w))) w = (Inr ns, w') \<and> steady V w w' \<and>
        candidates (fl_dep V w) ns = [fl_node V w]) \<and>
     (\<forall>w. \<exists>ds w'. kListDeployments E (d_Namespace (fl_dep V w)) w = (Inr ds, w') \<and> steady V w w' \<and>
        first_busy (d_Name (fl_dep V w)) (n_Name (fl_node V w)) ds = None) \<and>
     (\<forall>w v. \<exists>w'. kPatchDeployment E (fl_dep V w) (set_confirming_since v (fl_dep V w)) w = (Inr (fl_dep V w'), w') \<and>
        stored_as V w (set_confirming_since v (fl_dep V w)) w') \<and>
     (\<forall>w d. d_Meta d = d_Meta (fl_dep V w) \<longrightarrow> d_Spec d = d_Spec (fl_dep V w) \<longrightarrow>
        (\<exists>w'. kPatchDeploymentStatus E (fl_dep V w) d w = (Inr (fl_dep V w'), w') \<and> stored_as V w d w')) \<and>
     (\<forall>w b n r w'. same_node b n \<longrightarrow> kPatchNodeStatus E False b n w = (r, w') \<longrightarrow>
        steady V w w' \<and> (\<forall>n'. r = Inr n' \<longrightarrow> same_node n n')) \<and>
     (\<forall>w. steady V w (snd (tNow E w)))"

text \<open>The registry serves a manifest that resolves to \<open>meta\<close>, and the blob with that size and digest.\<close>

definition manifest_url :: "ref \<Rightarrow> string" where
  "manifest_url r = scheme (ref_registry r) @ ''://'' @ ref_registry r @ ''/v2/'' @ ref_repo r @ ''/manifests/'' @ ref_tag r"

definition blob_url :: "ref \<Rightarrow> string \<Rightarrow> string" where
  "blob_url r dg = scheme (ref_registry r) @ ''://'' @ ref_registry r @ ''/v2/'' @ ref_repo r @ ''/blobs/'' @ dg"

definition registry_serves ::
  "'w ext \<Rightarrow> oci_client \<Rightarrow> 'w fleet \<Rightarrow> string \<Rightarrow> firmware_meta \<Rightarrow> string \<Rightarrow> bool" where
  "registry_serves E oc V img meta content \<longleftrightarrow>
     (\<exists>r. parseRef img = Inr r \<and> hNewRequest E ''GET'' (manifest_url r) = None \<and>
        hNewRequest E ''GET'' (blob_url r (fm_Digest meta)) = None \<and>
        (\<forall>w hs. \<exists>rs m w'. hDo E (oci_get (manifest_url r) hs) w = (Inr rs, w') \<and> steady V w w' \<and>
           rs_StatusCode rs = 200 \<and> jManifest E (rs_Body rs) = Inr m \<and> resolve_manifest E oc img m = Inr meta) \<and>
        (\<forall>w hs. \<exists>rs w'. hDo E (oci_get (blob_url r (fm_Digest meta)) hs) w = (Inr rs, w') \<and> steady V w w' \<and>
           rs_StatusCode rs = 200 \<and> body_content (rs_Body rs) = content)) \<and>
     0 < fm_Size meta \<and> fm_Size meta < 2 ^ 63 - 65536 \<and> length content = nat (fm_Size meta) \<and>
     ''sha256:'' @ xSHA256Hex E content = fm_Digest meta"

text \<open>
  The device answers every request with 200 and a body that can be decoded, speaks the version of the API,
  accepts the image, follows the transfer protocol, and says that it holds this deployment's image only if
  it does. Preparing a new image may erase what it held.
\<close>

definition good_answer ::
  "'w ext \<Rightarrow> 'w fleet \<Rightarrow> string \<Rightarrow> firmware_meta \<Rightarrow> string \<Rightarrow> string \<Rightarrow> string \<Rightarrow> 'w \<Rightarrow> http_response \<Rightarrow> 'w \<Rightarrow> bool" where
  "good_answer E V depl meta content m p w rs w' \<longleftrightarrow>
     rs_StatusCode rs = 200 \<and> fl_dep V w' = fl_dep V w \<and> same_node (fl_node V w) (fl_node V w') \<and>
     (p \<noteq> ''/ota/prepare'' \<longrightarrow> fl_flash V w' = fl_flash V w) \<and>
     (m = ''GET'' \<and> p = ''/info'' \<longrightarrow> (\<exists>info v. jInfo E (rs_Body rs) = Inr info \<and>
        NegotiateAPIVersion (ir_ApiVersions info) = Inr v \<and>
        (ir_StagedDeploymentID info = depl \<and> (ir_StagedState info = ''activating'' \<or>
           ir_StagedState info = ''written'' \<and> ir_StagedDigest info = fm_Digest meta) \<longrightarrow> fl_flash V w = content))) \<and>
     (m = ''POST'' \<and> p = ''/ota/prepare'' \<longrightarrow> (\<exists>x. jPrepare E (rs_Body rs) = Inr x \<and> pr_Accepted x)) \<and>
     (m = ''GET'' \<and> p = ''/config'' \<longrightarrow> (\<exists>c. jConfig E (rs_Body rs) = Inr c))"

definition device_follows ::
  "'w ext \<Rightarrow> agent_client \<Rightarrow> 'w fleet \<Rightarrow> string \<Rightarrow> firmware_meta \<Rightarrow> string \<Rightarrow> bool" where
  "device_follows E cli V depl meta content \<longleftrightarrow>
     (\<forall>m p. hNewRequest E m (ac_baseURL cli @ apiPrefix @ p) = None) \<and>
     device_law E cli depl (fm_Digest meta) (fm_Size meta) (fl_flash V) \<and>
     accepts_aligned E cli depl (fm_Digest meta) (fm_Size meta) (fl_flash V) \<and>
     (\<forall>o1 fin bytes w r w'. hDo E (ota_request cli depl (fm_Digest meta) o1 fin (fm_Size meta) bytes) w = (r, w') \<longrightarrow>
        fl_dep V w' = fl_dep V w \<and> same_node (fl_node V w) (fl_node V w')) \<and>
     (\<forall>w m p b hs. \<exists>rs w'. hDo E (agent_request cli False m p b (-1) hs) w = (Inr rs, w') \<and>
        good_answer E V depl meta content m p w rs w')"

text \<open>
  Where an update stands: from Pulling on the deployment is bound to the node, from Preparing on it has the
  digest and size of the image, from Activating on the device holds the image.
\<close>

definition on_track ::
  "'w fleet \<Rightarrow> agent_client \<Rightarrow> string \<Rightarrow> string \<Rightarrow> string \<Rightarrow> firmware_meta \<Rightarrow> string \<Rightarrow> 'w \<Rightarrow> bool" where
  "on_track V cli tok img depl meta content w \<longleftrightarrow>
     (let d = fl_dep V w; n = fl_node V w; st = d_Status d; p = rank (dst_Phase st) in
      p \<le> 5 \<and> nst_IP (n_Status n) \<noteq> '''' \<and> agent_New (nst_IP (n_Status n)) (trimSpace tok) = cli \<and>
      fw_Image (ds_Firmware (d_Spec d)) = img \<and>
      (if dst_DeploymentID st = '''' then m_UID (d_Meta d) else dst_DeploymentID st) = depl \<and>
      (1 \<le> p \<longrightarrow> dst_BoundNode st = n_Name n) \<and>
      (2 \<le> p \<longrightarrow> dst_DeploymentID st = depl \<and> dst_Digest st = fm_Digest meta \<and> dst_Size st = fm_Size meta) \<and>
      (4 \<le> p \<longrightarrow> fl_flash V w = content))"

definition update_env ::
  "'w ext \<Rightarrow> dep_reconciler \<Rightarrow> 'w fleet \<Rightarrow> obj_key \<Rightarrow> agent_client \<Rightarrow> string \<Rightarrow> string \<Rightarrow> string \<Rightarrow> firmware_meta \<Rightarrow> string \<Rightarrow> bool" where
  "update_env E R V dkey cli tok img depl meta content \<longleftrightarrow>
     cluster_answers E R V dkey tok \<and> registry_serves E (dr_OCI R) V img meta content \<and>
     device_follows E cli V depl meta content"

text \<open>The runs of the reconciler one after the other.\<close>

fun reconcile_times :: "'w ext \<Rightarrow> dep_reconciler \<Rightarrow> obj_key \<Rightarrow> nat \<Rightarrow> 'w sys \<Rightarrow> 'w sys" where
  "reconcile_times E R key 0 s = s"
| "reconcile_times E R key (Suc n) s = reconcile_times E R key n (snd (run_state (Reconcile_deployment E R key) s))"

section \<open>Steady changes\<close>

lemma same_meta_sel:
  "same_meta m m' \<Longrightarrow> m_Name m' = m_Name m \<and> m_Namespace m' = m_Namespace m \<and> m_UID m' = m_UID m \<and>
     m_Annotations m' = m_Annotations m \<and> m_Labels m' = m_Labels m"
  unfolding same_meta_def by (cases m; cases m'; simp)

lemma same_meta_refl [simp]: "same_meta m m"
  by (simp add: same_meta_def)

lemma same_meta_trans: "same_meta m m1 \<Longrightarrow> same_meta m1 m2 \<Longrightarrow> same_meta m m2"
  unfolding same_meta_def by (cases m; cases m1; cases m2; simp)

lemma same_node_refl [simp]: "same_node n n"
  by (simp add: same_node_def)

lemma same_node_trans: "same_node n n1 \<Longrightarrow> same_node n1 n2 \<Longrightarrow> same_node n n2"
  by (auto simp: same_node_def intro: same_meta_trans)

lemma same_node_sel:
  "same_node n n' \<Longrightarrow> n_Name n' = n_Name n \<and> n_Namespace n' = n_Namespace n \<and> n_Spec n' = n_Spec n \<and>
     nst_IP (n_Status n') = nst_IP (n_Status n)"
  using same_meta_sel [of "n_Meta n" "n_Meta n'"] by (simp add: same_node_def)

lemma steady_refl [simp]: "steady V w w"
  by (simp add: steady_def)

lemma steady_trans: "steady V w w1 \<Longrightarrow> steady V w1 w2 \<Longrightarrow> steady V w w2"
  by (auto simp: steady_def intro: same_node_trans)

lemma steady_dep: "steady V w w' \<Longrightarrow> fl_dep V w' = fl_dep V w"
  by (simp add: steady_def)

lemma steady_track: "steady V w w' \<Longrightarrow> on_track V cli tok img depl meta content w \<Longrightarrow> on_track V cli tok img depl meta content w'"
  using same_node_sel [of "fl_node V w" "fl_node V w'"] by (auto simp: steady_def on_track_def Let_def)

section \<open>The operations in this world\<close>

lemma wp_ext_callI:
  "f (world s) = (r, w') \<Longrightarrow> Q r (s\<lparr>world := w', calls := calls s @ [(c, \<not> isl r)]\<rparr>) \<Longrightarrow> wp (ext_call c f) Q s"
  by (simp add: wp_simps)

lemma cluster_answersD:
  assumes "cluster_answers E R V dkey tok"
  shows "\<exists>w'. kGetDeployment E dkey w = (Inr (fl_dep V w), w') \<and> steady V w w'"
    "\<exists>w'. kGetNode E \<lparr>key_Namespace = d_Namespace (fl_dep V w), key_Name = n_Name (fl_node V w)\<rparr> w
        = (Inr (fl_node V w), w') \<and> steady V w w'"
    "\<exists>x w'. kGetSecret E (fst (nodeTokenRef R (fl_node V w))) w = (Inr x, w') \<and> steady V w w' \<and>
        sec_Data x (snd (nodeTokenRef R (fl_node V w))) = Some tok"
    "ds_ConfigMapRef (d_Spec (fl_dep V w)) \<noteq> '''' \<longrightarrow> (\<exists>cm w'. kGetConfigMap E \<lparr>key_Namespace = d_Namespace (fl_dep V w),
         key_Name = ds_ConfigMapRef (d_Spec (fl_dep V w))\<rparr> w = (Inr cm, w') \<and> steady V w w' \<and> check_limits (cm_Data cm) = None)"
    "\<exists>ns w'. kListNodes E (Some (d_Namespace (fl_dep V w))) w = (Inr ns, w') \<and> steady V w w' \<and>
        candidates (fl_dep V w) ns = [fl_node V w]"
    "\<exists>ds w'. kListDeployments E (d_Namespace (fl_dep V w)) w = (Inr ds, w') \<and> steady V w w' \<and>
        first_busy (d_Name (fl_dep V w)) (n_Name (fl_node V w)) ds = None"
    "steady V w (snd (tNow E w))"
  by (insert assms, unfold cluster_answers_def, (elim conjE, erule spec)+)

lemma cluster_patches:
  assumes "cluster_answers E R V dkey tok"
  shows "\<And>v. \<exists>w'. kPatchDeployment E (fl_dep V w) (set_confirming_since v (fl_dep V w)) w = (Inr (fl_dep V w'), w') \<and>
        stored_as V w (set_confirming_since v (fl_dep V w)) w'"
    "\<And>d. d_Meta d = d_Meta (fl_dep V w) \<Longrightarrow> d_Spec d = d_Spec (fl_dep V w) \<Longrightarrow>
      \<exists>w'. kPatchDeploymentStatus E (fl_dep V w) d w = (Inr (fl_dep V w'), w') \<and> stored_as V w d w'"
    "\<And>b n r w'. same_node b n \<Longrightarrow> kPatchNodeStatus E False b n w = (r, w') \<Longrightarrow>
      steady V w w' \<and> (\<forall>n'. r = Inr n' \<longrightarrow> same_node n n')"
  by (insert assms, unfold cluster_answers_def, (elim conjE, erule allE, erule (1) mp [OF mp] | (elim conjE, metis))+)

text \<open>The status patch that ends a run.\<close>

definition patched :: "'w fleet \<Rightarrow> 'w \<Rightarrow> mcudeployment_status \<Rightarrow> 'w \<Rightarrow> bool" where
  "patched V w st w' \<longleftrightarrow> d_Status (fl_dep V w') = st \<and> d_Spec (fl_dep V w') = d_Spec (fl_dep V w) \<and>
     m_UID (d_Meta (fl_dep V w')) = m_UID (d_Meta (fl_dep V w)) \<and>
     same_node (fl_node V w) (fl_node V w') \<and> fl_flash V w' = fl_flash V w"

lemma wp_status_patch:
  assumes env: "cluster_answers E R V dkey tok"
    and "fl_dep V (world s) = dep" "d_Meta d = d_Meta dep" "d_Spec d = d_Spec dep"
    and Q: "\<And>x t. patched V (world s) (d_Status d) (world t) \<Longrightarrow> Q (Inr x) t"
  shows "wp (patchDeploymentStatus E dep d) Q s"
proof -
  obtain w' where w: "kPatchDeploymentStatus E dep d (world s) = (Inr (fl_dep V w'), w')" "stored_as V (world s) d w'"
    using cluster_patches(2) [OF env, of d "world s"] assms(2-4) by blast
  then have "patched V (world s) (d_Status d) w'"
    using assms(2-4) same_meta_sel [of "d_Meta d" "d_Meta (fl_dep V w')"] by (simp add: stored_as_def patched_def)
  then show ?thesis by (intro wp_ext_callI [where f = "kPatchDeploymentStatus E dep d", OF w(1)] Q) simp
qed

lemma wp_setPhase_status:
  assumes "cluster_answers E R V dkey tok" "fl_dep V (world s) = dep"
    and "\<And>r t. patched V (world s) (d_Status (phased_dep E p bn msg dep)) (world t) \<Longrightarrow> Q r t"
  shows "wp (setPhase_status E dep p bn msg) Q s"
  unfolding setPhase_status_def wp_bind
  by (rule wp_status_patch [OF assms(1,2)]) (simp_all add: phased_dep_def [of E p bn msg dep] wp_simps assms(3) [unfolded phased_dep_def])

lemma wp_setPhase:
  fixes E :: "'a ext"
  assumes env: "cluster_answers E R V dkey tok" and dep: "fl_dep V (world s) = dep"
    and Q: "\<And>r t. patched V (world s) (d_Status (phased_dep E p bn msg dep)) (world t) \<Longrightarrow> Q r t"
  shows "wp (setPhase E dep p bn msg) Q s"
proof (cases "p = PhaseConfirming \<and> m_Annotations (d_Meta dep) annotationConfirmingSince = None")
  case True
  obtain t0 w0 where n: "tNow E (world s) = (t0, w0)" by (metis surj_pair)
  have st: "steady V (world s) w0" using cluster_answersD(7) [OF env, of "world s"] n by simp
  let ?d = "set_confirming_since (tFormat E t0) dep"
  obtain w1 where w1: "kPatchDeployment E dep ?d w0 = (Inr (fl_dep V w1), w1)" "stored_as V w0 ?d w1"
    using cluster_patches(1) [OF env, of w0 "tFormat E t0"] steady_dep [OF st] dep by auto
  have status: "wp (setPhase_status E (fl_dep V w1) p bn msg) Q u" if "world u = w1" for u
  proof (rule wp_setPhase_status [OF env])
    fix r and t :: "'a sys" assume p: "patched V (world u) (d_Status (phased_dep E p bn msg (fl_dep V w1))) (world t)"
    have "m_UID (d_Meta ?d) = m_UID (d_Meta dep)" "d_Spec ?d = d_Spec dep" "d_Status ?d = d_Status dep"
      by (simp_all add: set_confirming_since_def)
    with p that w1(2) st dep show "Q r t"
      using same_meta_sel [of "d_Meta ?d" "d_Meta (fl_dep V w1)"]
      by (intro Q) (auto simp: patched_def stored_as_def steady_def phased_dep_def intro: same_node_trans)
  qed (use that in simp)
  show ?thesis
    using True n w1(1) status unfolding setPhase_def by (simp add: wp_simps)
qed (auto simp: setPhase_def wp_simps intro: wp_setPhase_status [OF env dep] Q)

lemma wp_nodeClient:
  assumes env: "cluster_answers E R V dkey tok" and dep: "fl_dep V (world s) = dep"
    and n: "dst_BoundNode (d_Status dep) = n_Name (fl_node V (world s))"
    "nst_IP (n_Status (fl_node V (world s))) \<noteq> ''''"
    "agent_New (nst_IP (n_Status (fl_node V (world s)))) (trimSpace tok) = cli"
    and Q: "\<And>t. steady V (world s) (world t) \<Longrightarrow> Q (Inr (fl_node V (world s), cli)) t"
  shows "wp (nodeClient E R dep) Q s"
proof -
  let ?n = "fl_node V (world s)"
  obtain w1 where w1: "kGetNode E \<lparr>key_Namespace = d_Namespace dep, key_Name = n_Name ?n\<rparr> (world s) = (Inr ?n, w1)"
    and st1: "steady V (world s) w1"
    using cluster_answersD(2) [OF env, of "world s"] dep by auto
  have "nodeTokenRef R (fl_node V w1) = nodeTokenRef R ?n"
    using same_node_sel [of ?n "fl_node V w1"] st1 by (auto simp: nodeTokenRef_def steady_def Let_def)
  with cluster_answersD(3) [OF env, of w1] obtain x w2
    where w2: "kGetSecret E (fst (nodeTokenRef R ?n)) w1 = (Inr x, w2)" and st2: "steady V w1 w2"
      and x: "sec_Data x (snd (nodeTokenRef R ?n)) = Some tok" by auto
  have "steady V (world s) w2" using st1 st2 by (rule steady_trans)
  moreover obtain key field where "nodeTokenRef R ?n = (key, field)" by (metis surj_pair)
  ultimately show ?thesis
    using w1 w2 x n Q by (simp add: nodeClient_def nodeToken_def wp_simps)
qed

lemma device_followsD:
  assumes "device_follows E cli V depl meta content"
  shows "hNewRequest E m (ac_baseURL cli @ apiPrefix @ p) = None"
    "\<exists>rs w'. hDo E (agent_request cli False m p b (-1) hs) w = (Inr rs, w') \<and> good_answer E V depl meta content m p w rs w'"
  using assms unfolding device_follows_def by blast+

lemma wp_GetInfo:
  assumes dev: "device_follows E cli V depl meta content"
    and Q: "\<And>info v t. steady V (world s) (world t) \<Longrightarrow> NegotiateAPIVersion (ir_ApiVersions info) = Inr v \<Longrightarrow>
      (ir_StagedDeploymentID info = depl \<and> (ir_StagedState info = ''activating'' \<or>
        ir_StagedState info = ''written'' \<and> ir_StagedDigest info = fm_Digest meta) \<Longrightarrow> fl_flash V (world t) = content) \<Longrightarrow>
      Q (Inr info) t"
  shows "wp (GetInfo E cli) Q s"
proof -
  obtain rs w' info v where h: "hDo E (agent_request cli False ''GET'' ''/info'' BNone (-1) []) (world s) = (Inr rs, w')"
    "rs_StatusCode rs = 200" "jInfo E (rs_Body rs) = Inr info" and st: "steady V (world s) w'"
    and i: "NegotiateAPIVersion (ir_ApiVersions info) = Inr v"
      "ir_StagedDeploymentID info = depl \<and> (ir_StagedState info = ''activating'' \<or>
        ir_StagedState info = ''written'' \<and> ir_StagedDigest info = fm_Digest meta) \<longrightarrow> fl_flash V (world s) = content"
    using device_followsD(2) [OF dev, of "''GET''" "''/info''" BNone "[]" "world s"]
    by (auto simp: steady_def good_answer_def)
  have "fl_flash V w' = fl_flash V (world s)" using st by (simp add: steady_def)
  with h i st device_followsD(1) [OF dev] show ?thesis
    by (simp add: GetInfo_def agent_do_def wp_simps Q)
qed

lemma wp_OTAPrepare:
  assumes dev: "device_follows E cli V depl meta content"
    and Q: "\<And>x t. pr_Accepted x \<Longrightarrow> fl_dep V (world t) = fl_dep V (world s) \<Longrightarrow>
      same_node (fl_node V (world s)) (fl_node V (world t)) \<Longrightarrow> Q (Inr x) t"
  shows "wp (OTAPrepare E cli req) Q s"
proof -
  obtain rs w' x where "hDo E (agent_request cli False ''POST'' ''/ota/prepare'' (BJson (prepare_json req)) (-1) json_header) (world s) = (Inr rs, w')"
    "rs_StatusCode rs = 200" "jPrepare E (rs_Body rs) = Inr x" "pr_Accepted x"
    "fl_dep V w' = fl_dep V (world s)" "same_node (fl_node V (world s)) (fl_node V w')"
    using device_followsD(2) [OF dev, of "''POST''" "''/ota/prepare''" "BJson (prepare_json req)" json_header "world s"]
    by (auto simp: good_answer_def)
  with device_followsD(1) [OF dev] show ?thesis
    by (simp add: OTAPrepare_def agent_do_def wp_simps Q)
qed

lemma wp_device_post:
  assumes dev: "device_follows E cli V depl meta content" and "p \<noteq> ''/ota/prepare''"
    and Q: "\<And>rs t. rs_StatusCode rs = 200 \<Longrightarrow> steady V (world s) (world t) \<Longrightarrow> Q (Inr rs) t"
  shows "wp (agent_do E cli m p b hs) Q s"
proof -
  obtain rs w' where "hDo E (agent_request cli False m p b (-1) hs) (world s) = (Inr rs, w')"
    "rs_StatusCode rs = 200" "steady V (world s) w'"
    using device_followsD(2) [OF dev, of m p b hs "world s"] assms(2) by (auto simp: steady_def good_answer_def)
  with device_followsD(1) [OF dev] show ?thesis
    by (simp add: agent_do_def wp_simps Q)
qed

lemma wp_OTAActivate:
  assumes "device_follows E cli V depl meta content" "\<And>t. steady V (world s) (world t) \<Longrightarrow> Q (Inr ()) t"
  shows "wp (OTAActivate E cli d) Q s"
  unfolding OTAActivate_def wp_bind by (rule wp_device_post [OF assms(1)]) (simp_all add: wp_simps assms(2))

lemma wp_PostConfig:
  assumes "device_follows E cli V depl meta content" "\<And>t. steady V (world s) (world t) \<Longrightarrow> Q (Inr ()) t"
  shows "wp (PostConfig E cli data) Q s"
  unfolding PostConfig_def wp_bind by (rule wp_device_post [OF assms(1)]) (simp_all add: wp_simps assms(2))

lemma wp_GetConfig:
  assumes dev: "device_follows E cli V depl meta content" and Q: "\<And>c t. steady V (world s) (world t) \<Longrightarrow> Q (Inr c) t"
  shows "wp (GetConfig E cli) Q s"
proof -
  obtain rs w' c where "hDo E (agent_request cli False ''GET'' ''/config'' BNone (-1) []) (world s) = (Inr rs, w')"
    "rs_StatusCode rs = 200" "jConfig E (rs_Body rs) = Inr c" "steady V (world s) w'"
    using device_followsD(2) [OF dev, of "''GET''" "''/config''" BNone "[]" "world s"]
    by (auto simp: steady_def good_answer_def)
  with device_followsD(1) [OF dev] show ?thesis
    by (simp add: GetConfig_def agent_do_def wp_simps Q)
qed

lemma wp_persistNodeInfo:
  assumes env: "cluster_answers E R V dkey tok" and v: "NegotiateAPIVersion (ir_ApiVersions info) = Inr v"
    and Q: "\<And>n' t. same_node n n' \<Longrightarrow> steady V (world s) (world t) \<Longrightarrow> Q (None, n') t"
  shows "wp (persistNodeInfo E n info) Q s"
proof -
  let ?n1 = "node_info_update info v n"
  have n1: "same_node n ?n1" by (simp add: same_node_def node_info_update_def Let_def)
  obtain r w' where p: "kPatchNodeStatus E False n ?n1 (world s) = (r, w')" by (metis surj_pair)
  from cluster_patches(3) [OF env n1 p] have "steady V (world s) w'" "\<And>n'. r = Inr n' \<Longrightarrow> same_node n n'"
    using n1 same_node_trans by blast+
  with p v n1 show ?thesis
    by (cases r) (simp_all add: persistNodeInfo_def wp_simps Let_def err_of_def Q)
qed

lemma wp_pushConfig:
  assumes env: "cluster_answers E R V dkey tok" and dev: "device_follows E cli V depl meta content"
    and dep: "fl_dep V (world s) = dep" "ds_ConfigMapRef (d_Spec dep) \<noteq> ''''"
    and Q: "\<And>b t. steady V (world s) (world t) \<Longrightarrow> Q (Inr b) t"
  shows "wp (pushConfigIfNeeded E cli dep) Q s"
proof -
  obtain cm w' where c: "kGetConfigMap E \<lparr>key_Namespace = d_Namespace dep, key_Name = ds_ConfigMapRef (d_Spec dep)\<rparr> (world s) = (Inr cm, w')"
    "check_limits (cm_Data cm) = None" and st: "steady V (world s) w'"
    using cluster_answersD(4) [OF env, of "world s"] dep by auto
  have get: "wp (GetConfig E cli) P u" if "\<And>c t. steady V (world u) (world t) \<Longrightarrow> P (Inr c) t" for P u
    using that by (rule wp_GetConfig [OF dev])
  have post: "wp (PostConfig E cli data) P u" if "\<And>t. steady V (world u) (world t) \<Longrightarrow> P (Inr ()) t" for data P u
    using that by (rule wp_PostConfig [OF dev])
  show ?thesis
    using st by (auto simp: pushConfigIfNeeded_def wp_simps c Let_def intro!: get post Q split: prod.splits)
      (meson steady_trans)+
qed

lemma wp_ResolveFirmware:
  assumes reg: "registry_serves E oc V img meta content"
    and Q: "\<And>t. steady V (world s) (world t) \<Longrightarrow> Q (Inr meta) t"
  shows "wp (ResolveFirmware E oc img) Q s"
proof -
  obtain r where r: "parseRef img = Inr r" "hNewRequest E ''GET'' (manifest_url r) = None"
    and h: "\<And>w hs. \<exists>rs m w'. hDo E (oci_get (manifest_url r) hs) w = (Inr rs, w') \<and> steady V w w' \<and>
       rs_StatusCode rs = 200 \<and> jManifest E (rs_Body rs) = Inr m \<and> resolve_manifest E oc img m = Inr meta"
    using reg unfolding registry_serves_def by blast
  let ?hs = "(''Accept'', mediaTypeOCIManifest @ '', '' @ mediaTypeOCIArtifact @ '', '' @ mediaTypeDocker2) # oci_auth E oc"
  obtain rs m w' where "hDo E (oci_get (manifest_url r) ?hs) (world s) = (Inr rs, w')" "steady V (world s) w'"
       "rs_StatusCode rs = 200" "jManifest E (rs_Body rs) = Inr m" "resolve_manifest E oc img m = Inr meta"
    using h by blast
  with r Q show ?thesis
    by (simp add: ResolveFirmware_def getManifest_def wp_simps Let_def manifest_url_def)
qed

lemma wp_StreamBlob:
  assumes reg: "registry_serves E oc V img meta content"
    and Q: "\<And>b t. steady V (world s) (world t) \<Longrightarrow> bs_rest b = content \<Longrightarrow> blob_inv E content b \<Longrightarrow>
      bs_wantDigest b = fm_Digest meta \<Longrightarrow> Q (Inr b) t"
  shows "wp (StreamBlob E oc img (fm_Digest meta)) Q s"
proof -
  obtain r where r: "parseRef img = Inr r" "hNewRequest E ''GET'' (blob_url r (fm_Digest meta)) = None"
    and h: "\<And>w hs. \<exists>rs w'. hDo E (oci_get (blob_url r (fm_Digest meta)) hs) w = (Inr rs, w') \<and> steady V w w' \<and>
       rs_StatusCode rs = 200 \<and> body_content (rs_Body rs) = content"
    using reg unfolding registry_serves_def by blast
  obtain rs w' where "hDo E (oci_get (blob_url r (fm_Digest meta)) (oci_auth E oc)) (world s) = (Inr rs, w')"
    "steady V (world s) w'" "rs_StatusCode rs = 200" "body_content (rs_Body rs) = content"
    using h by blast
  with r show ?thesis
    by (simp add: StreamBlob_def wp_simps Let_def blob_url_def) (intro Q, simp_all add: bs_rest_def blob_inv_def)
qed

text \<open>The whole transfer: it returns no error, sees no mismatch, and the device holds the image.\<close>

lemma wp_OTAWrite:
  assumes dev: "device_follows E cli V depl meta content" and reg: "registry_serves E oc V img meta content"
    and b: "bs_rest b = content" "blob_inv E content b" "bs_wantDigest b = fm_Digest meta"
    and Q: "\<And>b' t. blob_Err b' = None \<Longrightarrow> fl_dep V (world t) = fl_dep V (world s) \<Longrightarrow>
      same_node (fl_node V (world s)) (fl_node V (world t)) \<Longrightarrow> fl_flash V (world t) = content \<Longrightarrow> Q (None, b') t"
  shows "wp (OTAWrite E cli depl (fm_Digest meta) (fm_Size meta) b) Q s"
proof -
  let ?W = "OTAWrite_loop E cli depl (fm_Digest meta) (fm_Size meta) 0 b"
  note sz = reg [unfolded registry_serves_def, THEN conjunct2]
  have law: "device_law E cli depl (fm_Digest meta) (fm_Size meta) (fl_flash V)"
    and acc: "accepts_aligned E cli depl (fm_Digest meta) (fm_Size meta) (fl_flash V)"
    using dev by (simp_all add: device_follows_def)
  have len: "nat (fm_Size meta) \<le> length content" and full: "take (nat (fm_Size meta)) content = content" using sz by simp_all
  have none: "wp ?W (\<lambda>r t. fst r = None) s"
    by (rule OTAWrite_loop_live [OF law acc order_refl _ _ len]) (use sz b in simp_all)
  have stored: "wp ?W (\<lambda>r t. fst r = None \<longrightarrow> fl_flash V (world t) = take (nat (fm_Size meta)) content) s"
    by (rule OTAWrite_loop_stores [OF law order_refl]) (use sz b in simp_all)
  have keeps: "wp ?W (\<lambda>r t. fl_dep V (world t) = fl_dep V (world s) \<and> same_node (fl_node V (world s)) (fl_node V (world t))) s"
  proof (rule OTAWrite_loop_keeps)
    fix o1 fin bytes w assume "fl_dep V w = fl_dep V (world s) \<and> same_node (fl_node V (world s)) (fl_node V w)"
    moreover obtain r w' where "hDo E (ota_request cli depl (fm_Digest meta) o1 fin (fm_Size meta) bytes) w = (r, w')" by (metis surj_pair)
    ultimately show "fl_dep V (snd (hDo E (ota_request cli depl (fm_Digest meta) o1 fin (fm_Size meta) bytes) w)) = fl_dep V (world s) \<and>
        same_node (fl_node V (world s)) (fl_node V (snd (hDo E (ota_request cli depl (fm_Digest meta) o1 fin (fm_Size meta) bytes) w)))"
      using dev same_node_trans unfolding device_follows_def by (metis snd_conv)
  qed simp
  have seen: "wp ?W (\<lambda>r t. fst r = None \<longrightarrow> (blob_inv E content (snd r) \<and> bs_wantDigest (snd r) = fm_Digest meta) \<and>
      bs_rest (snd r) = drop (nat (fm_Size meta)) content \<and> nat (fm_Size meta) \<le> length content) s"
  proof (rule OTAWrite_loop_stream)
    fix want b out b' assume "readFull E want [] b = ((out, None), b')" "blob_inv E content b \<and> bs_wantDigest b = fm_Digest meta"
    then show "blob_inv E content b' \<and> bs_wantDigest b' = fm_Digest meta"
      using readFull_inv [of E content b want "[]"] readFull_wantDigest [of E want "[]" b] by simp
  qed (use sz b in simp_all)
  have all: "wp ?W (\<lambda>r t. fst r = None \<and> fl_flash V (world t) = content \<and> fl_dep V (world t) = fl_dep V (world s) \<and>
      same_node (fl_node V (world s)) (fl_node V (world t)) \<and> blob_Err (snd r) = None) s"
    using none stored keeps seen sz full unfolding wp_def by (auto simp: blob_inv_def blob_Err_def split: prod.splits)
  show ?thesis
    unfolding OTAWrite_def by (rule wp_conseq [OF all]) (metis Q prod.collapse)
qed

section \<open>Every run advances\<close>

text \<open>What the status patch at the end of a run has to say for the update to stay on track.\<close>

lemma patched_track:
  assumes "on_track V cli tok img depl meta content w" "patched V w st w'" "rank (dst_Phase st) \<le> 5"
    and "dst_BoundNode st = n_Name (fl_node V w)"
    and "dst_DeploymentID st = dst_DeploymentID (d_Status (fl_dep V w)) \<or> dst_DeploymentID st = depl"
    and "2 \<le> rank (dst_Phase st) \<Longrightarrow> dst_DeploymentID st = depl \<and> dst_Digest st = fm_Digest meta \<and> dst_Size st = fm_Size meta"
    and "4 \<le> rank (dst_Phase st) \<Longrightarrow> fl_flash V w = content"
  shows "on_track V cli tok img depl meta content w'"
  using assms same_node_sel [of "fl_node V w" "fl_node V w'"]
  by (auto simp: on_track_def patched_def Let_def split: if_splits)

lemma phased_fields [simp]:
  "dst_Phase (d_Status (phased_dep E p bn msg d)) = p" "dst_BoundNode (d_Status (phased_dep E p bn msg d)) = bn"
  "dst_DeploymentID (d_Status (phased_dep E p bn msg d)) = dst_DeploymentID (d_Status d)"
  "dst_Digest (d_Status (phased_dep E p bn msg d)) = dst_Digest (d_Status d)"
  "dst_Size (d_Status (phased_dep E p bn msg d)) = dst_Size (d_Status d)"
  by (simp_all add: phased_dep_def)

definition advances ::
  "'w fleet \<Rightarrow> agent_client \<Rightarrow> string \<Rightarrow> string \<Rightarrow> string \<Rightarrow> firmware_meta \<Rightarrow> string \<Rightarrow> 'w \<Rightarrow> 'w \<Rightarrow> bool" where
  "advances V cli tok img depl meta content w w' \<longleftrightarrow> on_track V cli tok img depl meta content w' \<and>
     rank (dst_Phase (d_Status (fl_dep V w))) < rank (dst_Phase (d_Status (fl_dep V w')))"

lemma setPhase_advances:
  fixes E :: "'a ext"
  assumes env: "cluster_answers E R V dkey tok" and tr: "on_track V cli tok img depl meta content (world s)"
    and dep: "fl_dep V (world s) = dep" and bn: "bn = n_Name (fl_node V (world s))"
    and up: "rank (dst_Phase (d_Status dep)) < rank p" "rank p \<le> 5"
    and pulled: "2 \<le> rank p \<Longrightarrow> 2 \<le> rank (dst_Phase (d_Status dep))"
    and flash: "4 \<le> rank p \<Longrightarrow> fl_flash V (world s) = content"
  shows "wp (setPhase E dep p bn msg) (\<lambda>_ t. on_track V cli tok img depl meta content (world t) \<and>
      dst_Phase (d_Status (fl_dep V (world t))) = p) s"
proof (rule wp_setPhase [OF env dep])
  fix t :: "'a sys" assume pt: "patched V (world s) (d_Status (phased_dep E p bn msg dep)) (world t)"
  have "on_track V cli tok img depl meta content (world t)"
    by (rule patched_track [OF tr pt]) (use tr dep bn up pulled flash in \<open>auto simp: on_track_def Let_def\<close>)
  with pt show "on_track V cli tok img depl meta content (world t) \<and> dst_Phase (d_Status (fl_dep V (world t))) = p"
    by (simp add: patched_def)
qed

lemma phaseBinding_advances:
  assumes env: "cluster_answers E R V dkey tok" and tr: "on_track V cli tok img depl meta content (world s)"
    and dep: "fl_dep V (world s) = dep" and p: "rank (dst_Phase (d_Status dep)) = 0"
  shows "wp (phaseBinding E dep) (\<lambda>_ t. on_track V cli tok img depl meta content (world t) \<and>
      dst_Phase (d_Status (fl_dep V (world t))) = PhasePulling) s"
proof -
  obtain ns w1 where l: "kListNodes E (Some (d_Namespace dep)) (world s) = (Inr ns, w1)" "candidates dep ns = [fl_node V (world s)]"
    and st1: "steady V (world s) w1"
    using cluster_answersD(5) [OF env, of "world s"] dep by auto
  have n1: "n_Name (fl_node V w1) = n_Name (fl_node V (world s))"
    using st1 same_node_sel by (auto simp: steady_def)
  obtain ds w2 where b: "kListDeployments E (d_Namespace dep) w1 = (Inr ds, w2)"
    "first_busy (d_Name dep) (n_Name (fl_node V (world s))) ds = None" and st2: "steady V w1 w2"
    using cluster_answersD(6) [OF env, of w1] dep steady_dep [OF st1] n1 by auto
  note st = steady_trans [OF st1 st2]
  have "wp (setPhase E dep PhasePulling (n_Name (fl_node V (world s))) '''')
      (\<lambda>_ t. on_track V cli tok img depl meta content (world t) \<and> dst_Phase (d_Status (fl_dep V (world t))) = PhasePulling) u"
    if "world u = w2" for u
    by (rule setPhase_advances [OF env])
      (use that p steady_track [OF st tr] steady_dep [OF st] dep st same_node_sel in \<open>auto simp: steady_def\<close>)
  then show ?thesis
    by (simp add: phaseBinding_def checkNotBusy_def wp_simps l b)
qed

lemma phasePulling_advances:
  fixes E :: "'a ext"
  assumes env: "cluster_answers E R V dkey tok" and reg: "registry_serves E (dr_OCI R) V img meta content"
    and tr: "on_track V cli tok img depl meta content (world s)"
    and dep: "fl_dep V (world s) = dep" and p: "dst_Phase (d_Status dep) = PhasePulling"
  shows "wp (phasePulling E R dep) (\<lambda>_ t. on_track V cli tok img depl meta content (world t) \<and>
      dst_Phase (d_Status (fl_dep V (world t))) = PhasePreparing) s"
proof -
  have img: "fw_Image (ds_Firmware (d_Spec dep)) = img" using tr dep by (simp add: on_track_def Let_def)
  let ?ok = "\<lambda>_ t. on_track V cli tok img depl meta content (world t) \<and> dst_Phase (d_Status (fl_dep V (world t))) = PhasePreparing"
  have "wp (patchDeploymentStatus E dep (pulled_status E dep meta))
      (\<lambda>r. wp (case r of Inl err \<Rightarrow> ret (Inl err) | Inr _ \<Rightarrow> ret (Inr res_requeue)) ?ok) u"
    if st: "steady V (world s) (world u)" for u
  proof (rule wp_status_patch [OF env])
    fix x and t :: "'a sys" assume pt: "patched V (world u) (d_Status (pulled_status E dep meta)) (world t)"
    have tru: "on_track V cli tok img depl meta content (world u)" by (rule steady_track [OF st tr])
    have "on_track V cli tok img depl meta content (world t)"
      by (rule patched_track [OF tru pt])
        (use tru steady_dep [OF st] dep p in \<open>auto simp: on_track_def Let_def pulled_status_def\<close>)
    with pt show "wp (case Inr x of Inl err \<Rightarrow> ret (Inl err) | Inr _ \<Rightarrow> ret (Inr res_requeue)) ?ok t"
      by (simp add: patched_def wp_simps)
  qed (use st dep in \<open>simp_all add: steady_dep pulled_status_def\<close>)
  then show ?thesis
    unfolding phasePulling_def img wp_bind by (intro wp_ResolveFirmware [OF reg]) (simp add: wp_bind)
qed

lemma same_meta_sym: "same_meta m m' \<Longrightarrow> same_meta m' m"
  unfolding same_meta_def by (cases m; cases m'; simp)

lemma same_node_sym: "same_node n n' \<Longrightarrow> same_node n' n"
  by (auto simp: same_node_def intro: same_meta_sym)

text \<open>The client the handlers build is the one of the device.\<close>

lemma wp_nodeClient_track:
  fixes E :: "'a ext"
  assumes env: "cluster_answers E R V dkey tok" and tr: "on_track V cli tok img depl meta content (world s)"
    and dep: "fl_dep V (world s) = dep" and p: "1 \<le> rank (dst_Phase (d_Status dep))"
    and Q: "\<And>node t. steady V (world s) (world t) \<Longrightarrow> same_node (fl_node V (world t)) node \<Longrightarrow> Q (Inr (node, cli)) t"
  shows "wp (nodeClient E R dep) Q s"
proof (rule wp_nodeClient [OF env dep])
  fix t :: "'a sys" assume st: "steady V (world s) (world t)"
  then show "Q (Inr (fl_node V (world s), cli)) t"
    by (intro Q) (auto simp: steady_def intro: same_node_sym)
qed (use tr dep p in \<open>auto simp: on_track_def Let_def\<close>)

text \<open>A moment of a run before its patch: nothing has changed yet, and \<open>node\<close> is a copy of the node.\<close>

definition before_patch ::
  "'w fleet \<Rightarrow> agent_client \<Rightarrow> string \<Rightarrow> string \<Rightarrow> string \<Rightarrow> firmware_meta \<Rightarrow> string \<Rightarrow> mcudeployment \<Rightarrow> mcunode \<Rightarrow> 'w \<Rightarrow> bool" where
  "before_patch V cli tok img depl meta content dep node w \<longleftrightarrow>
     on_track V cli tok img depl meta content w \<and> fl_dep V w = dep \<and> same_node (fl_node V w) node"

lemma before_patch_steady:
  "before_patch V cli tok img depl meta content dep node w \<Longrightarrow> steady V w w' \<Longrightarrow>
     before_patch V cli tok img depl meta content dep node w'"
  using steady_track [of V w w' cli tok img depl meta content]
  by (auto simp: before_patch_def steady_def intro: same_node_sym same_node_trans)

lemma before_patch_node:
  "before_patch V cli tok img depl meta content dep node w \<Longrightarrow> same_node node n' \<Longrightarrow>
     before_patch V cli tok img depl meta content dep n' w"
  by (auto simp: before_patch_def intro: same_node_trans)

lemma before_patch_flash:
  "before_patch V cli tok img depl meta content dep node w \<Longrightarrow> rank (dst_Phase (d_Status dep)) < 4 \<Longrightarrow>
     fl_dep V w' = fl_dep V w \<Longrightarrow> same_node (fl_node V w) (fl_node V w') \<Longrightarrow>
     before_patch V cli tok img depl meta content dep node w'"
  using same_node_sel [of "fl_node V w" "fl_node V w'"]
  by (auto simp: before_patch_def on_track_def Let_def intro: same_node_sym same_node_trans)

lemma setPhase_before:
  assumes "cluster_answers E R V dkey tok" "before_patch V cli tok img depl meta content dep node (world s)"
    and "bn = n_Name node" "rank (dst_Phase (d_Status dep)) < rank p" "rank p \<le> 5"
    and "2 \<le> rank (dst_Phase (d_Status dep))" "rank p = 3 \<or> fl_flash V (world s) = content"
  shows "wp (setPhase E dep p bn msg) (\<lambda>_ t. on_track V cli tok img depl meta content (world t) \<and>
      rank (dst_Phase (d_Status dep)) < rank (dst_Phase (d_Status (fl_dep V (world t))))) s"
  by (rule wp_conseq [OF setPhase_advances [OF assms(1)]])
    (use assms same_node_sel [of "fl_node V (world s)" node] in \<open>auto simp: before_patch_def\<close>)

lemma prepare_device_advances:
  fixes E :: "'a ext"
  assumes env: "cluster_answers E R V dkey tok" and dev: "device_follows E cli V depl meta content"
    and b: "before_patch V cli tok img depl meta content dep node (world s)"
    and p: "dst_Phase (d_Status dep) = PhasePreparing"
  shows "wp (prepare_device E dep node cli) (\<lambda>_ t. on_track V cli tok img depl meta content (world t) \<and>
      rank (dst_Phase (d_Status dep)) < rank (dst_Phase (d_Status (fl_dep V (world t))))) s"
    (is "wp _ ?ok s")
proof -
  have id: "dst_DeploymentID (d_Status dep) = depl" "dst_Digest (d_Status dep) = fm_Digest meta"
    using b p by (auto simp: before_patch_def on_track_def Let_def)
  show ?thesis
    unfolding prepare_device_def wp_bind
  proof (rule wp_GetInfo [OF dev], unfold sum.case wp_bind, rule wp_persistNodeInfo [OF env], assumption)
    fix info v t n' and u :: "'a sys"
    assume st: "steady V (world s) (world t)" "steady V (world t) (world u)" and n': "same_node node n'"
      and honest: "ir_StagedDeploymentID info = depl \<and> (ir_StagedState info = ''activating'' \<or>
        ir_StagedState info = ''written'' \<and> ir_StagedDigest info = fm_Digest meta) \<Longrightarrow> fl_flash V (world t) = content"
    have bu: "before_patch V cli tok img depl meta content dep n' (world u)"
      using b st n' by (blast intro: before_patch_steady before_patch_node)
    have flash: "fl_flash V (world u) = fl_flash V (world t)" using st(2) by (simp add: steady_def)
    have prep: "wp (OTAPrepare E cli req) Q u"
      if "\<And>x z. pr_Accepted x \<Longrightarrow> before_patch V cli tok img depl meta content dep n' (world z) \<Longrightarrow> Q (Inr x) z" for req Q
      by (rule wp_OTAPrepare [OF dev]) (use that before_patch_flash [OF bu] p in auto)
    have writing: "wp (setPhase E dep PhaseWriting (n_Name n') '''') ?ok z"
      if "before_patch V cli tok img depl meta content dep n' (world z)" for z
      by (rule setPhase_before [OF env that]) (simp_all add: p)
    have on: "wp (setPhase E dep q (n_Name n') '''') ?ok u"
      if "q \<in> {PhaseActivating, PhaseConfirming}" "fl_flash V (world t) = content" for q
      by (rule setPhase_before [OF env bu]) (use that flash p in auto)
    show "wp (case (None, n') of (Some err, node') \<Rightarrow> X err node' | (None, node') \<Rightarrow>
               if ir_StagedState info = ''activating'' \<and>
                  ir_StagedDeploymentID info = dst_DeploymentID (d_Status dep)
               then setPhase E dep PhaseConfirming (n_Name node') ''''
               else if ir_StagedState info = ''written'' \<and> ir_StagedDigest info = dst_Digest (d_Status dep) \<and>
                  ir_StagedDeploymentID info = dst_DeploymentID (d_Status dep)
               then setPhase E dep PhaseActivating (n_Name node') ''''
               else do {
                 pres \<leftarrow> OTAPrepare E cli (prepare_req dep node');
                 (case pres of
                    Inl err \<Rightarrow> ret (Inr (res_after (15 * second)))
                  | Inr resp \<Rightarrow>
                      if \<not> pr_Accepted resp then do {
                        event (d_Meta dep) ''Warning'' (prepare_event_reason (pr_Reason resp))
                          (''prepare refus'' @ e_acute @ '' par le device: '' @ pr_Reason resp);
                        fail E dep (pr_Reason resp) (''prepare refus'' @ e_acute @ '': '' @ pr_Reason resp)
                      }
                      else setPhase E dep PhaseWriting (n_Name node') '''')
               }) ?ok u" (is "wp (case _ of (Some err, node') \<Rightarrow> X err node' | (None, node') \<Rightarrow>
               if ?A then _ else if ?W then _ else _) _ _") for X
    proof -
      consider (activating) ?A | (written) "\<not> ?A" ?W | (fresh) "\<not> ?A" "\<not> ?W" by blast
      then show ?thesis
      proof cases
        case activating
        with honest id show ?thesis by (simp add: on)
      next
        case written
        then have "fl_flash V (world t) = content" using honest id by simp
        with written(2) show ?thesis by (simp only: written(1) prod.case option.case if_True if_False) (simp add: on)
      next
        case fresh
        then show ?thesis by (simp only: fresh prod.case option.case if_True if_False) (auto simp: wp_simps intro!: prep writing)
      qed
    qed
  qed
qed

lemma phasePreparing_advances:
  fixes E :: "'a ext"
  assumes env: "cluster_answers E R V dkey tok" and dev: "device_follows E cli V depl meta content"
    and tr: "on_track V cli tok img depl meta content (world s)"
    and dep: "fl_dep V (world s) = dep" and p: "dst_Phase (d_Status dep) = PhasePreparing"
  shows "wp (phasePreparing E R dep) (\<lambda>_ t. on_track V cli tok img depl meta content (world t) \<and>
      rank (dst_Phase (d_Status dep)) < rank (dst_Phase (d_Status (fl_dep V (world t))))) s"
    (is "wp _ ?ok s")
proof -
  have device: "wp (prepare_device E dep node cli) ?ok t"
    if "steady V (world s) (world t)" "same_node (fl_node V (world t)) node" for node t
    by (rule prepare_device_advances [OF env dev _ p])
      (use that steady_track [OF that(1) tr] steady_dep [OF that(1)] dep in \<open>simp add: before_patch_def\<close>)
  have push: "wp (pushConfigIfNeeded E cli dep) Q t"
    if "steady V (world s) (world t)" "same_node (fl_node V (world t)) node"
      "\<And>b u. steady V (world s) (world u) \<Longrightarrow> same_node (fl_node V (world u)) node \<Longrightarrow> Q (Inr b) u"
      "ds_ConfigMapRef (d_Spec dep) \<noteq> ''''" for node t Q
  proof (rule wp_pushConfig [OF env dev])
    show "fl_dep V (world t) = dep" using steady_dep [OF that(1)] dep by simp
    show "ds_ConfigMapRef (d_Spec dep) \<noteq> ''''" by (fact that(4))
    fix b and u :: "'a sys" assume u: "steady V (world t) (world u)"
    then have "same_node (fl_node V (world u)) node"
      using that(2) by (auto simp: steady_def intro: same_node_sym same_node_trans)
    with u that(1,3) show "Q (Inr b) u" by (blast intro: steady_trans)
  qed
  show ?thesis
    unfolding phasePreparing_def wp_bind
    by (rule wp_nodeClient_track [OF env tr dep]) (auto simp: p wp_simps intro!: device [unfolded p, simplified] elim!: push)
qed

lemma phaseWriting_advances:
  fixes E :: "'a ext"
  assumes env: "cluster_answers E R V dkey tok" and reg: "registry_serves E (dr_OCI R) V img meta content"
    and dev: "device_follows E cli V depl meta content"
    and tr: "on_track V cli tok img depl meta content (world s)"
    and dep: "fl_dep V (world s) = dep" and p: "dst_Phase (d_Status dep) = PhaseWriting"
  shows "wp (phaseWriting E R dep) (\<lambda>_ t. on_track V cli tok img depl meta content (world t) \<and>
      rank (dst_Phase (d_Status dep)) < rank (dst_Phase (d_Status (fl_dep V (world t))))) s"
    (is "wp _ ?ok s")
proof -
  have id: "dst_DeploymentID (d_Status dep) = depl" "dst_Digest (d_Status dep) = fm_Digest meta"
    "dst_Size (d_Status dep) = fm_Size meta" "fw_Image (ds_Firmware (d_Spec dep)) = img"
    "dst_BoundNode (d_Status dep) = n_Name (fl_node V (world s))"
    using tr dep p by (auto simp: on_track_def Let_def)
  have last: "wp (setPhase E dep PhaseActivating (n_Name (fl_node V (world s))) '''') ?ok t"
    if "fl_dep V (world t) = dep" "same_node (fl_node V (world s)) (fl_node V (world t))" "fl_flash V (world t) = content" for t
  proof (rule setPhase_before [OF env])
    have "on_track V cli tok img depl meta content (world t)"
      using tr dep that p same_node_sel [OF that(2)] by (auto simp: on_track_def Let_def split: if_splits)
    then show "before_patch V cli tok img depl meta content dep (fl_node V (world t)) (world t)"
      by (simp add: before_patch_def that(1))
  qed (use that p same_node_sel [OF that(2)] in simp_all)
  show ?thesis
    unfolding phaseWriting_def wp_bind
  proof (rule wp_nodeClient_track [OF env tr dep], simp add: p, unfold sum.case prod.case wp_bind id,
      rule wp_StreamBlob [OF reg], unfold sum.case wp_bind, rule wp_OTAWrite [OF dev reg], assumption+)
    fix node t b u b' and z :: "'a sys"
    assume "steady V (world s) (world t)" "steady V (world t) (world u)" "fl_dep V (world z) = fl_dep V (world u)"
      "same_node (fl_node V (world u)) (fl_node V (world z))" and z: "fl_flash V (world z) = content" "blob_Err b' = None"
    then have "fl_dep V (world z) = dep" "same_node (fl_node V (world s)) (fl_node V (world z))"
      using dep by (auto simp: steady_def intro: same_node_trans)
    with z last have "wp (setPhase E dep PhaseActivating (n_Name (fl_node V (world s))) '''') ?ok (z\<lparr>calls := cs\<rparr>)" for cs
      by simp
    with z(2) show "wp (case (None, b') of (writeErr, stream') \<Rightarrow>
          (case writeErr of
             Some err \<Rightarrow> X err
           | None \<Rightarrow> (case blob_Err stream' of
                 Some mm \<Rightarrow> Y mm
               | None \<Rightarrow> do {
                   event (d_Meta dep) ''Normal'' ''OTAWritten'' msg;
                   setPhase E dep PhaseActivating (n_Name (fl_node V (world s))) ''''
                 }))) ?ok z" for X Y msg
      by (simp add: wp_simps)
  qed
qed

lemma phaseActivating_advances:
  fixes E :: "'a ext"
  assumes env: "cluster_answers E R V dkey tok" and dev: "device_follows E cli V depl meta content"
    and tr: "on_track V cli tok img depl meta content (world s)"
    and dep: "fl_dep V (world s) = dep" and p: "dst_Phase (d_Status dep) = PhaseActivating"
  shows "wp (phaseActivating E R dep) (\<lambda>_ t. on_track V cli tok img depl meta content (world t) \<and>
      rank (dst_Phase (d_Status dep)) < rank (dst_Phase (d_Status (fl_dep V (world t))))) s"
    (is "wp _ ?ok s")
proof -
  have flash: "fl_flash V (world s) = content" and bn: "dst_BoundNode (d_Status dep) = n_Name (fl_node V (world s))"
    using tr dep p by (auto simp: on_track_def Let_def)
  have last: "wp (setPhase E dep PhaseConfirming (dst_BoundNode (d_Status dep)) '''') ?ok t"
    if st: "steady V (world s) (world t)" for t
    by (rule setPhase_before [OF env, where node = "fl_node V (world t)"])
      (use p bn flash dep st steady_track [OF st tr] same_node_sel [of "fl_node V (world s)" "fl_node V (world t)"]
        in \<open>auto simp: before_patch_def steady_def\<close>)
  show ?thesis
    unfolding phaseActivating_def wp_bind
  proof (rule wp_nodeClient_track [OF env tr dep], simp add: p, unfold sum.case prod.case wp_bind,
      rule wp_GetInfo [OF dev], unfold sum.case wp_bind, rule wp_persistNodeInfo [OF env], assumption)
    fix node t info v u n' and z :: "'a sys"
    assume "steady V (world s) (world t)" "steady V (world t) (world u)" "steady V (world u) (world z)"
    then have st: "steady V (world s) (world z)" by (blast intro: steady_trans)
    have act: "wp (OTAActivate E cli d) Q z"
      if "\<And>y. steady V (world s) (world y) \<Longrightarrow> Q (Inr ()) y" for d Q
      by (rule wp_OTAActivate [OF dev], rule that, erule steady_trans [OF st])
    show "wp (case fst (None, n') of
          Some err \<Rightarrow> X err
        | None \<Rightarrow>
            if alreadyActivated dep info then setPhase E dep PhaseConfirming (dst_BoundNode (d_Status dep)) ''''
            else do {
              ares \<leftarrow> OTAActivate E cli (dst_DeploymentID (d_Status dep));
              (case ares of
                 Inl err \<Rightarrow> ret (Inr (res_after (15 * second)))
               | Inr _ \<Rightarrow> setPhase E dep PhaseConfirming (dst_BoundNode (d_Status dep)) '''')
            }) ?ok z" for X
      by (auto simp: wp_simps intro!: last act st)
  qed
qed

section \<open>The runs together\<close>

lemma dispatch_advances:
  fixes E :: "'a ext"
  assumes env: "update_env E R V dkey cli tok img depl meta content"
    and tr: "on_track V cli tok img depl meta content (world s)" and dep: "fl_dep V (world s) = dep"
    and p: "rank (dst_Phase (d_Status dep)) < 5"
  shows "wp (dispatch E R dep) (\<lambda>_ t. on_track V cli tok img depl meta content (world t) \<and>
      rank (dst_Phase (d_Status dep)) < rank (dst_Phase (d_Status (fl_dep V (world t))))) s"
proof -
  have parts: "cluster_answers E R V dkey tok" "registry_serves E (dr_OCI R) V img meta content"
    "device_follows E cli V depl meta content"
    using env by (simp_all add: update_env_def)
  note preparing = phasePreparing_advances [OF parts(1,3) tr dep]
  note writing = phaseWriting_advances [OF parts tr dep]
  note activating = phaseActivating_advances [OF parts(1,3) tr dep]
  have binding: "wp (phaseBinding E dep) (\<lambda>_ t. on_track V cli tok img depl meta content (world t) \<and>
      rank (dst_Phase (d_Status dep)) < rank (dst_Phase (d_Status (fl_dep V (world t))))) s"
    if "rank (dst_Phase (d_Status dep)) = 0"
    by (rule wp_conseq [OF phaseBinding_advances [OF parts(1) tr dep that]]) (simp add: that)
  have pulling: "wp (phasePulling E R dep) (\<lambda>_ t. on_track V cli tok img depl meta content (world t) \<and>
      rank (dst_Phase (d_Status dep)) < rank (dst_Phase (d_Status (fl_dep V (world t))))) s"
    if "dst_Phase (d_Status dep) = PhasePulling"
    by (rule wp_conseq [OF phasePulling_advances [OF parts(1,2) tr dep that]]) (simp add: that)
  show ?thesis
    using p binding pulling preparing writing activating
    by (cases "dst_Phase (d_Status dep)") (simp_all add: dispatch_def)
qed

lemma Reconcile_advances:
  fixes E :: "'a ext"
  assumes env: "update_env E R V dkey cli tok img depl meta content"
    and tr: "on_track V cli tok img depl meta content (world s)"
    and p: "rank (dst_Phase (d_Status (fl_dep V (world s)))) < 5"
  shows "wp (Reconcile_deployment E R dkey) (\<lambda>_ t. on_track V cli tok img depl meta content (world t) \<and>
      rank (dst_Phase (d_Status (fl_dep V (world s)))) < rank (dst_Phase (d_Status (fl_dep V (world t))))) s"
proof -
  obtain w' where w: "kGetDeployment E dkey (world s) = (Inr (fl_dep V (world s)), w')" and st: "steady V (world s) w'"
    using env cluster_answersD(1) by (metis update_env_def)
  have "wp (dispatch E R (fl_dep V (world s))) (\<lambda>_ t. on_track V cli tok img depl meta content (world t) \<and>
      rank (dst_Phase (d_Status (fl_dep V (world s)))) < rank (dst_Phase (d_Status (fl_dep V (world t))))) u"
    if "world u = w'" for u
    by (rule dispatch_advances [OF env]) (use that steady_track [OF st tr] steady_dep [OF st] p in simp_all)
  with w show ?thesis by (simp add: Reconcile_deployment_def wp_simps)
qed

lemma reach_confirming:
  assumes env: "update_env E R V dkey cli tok img depl meta content"
  shows "on_track V cli tok img depl meta content (world s) \<Longrightarrow>
     \<exists>n. n + rank (dst_Phase (d_Status (fl_dep V (world s)))) \<le> 5 \<and>
       on_track V cli tok img depl meta content (world (reconcile_times E R dkey n s)) \<and>
       dst_Phase (d_Status (fl_dep V (world (reconcile_times E R dkey n s)))) = PhaseConfirming"
proof (induction "5 - rank (dst_Phase (d_Status (fl_dep V (world s))))" arbitrary: s rule: less_induct)
  case less
  let ?r = "\<lambda>s. rank (dst_Phase (d_Status (fl_dep V (world s))))"
  show ?case
  proof (cases "?r s < 5")
    case True
    obtain x t where t: "run_state (Reconcile_deployment E R dkey) s = (x, t)" by (metis surj_pair)
    from wpD [OF Reconcile_advances [OF env less.prems True] t]
    have tr: "on_track V cli tok img depl meta content (world t)" and up: "?r s < ?r t" by simp_all
    from up True have "5 - ?r t < 5 - ?r s" by linarith
    from less.hyps [OF this tr] obtain n where n: "n + ?r t \<le> 5"
      "on_track V cli tok img depl meta content (world (reconcile_times E R dkey n t))"
      "dst_Phase (d_Status (fl_dep V (world (reconcile_times E R dkey n t)))) = PhaseConfirming" by blast
    with t up show ?thesis by (intro exI [of _ "Suc n"]) simp
  next
    case False
    with less.prems have "?r s = 5" by (simp add: on_track_def Let_def)
    then have "dst_Phase (d_Status (fl_dep V (world s))) = PhaseConfirming"
      by (cases "dst_Phase (d_Status (fl_dep V (world s)))") simp_all
    with less.prems show ?thesis by (intro exI [of _ 0]) simp
  qed
qed

text \<open>The last run, when the device has confirmed.\<close>

lemma confirming_done:
  fixes E :: "'a ext"
  assumes env: "update_env E R V dkey cli tok img depl meta content"
    and tr: "on_track V cli tok img depl meta content (world s)"
    and p: "dst_Phase (d_Status (fl_dep V (world s))) = PhaseConfirming"
    and conf: "confirmed (fl_dep V (world s)) (fl_node V (snd (kGetDeployment E dkey (world s))))"
  shows "wp (Reconcile_deployment E R dkey) (\<lambda>_ t. dst_Phase (d_Status (fl_dep V (world t))) = PhaseDeployed) s"
proof -
  have cl: "cluster_answers E R V dkey tok" using env by (simp add: update_env_def)
  obtain w' where w: "kGetDeployment E dkey (world s) = (Inr (fl_dep V (world s)), w')" and st: "steady V (world s) w'"
    using cluster_answersD(1) [OF cl] by blast
  let ?dep = "fl_dep V (world s)" and ?node = "fl_node V w'"
  have "wp (phaseConfirming E R ?dep) (\<lambda>_ t. dst_Phase (d_Status (fl_dep V (world t))) = PhaseDeployed) u"
    if u: "world u = w'" for u
    unfolding phaseConfirming_def wp_bind
  proof (rule wp_nodeClient [OF cl])
    show "fl_dep V (world u) = ?dep" using st u by (simp add: steady_def)
    fix t :: "'a sys" assume t: "steady V (world u) (world t)"
    have "wp (setPhase E ?dep PhaseDeployed bn msg) (\<lambda>_ t. dst_Phase (d_Status (fl_dep V (world t))) = PhaseDeployed) t" for bn msg
      by (rule wp_setPhase [OF cl]) (use t st u in \<open>simp_all add: steady_def patched_def\<close>)
    with conf w u show "wp (case Inr (fl_node V (world u), cli) of Inl err \<Rightarrow> X err
        | Inr (node, _) \<Rightarrow> if confirmed ?dep node then setPhase E ?dep PhaseDeployed (n_Name node) msg else Y node)
        (\<lambda>_ t. dst_Phase (d_Status (fl_dep V (world t))) = PhaseDeployed) t" for X msg Y
      by simp
  qed (use steady_track [OF st tr] u p st in \<open>auto simp: on_track_def Let_def steady_def\<close>)
  with w p show ?thesis by (simp add: Reconcile_deployment_def wp_simps dispatch_def)
qed

end
