(* ===== verification/UpdateProps.thy ===== *)
theory UpdateProps
  imports OtaRun
begin

text \<open>
  A deployment gets to its end in a world in which everything answers, with an example of such a world.
\<close>

section \<open>The update completes\<close>


text \<open>
  A cluster with one deployment of the image \<open>abc\<close>: the world is the status and the annotations of the
  deployment, and what the device stores.
\<close>

record bed_world =
  bw_status :: mcudeployment_status
  bw_annotations :: "string \<rightharpoonup> string"
  bw_flash :: string

definition bw_dep :: "bed_world \<Rightarrow> mcudeployment" where
  "bw_dep w = (bed_dep PhaseNone)\<lparr>d_Meta := (bed_meta ''dep'')\<lparr>m_Annotations := bw_annotations w\<rparr>, d_Status := bw_status w\<rparr>"

definition bed_fleet :: "bed_world fleet" where
  "bed_fleet = \<lparr>fl_dep = bw_dep, fl_node = (\<lambda>_. bed_node), fl_flash = bw_flash\<rparr>"


definition bed_manifest :: manifest where
  "bed_manifest =
     (let l = \<lparr>de_MediaType = MediaTypeFirmwareBin, de_Digest = ''sha256:abc'', de_Size = 3, de_Annotations = Map.empty\<rparr>
      in \<lparr>ma_SchemaVersion = 2, ma_MediaType = '''', ma_Config = l, ma_Layers = [l], ma_Annotations = Map.empty\<rparr>)"

definition bed_info :: info_response where
  "bed_info = \<lparr>ir_NodeID = ''id1'', ir_ApiVersions = [], ir_Chip = ''esp32'', ir_IDFVersion = '''', ir_FlashSize = 0,
     ir_RAMSize = 0, ir_PartitionLayout = '''', ir_ActiveSlot = '''', ir_FwName = '''', ir_FwVersion = '''', ir_FwDigest = '''',
     ir_StagedState = '''', ir_StagedSlot = '''', ir_StagedDigest = '''', ir_StagedDeploymentID = '''', ir_State = ''running'',
     ir_AppPort = 0, ir_ConfigGeneration = 0\<rparr>"

definition bed_world_E :: "bed_world ext" where
  "bed_world_E = bedE\<lparr>
     kGetDeployment := (\<lambda>_ w. (Inr (bw_dep w), w)),
     kGetNode := (\<lambda>_ w. (Inr bed_node, w)),
     kGetSecret := (\<lambda>_ w. (Inr (bed_secret [''token'' \<mapsto> ''x'']), w)),
     kListNodes := (\<lambda>_ w. (Inr [bed_node], w)),
     kListDeployments := (\<lambda>_ w. (Inr [bw_dep w], w)),
     kPatchDeployment := (\<lambda>_ d w. let w' = w\<lparr>bw_annotations := m_Annotations (d_Meta d)\<rparr> in (Inr (bw_dep w'), w')),
     kPatchDeploymentStatus := (\<lambda>_ d w. let w' = w\<lparr>bw_status := d_Status d\<rparr> in (Inr (bw_dep w'), w')),
     hDo := (\<lambda>q w. if rq_Timeout q = None
        then (case bed_store q (bw_flash w) of (r, held) \<Rightarrow> (r, w\<lparr>bw_flash := held\<rparr>))
        else (Inr (bed_ok ''abc''), w)),
     jInfo := (\<lambda>_. Inr bed_info),
     jPrepare := (\<lambda>_. Inr \<lparr>pr_Accepted = True, pr_TargetSlot = '''', pr_Reason = ''''\<rparr>),
     jConfig := (\<lambda>_. Inr \<lparr>cr_Generation = 0, cr_ActiveGeneration = 0, cr_Active = Map.empty, cr_NVS = Map.empty\<rparr>),
     jManifest := (\<lambda>_. Inr bed_manifest), jWritten := (\<lambda>raw. int (length raw))\<rparr>"

lemma bed_world_sel [simp]:
  "kGetDeployment bed_world_E k w = (Inr (bw_dep w), w)" "kGetNode bed_world_E k w = (Inr bed_node, w)"
  "kGetSecret bed_world_E k w = (Inr (bed_secret [''token'' \<mapsto> ''x'']), w)"
  "kListNodes bed_world_E ns w = (Inr [bed_node], w)" "kListDeployments bed_world_E s w = (Inr [bw_dep w], w)"
  "kPatchDeployment bed_world_E b d w = (Inr (bw_dep (w\<lparr>bw_annotations := m_Annotations (d_Meta d)\<rparr>)), w\<lparr>bw_annotations := m_Annotations (d_Meta d)\<rparr>)"
  "kPatchDeploymentStatus bed_world_E b d w = (Inr (bw_dep (w\<lparr>bw_status := d_Status d\<rparr>)), w\<lparr>bw_status := d_Status d\<rparr>)"
  "kPatchNodeStatus bed_world_E l n0 n1 w = (Inr n1, w)" "tNow bed_world_E w = (0, w)"
  "hDo bed_world_E q w = (if rq_Timeout q = None
        then (case bed_store q (bw_flash w) of (r, held) \<Rightarrow> (r, w\<lparr>bw_flash := held\<rparr>)) else (Inr (bed_ok ''abc''), w))"
  "jInfo bed_world_E x = Inr bed_info" "jManifest bed_world_E x = Inr bed_manifest"
  "jPrepare bed_world_E x = Inr \<lparr>pr_Accepted = True, pr_TargetSlot = '''', pr_Reason = ''''\<rparr>"
  "jConfig bed_world_E x = Inr \<lparr>cr_Generation = 0, cr_ActiveGeneration = 0, cr_Active = Map.empty, cr_NVS = Map.empty\<rparr>"
  "jWritten bed_world_E raw = int (length raw)" "jWriteResult bed_world_E raw = Inr (''written'', '''')"
  "hNewRequest bed_world_E m u = None" "xSHA256Hex bed_world_E c = c"
  by (simp_all add: bed_world_E_def bedE_def Let_def)

lemma bed_fleet_sel [simp]: "fl_dep bed_fleet = bw_dep" "fl_node bed_fleet w = bed_node" "fl_flash bed_fleet = bw_flash"
  by (simp_all add: bed_fleet_def)






end
