(* ===== verification/Binding.thy ===== *)
theory Binding
  imports DeploymentProps
begin

text \<open>
  The deployments of a namespace and the nodes they are bound to. The steps of \<open>namespace_run\<close> are the
  accepted status patches of real runs of the dispatcher, among creation, deletion and edits. The client of
  the controllers reads from a cache (\<open>mgr.GetClient()\<close>): a list of deployments may be as old as \<open>lag\<close> steps.
\<close>

section \<open>Exclusive nodes\<close>

text \<open>No two deployments of different names that have not failed are bound to the same node.\<close>

definition exclusive :: "mcudeployment list \<Rightarrow> bool" where
  "exclusive ds \<longleftrightarrow> distinct (map d_Name ds) \<and>
     (\<forall>a \<in> set ds. \<forall>b \<in> set ds. d_Name a \<noteq> d_Name b \<longrightarrow> dst_BoundNode (d_Status a) = dst_BoundNode (d_Status b) \<longrightarrow>
        dst_BoundNode (d_Status a) \<noteq> '''' \<longrightarrow>
        dst_Phase (d_Status a) = PhaseFailed \<or> dst_Phase (d_Status b) = PhaseFailed)"

lemma exclusive_update:
  assumes "exclusive ds" "i < length ds" "d_Name d = d_Name (ds ! i)"
    and "\<And>b. b \<in> set ds \<Longrightarrow> d_Name b \<noteq> d_Name d \<Longrightarrow> dst_BoundNode (d_Status b) = dst_BoundNode (d_Status d) \<Longrightarrow>
      dst_BoundNode (d_Status d) \<noteq> '''' \<Longrightarrow>
      dst_Phase (d_Status d) = PhaseFailed \<or> dst_Phase (d_Status b) = PhaseFailed"
  shows "exclusive (ds[i := d])"
proof -
  have names: "map d_Name (ds[i := d]) = map d_Name ds"
    using assms(2,3) by (simp add: map_update list_update_same_conv)
  have mem: "x \<in> set (ds[i := d]) \<Longrightarrow> x = d \<or> x \<in> set ds" for x
    using set_update_subset_insert [of ds i d] by auto
  show ?thesis
    unfolding exclusive_def names using assms(1,4) by (auto simp: exclusive_def dest!: mem) metis+
qed

section \<open>The bound node of a run\<close>

text \<open>What a status patch does to the name and the bound node of a deployment.\<close>

definition stays_bound :: "mcudeployment \<Rightarrow> call \<times> bool \<Rightarrow> bool" where
  "stays_bound dep c \<longleftrightarrow> (\<forall>b d. fst c = CPatchDeploymentStatus b d \<longrightarrow>
     d_Name d = d_Name dep \<and> dst_BoundNode (d_Status d) = dst_BoundNode (d_Status dep))"

lemma stays_bound_simps [simp]:
  "stays_bound dep (CPatchDeploymentStatus b d, ok) \<longleftrightarrow>
     d_Name d = d_Name dep \<and> dst_BoundNode (d_Status d) = dst_BoundNode (d_Status dep)"
  "stays_bound dep (CGetNode k, ok)" "stays_bound dep (CGetConfigMap k, ok)" "stays_bound dep (CGetSecret k, ok)"
  "stays_bound dep (CHttp q, ok)" "stays_bound dep (CEvent k ty reason msg, ok)" "stays_bound dep (CTime, ok)"
  "stays_bound dep (CPatchNodeStatus lock nb n, ok)" "stays_bound dep (CPatchDeployment db dn, ok)"
  by (simp_all add: stays_bound_def)

text \<open>A property of the results of a computation, whatever the environment does.\<close>

definition results :: "('a \<Rightarrow> bool) \<Rightarrow> ('w sys, 'a) state \<Rightarrow> bool" where
  "results G m \<longleftrightarrow> (\<forall>s. wp m (\<lambda>a _. G a) s)"

lemma emits_bind_results:
  assumes m: "emits P m" "results G m" and f: "\<And>a. G a \<Longrightarrow> emits P (f a)"
  shows "emits P (State_Monad.bind m f)"
proof -
  have "adds P (State_Monad.bind m f) s" for s
  proof (rule adds_bind [OF m(1)])
    show "wp m (\<lambda>a t. adds P (f a) t) s"
      using m(2) unfolding results_def by (blast intro: wp_conseq emits_adds f)
  qed
  then show ?thesis by (simp add: emits_def adds_def)
qed

lemma nodeClient_named:
  assumes "get_law E"
  shows "results (\<lambda>r. \<forall>node cli. r = Inr (node, cli) \<longrightarrow> n_Name node = dst_BoundNode (d_Status dep)) (nodeClient E R dep)"
proof -
  have "n_Name n = dst_BoundNode (d_Status dep)"
    if "kGetNode E \<lparr>key_Namespace = d_Namespace dep, key_Name = dst_BoundNode (d_Status dep)\<rparr> w = (Inr n, w')" for n w w'
  proof -
    from assms that have "obj_key_of (n_Meta n) = \<lparr>key_Namespace = d_Namespace dep, key_Name = dst_BoundNode (d_Status dep)\<rparr>"
      unfolding get_law_def by blast
    then show ?thesis by (simp add: obj_key_of_def)
  qed
  then show ?thesis
    unfolding results_def by (intro allI wp_conseq [OF nodeClient_node]) blast
qed

lemma persistNodeInfo_named:
  assumes "patch_keys E"
  shows "results (\<lambda>r. n_Name (snd r) = n_Name node) (persistNodeInfo E node info)"
proof -
  have "n_Name n' = n_Name n" if "kPatchNodeStatus E lock b n w = (Inr n', w')" for lock b n w n' w'
  proof -
    from assms that have "obj_key_of (n_Meta n') = obj_key_of (n_Meta n)" unfolding patch_keys_def by blast
    then show ?thesis by (simp add: obj_key_of_def)
  qed
  then show ?thesis
    by (auto simp: results_def persistNodeInfo_def wp_simps Let_def split: prod.splits sum.splits)
qed

lemma emits_client_stays: "emits (stays_bound dep) (nodeClient E R dep')"
  unfolding nodeClient_def nodeToken_def by (intro emits_intros) simp_all

lemma agent_call_stays: "agent_call m p c k \<Longrightarrow> stays_bound dep (k, b)"
  by (auto simp: agent_call_def)

lemma stays_fail:
  "d_Name dep' = d_Name dep \<Longrightarrow> dst_BoundNode (d_Status dep') = dst_BoundNode (d_Status dep) \<Longrightarrow>
     emits (stays_bound dep) (fail E dep' reason msg)"
  unfolding fail_def by (intro emits_intros) (simp_all add: failed_dep_def)

lemma stays_setPhase:
  assumes "patch_keys E" "bn = dst_BoundNode (d_Status dep)"
  shows "emits (stays_bound dep) (setPhase E dep q bn msg)"
proof -
  have status: "emits (stays_bound dep) (setPhase_status E dep' q bn msg)" if "d_Name dep' = d_Name dep" for dep'
    unfolding setPhase_status_def using that assms(2) by (intro emits_intros) simp_all
  have echo: "d_Name d' = d_Name d" if "kPatchDeployment E b d w = (Inr d', w')" for b d w d' w'
  proof -
    from assms(1) that have "obj_key_of (d_Meta d') = obj_key_of (d_Meta d)" unfolding patch_keys_def by blast
    then show ?thesis by (simp add: obj_key_of_def)
  qed
  have patch: "emits (stays_bound dep) (do {
        ures \<leftarrow> patchDeployment E dep (set_confirming_since v dep);
        (case ures of Inl err \<Rightarrow> ret (Inl err) | Inr dep' \<Rightarrow> setPhase_status E dep' q bn msg) })" for v
    by (rule emits_ext_bind) (auto simp: set_confirming_since_def dest!: echo intro!: status emits_return split: sum.splits)
  show ?thesis
    unfolding setPhase_def by (intro emits_if emits_bind [OF emits_now] status patch) simp_all
qed

lemma stays_prepare_device:
  assumes "patch_keys E" "n_Name node = dst_BoundNode (d_Status dep)"
  shows "emits (stays_bound dep) (prepare_device E dep node cli)"
proof -
  have info: "emits (stays_bound dep) (GetInfo E cli)" "emits (stays_bound dep) (OTAPrepare E cli req)" for req
    by (intro emits_intros; auto intro: agent_call_stays)+
  have persist: "emits (stays_bound dep) (persistNodeInfo E node i)" for i
    unfolding persistNodeInfo_def by (intro emits_intros) simp
  show ?thesis
    unfolding prepare_device_def
    by (rule emits_bind [OF info(1)], rule emits_case_sum, rule emits_return,
        rule emits_bind_results [OF persist persistNodeInfo_named [OF assms(1)]])
      (auto simp: assms(2) intro!: emits_bind emits_emit emits_return info stays_fail stays_setPhase [OF assms(1)]
        split: option.splits prod.splits sum.splits)
qed

lemma stays_push: "emits (stays_bound dep) (pushConfigIfNeeded E cli dep')"
  unfolding pushConfigIfNeeded_def by (intro emits_intros) (auto intro: agent_call_stays)

lemma stays_config_only:
  assumes "d_Name dep' = d_Name dep" "dst_BoundNode (d_Status dep') = dst_BoundNode (d_Status dep)"
  shows "emits (stays_bound dep) (reconcileConfigOnly E R dep')"
  unfolding reconcileConfigOnly_def
  by (intro emits_intros emits_client_stays stays_push stays_fail assms) (auto intro: agent_call_stays)

lemma stays_deployed:
  assumes "patch_echo E" "patch_keys E"
  shows "emits (stays_bound dep) (reconcileDeployed E R dep)"
proof -
  have port: "emits (stays_bound dep) (reconcileAppPort E cli node dep')" for cli node dep'
    unfolding reconcileAppPort_def by (intro emits_intros) (auto intro: agent_call_stays)
  have conf: "emits (stays_bound dep) (deployed_config E R dep')"
    if "d_Name dep' = d_Name dep" "dst_BoundNode (d_Status dep') = dst_BoundNode (d_Status dep)" for dep'
    unfolding deployed_config_def using that by (intro emits_intros stays_config_only)
  have echo: "d_Name d' = d_Name d \<and> dst_BoundNode (d_Status d') = dst_BoundNode (d_Status d)"
    if "kPatchDeploymentStatus E b d w = (Inr d', w')" for b d w d' w'
  proof -
    from assms(2) that have "obj_key_of (d_Meta d') = obj_key_of (d_Meta d)" unfolding patch_keys_def by blast
    moreover from assms(1) that have "d_Status d' = d_Status d" unfolding patch_echo_def by blast
    ultimately show ?thesis by (simp add: obj_key_of_def)
  qed
  have expired: "emits (stays_bound dep) (heartbeat_expired E st)" for st
    unfolding heartbeat_expired_def by (intro emits_intros) simp
  have available: "d_Name (available_dep E ex node dep) = d_Name dep"
    "dst_BoundNode (d_Status (available_dep E ex node dep)) = dst_BoundNode (d_Status dep)" for ex node
    by (simp_all add: available_dep_def)
  show ?thesis
    unfolding reconcileDeployed_def
    by (intro emits_bind emits_case_sum emits_ext_bind emits_ext_call emits_return expired)
      (auto simp: available dest!: echo intro!: emits_if emits_bind emits_return emits_client_stays port conf
        split: sum.splits option.splits)
qed

lemma stays_dispatch:
  assumes "get_law E" "patch_echo E" "patch_keys E" "phase_of dep \<notin> {PhaseNone, PhaseBinding}"
  shows "emits (stays_bound dep) (dispatch E R dep)"
proof -
  have client: "emits (stays_bound dep) (State_Monad.bind (nodeClient E R dep) f)"
    if "\<And>r. (\<forall>node cli. r = Inr (node, cli) \<longrightarrow> n_Name node = dst_BoundNode (d_Status dep)) \<Longrightarrow> emits (stays_bound dep) (f r)" for f
    by (rule emits_bind_results [OF emits_client_stays nodeClient_named [OF assms(1)] that])
  note setPhase = stays_setPhase [OF assms(3)]
  have agent: "emits (stays_bound dep) (GetInfo E cli)" "emits (stays_bound dep) (OTAActivate E cli x)"
    "emits (stays_bound dep) (ResolveFirmware E c img)" "emits (stays_bound dep) (StreamBlob E c img dg)" for cli x c img dg
    by (intro emits_intros; auto intro: agent_call_stays)+
  have put: "emits (stays_bound dep) (OTAWrite E cli depid dg sz stream)" for cli depid dg sz stream
    by (rule emits_mono [OF emits_OTAWrite_http]) (auto simp: ota_put_call_def)
  have persist: "emits (stays_bound dep) (persistNodeInfo E node i)" for node i
    unfolding persistNodeInfo_def by (intro emits_intros) simp
  have "emits (stays_bound dep) (phasePulling E R dep)"
    unfolding phasePulling_def by (intro emits_intros agent) (simp_all add: pulled_status_def)
  moreover have "emits (stays_bound dep) (phasePreparing E R dep)"
    unfolding phasePreparing_def
    by (rule client) (auto intro!: emits_if emits_bind emits_return stays_push stays_fail stays_prepare_device [OF assms(3)]
        split: sum.splits)
  moreover have "emits (stays_bound dep) (phaseWriting E R dep)"
    unfolding phaseWriting_def by (intro emits_intros emits_client_stays agent put setPhase) simp_all
  moreover have "emits (stays_bound dep) (phaseActivating E R dep)"
    unfolding phaseActivating_def by (intro emits_intros emits_client_stays agent persist setPhase stays_fail) simp_all
  moreover have "emits (stays_bound dep) (phaseConfirming E R dep)"
    unfolding phaseConfirming_def
    by (rule client) (auto intro!: emits_if emits_bind emits_return emits_now setPhase stays_fail split: sum.splits option.splits)
  ultimately show ?thesis
    using assms(4) stays_deployed [OF assms(2,3)]
    by (cases "phase_of dep") (simp_all add: dispatch_def emits_return)
qed

text \<open>A binding run fails the deployment where it is, or binds it to a node that is free in the list it read.\<close>

lemma phaseBinding_patches:
  "adds (\<lambda>c. \<forall>b d. fst c = CPatchDeploymentStatus b d \<longrightarrow> d_Name d = d_Name dep \<and>
       (phase_of d = PhaseFailed \<or> free_candidate E dep (world s) (dst_BoundNode (d_Status d))))
     (phaseBinding E dep) s"
  by (auto simp: adds_def phaseBinding_def checkNotBusy_def fail_def setPhase_def setPhase_status_def
      wp_simps phased_dep_def failed_dep_def free_candidate_def split: sum.splits prod.splits list.splits option.splits)

section \<open>Runs in a namespace\<close>

text \<open>The list of deployments that a run reads, after the list of nodes, is one of the given lists.\<close>

definition lists_from :: "'w ext \<Rightarrow> mcudeployment \<Rightarrow> 'w sys \<Rightarrow> mcudeployment list list \<Rightarrow> bool" where
  "lists_from E dep s views \<longleftrightarrow> (\<forall>nodes w1 deps w2. kListNodes E (Some (d_Namespace dep)) (world s) = (Inr nodes, w1) \<longrightarrow>
     kListDeployments E (d_Namespace dep) w1 = (Inr deps, w2) \<longrightarrow> deps \<in> set views)"

text \<open>
  The deployments of a namespace, every list since the beginning, newest first. Users create deployments
  (the status is a subresource and starts empty), edit them and delete them; the controller runs on a
  stored deployment, whose status becomes the one of an accepted patch.
\<close>

inductive namespace_run :: "'w ext \<Rightarrow> dep_reconciler \<Rightarrow> nat \<Rightarrow> mcudeployment list list \<Rightarrow> bool" for E R lag where
  none: "namespace_run E R lag [[]]"
| create: "namespace_run E R lag (ds # h) \<Longrightarrow> d_Name d \<notin> d_Name ` set ds \<Longrightarrow> dst_BoundNode (d_Status d) = '''' \<Longrightarrow>
     namespace_run E R lag ((d # ds) # ds # h)"
| delete: "namespace_run E R lag (ds # h) \<Longrightarrow> namespace_run E R lag (filter (\<lambda>d. d_Name d \<noteq> nm) ds # ds # h)"
| edit: "namespace_run E R lag (ds # h) \<Longrightarrow> i < length ds \<Longrightarrow> d_Name d = d_Name (ds ! i) \<Longrightarrow>
     d_Status d = d_Status (ds ! i) \<Longrightarrow> namespace_run E R lag (ds[i := d] # ds # h)"
| reconcile: "namespace_run E R lag (ds # h) \<Longrightarrow> i < length ds \<Longrightarrow> run_state (dispatch E R (ds ! i)) s = (r, t) \<Longrightarrow>
     (CPatchDeploymentStatus b d, True) \<in> set (drop (length (calls s)) (calls t)) \<Longrightarrow>
     lists_from E (ds ! i) s (take (Suc lag) (ds # h)) \<Longrightarrow> namespace_run E R lag (ds[i := d] # ds # h)"

lemma exclusive_same:
  assumes "exclusive ds" "i < length ds" "d_Name d = d_Name (ds ! i)"
    and "dst_BoundNode (d_Status d) = dst_BoundNode (d_Status (ds ! i))" "phase_of (ds ! i) = PhaseFailed \<Longrightarrow> phase_of d = PhaseFailed"
  shows "exclusive (ds[i := d])"
proof (rule exclusive_update [OF assms(1-3)])
  have "ds ! i \<in> set ds" using assms(2) by simp
  then show "phase_of d = PhaseFailed \<or> phase_of b = PhaseFailed"
    if "b \<in> set ds" "d_Name b \<noteq> d_Name d" "dst_BoundNode (d_Status b) = dst_BoundNode (d_Status d)" "dst_BoundNode (d_Status d) \<noteq> ''''" for b
    using that assms unfolding exclusive_def by metis
qed

lemma exclusive_run:
  assumes "exclusive ds" "i < length ds" "run_state (dispatch E R (ds ! i)) s = (r, t)"
    and "(CPatchDeploymentStatus b d, True) \<in> set (drop (length (calls s)) (calls t))"
    and "lists_from E (ds ! i) s [ds]" "get_law E" "patch_echo E" "patch_keys E"
  shows "exclusive (ds[i := d])"
proof (cases "phase_of (ds ! i) \<in> {PhaseNone, PhaseBinding}")
  case True
  then have "run_state (phaseBinding E (ds ! i)) s = (r, t)" using assms(3) by (auto simp: dispatch_def)
  from adds_new [OF phaseBinding_patches this assms(4)]
  have n: "d_Name d = d_Name (ds ! i)" and
    f: "phase_of d = PhaseFailed \<or> free_candidate E (ds ! i) (world s) (dst_BoundNode (d_Status d))" by auto
  from f show ?thesis
  proof
    assume "free_candidate E (ds ! i) (world s) (dst_BoundNode (d_Status d))"
    then have "first_busy (d_Name (ds ! i)) (dst_BoundNode (d_Status d)) ds = None"
      using assms(5) by (auto simp: free_candidate_def lists_from_def)
    with n show ?thesis by (intro exclusive_update [OF assms(1,2)]) (auto simp: first_busy_None)
  qed (intro exclusive_update [OF assms(1,2) n], simp)
next
  case False
  from emits_new [OF stays_dispatch [OF assms(6-8) False] assms(3,4)]
  have "d_Name d = d_Name (ds ! i)" "dst_BoundNode (d_Status d) = dst_BoundNode (d_Status (ds ! i))" by simp_all
  moreover have "phase_step (phase_of (ds ! i)) (phase_of d)" using dispatcher.moves [OF TrueI assms(3,4)] .
  then have "phase_of (ds ! i) \<noteq> PhaseFailed" by (auto elim: phase_step.cases)
  ultimately show ?thesis by (intro exclusive_same [OF assms(1,2)]) simp_all
qed

lemma namespace_exclusive:
  assumes "namespace_run E R 0 h" "get_law E" "patch_echo E" "patch_keys E"
  shows "exclusive (hd h)"
  using assms(1)
proof (induction rule: namespace_run.induct)
  case (reconcile ds h i s r t b d)
  then show ?case using exclusive_run [OF _ reconcile.hyps(2-4) _ assms(2-4)] by simp
next
  case (edit ds h i d)
  then show ?case using exclusive_same [of ds i d] by simp
qed (auto simp: exclusive_def distinct_map_filter)

section \<open>Properties\<close>

text \<open>
  C16: However the deployments of a namespace are created, edited, deleted and run, as long as a run reads the
  current list of deployments, no two of them that have not failed are bound to the same node.
\<close>

theorem node_exclusive:
  assumes "namespace_run E R 0 (ds # h)" "get_law E" "patch_echo E" "patch_keys E"
  shows "exclusive ds"
  using namespace_exclusive [OF assms] by simp

text \<open>The world is the list of deployments that a run reads; there is one node.\<close>

definition bed_nsE :: "mcudeployment list ext" where
  "bed_nsE = bedE\<lparr>kListNodes := (\<lambda>_ w. (Inr [bed_node], w)), kListDeployments := (\<lambda>_ w. (Inr w, w))\<rparr>"

definition bed_unbound :: "string \<Rightarrow> mcudeployment" where
  "bed_unbound nm = (bed_dep PhaseNone)\<lparr>d_Meta := bed_meta nm,
     d_Status := (d_Status (bed_dep PhaseNone))\<lparr>dst_BoundNode := ''''\<rparr>\<rparr>"

abbreviation bed_bound :: "string \<Rightarrow> mcudeployment" where
  "bed_bound nm \<equiv> phased_dep bed_nsE PhasePulling ''node1'' '''' (bed_unbound nm)"

lemma bed_nsE_simps:
  "kListNodes bed_nsE ns w = (Inr [bed_node], w)" "kListDeployments bed_nsE x w = (Inr w, w)"
  "kPatchDeploymentStatus bed_nsE b d w = (Inr d, w)" "kPatchDeployment bed_nsE b d w = (Inr d, w)"
  "kPatchNodeStatus bed_nsE lock nb n w = (Inr n, w)" "kGetNode bed_nsE k w = (Inl (ApiOther ''unavailable''), w)"
  by (simp_all add: bed_nsE_def bedE_def)

lemma bed_unbound_sel:
  "d_Name (bed_unbound nm) = nm" "dst_BoundNode (d_Status (bed_unbound nm)) = ''''"
  "phase_of (bed_unbound nm) = PhaseNone" "candidates (bed_unbound nm) [bed_node] = [bed_node]"
  by (simp_all add: bed_unbound_def bed_meta_def new_meta_def candidates_def bed_dep_def bed_node_def)

lemma bed_ns_laws: "get_law bed_nsE" "patch_echo bed_nsE" "lists_from bed_nsE d (bed_sys ds) (ds # h)"
  by (simp_all add: get_law_def patch_echo_def lists_from_def bed_nsE_simps)

lemma bed_ns_keys: "patch_keys bed_nsE"
proof -
  have "d_Status d' = d_Status d" if "kPatchDeployment bed_nsE b d w = (Inr d', w')" for b d w d' w'
    using that by (simp add: bed_nsE_simps)
  then show ?thesis by (simp add: patch_keys_def bed_nsE_simps)
qed

lemma bed_bind_step:
  assumes "first_busy nm ''node1'' ds = None"
  shows "\<exists>r t. run_state (dispatch bed_nsE bed_R (bed_unbound nm)) (bed_sys ds) = (r, t) \<and>
    (CPatchDeploymentStatus (bed_unbound nm) (bed_bound nm), True) \<in> set (drop (length (calls (bed_sys ds))) (calls t))"
proof -
  have n: "n_Name bed_node = ''node1''" by (simp add: bed_node_def bed_meta_def new_meta_def)
  show ?thesis
    by (simp add: dispatch_def phaseBinding_def bed_unbound_sel checkNotBusy_def ext_call_def bed_nsE_simps n assms
        setPhase_def setPhase_status_def)
qed

lemma bed_busy_step:
  assumes "first_busy nm ''node1'' ds = Some x"
  shows "\<exists>r t d. run_state (dispatch bed_nsE bed_R (bed_unbound nm)) (bed_sys ds) = (r, t) \<and>
    (CPatchDeploymentStatus (bed_unbound nm) d, True) \<in> set (drop (length (calls (bed_sys ds))) (calls t)) \<and>
    phase_of d = PhaseFailed \<and> d_Name d = nm"
proof -
  have n: "n_Name bed_node = ''node1''" by (simp add: bed_node_def bed_meta_def new_meta_def)
  show ?thesis
    by (simp add: dispatch_def phaseBinding_def bed_unbound_sel checkNotBusy_def ext_call_def bed_nsE_simps n assms
        fail_def failed_dep_def)
qed

lemma bed_first_bound:
  "namespace_run bed_nsE bed_R lag [[bed_bound ''a'', bed_unbound ''b''], [bed_unbound ''a'', bed_unbound ''b''], [bed_unbound ''b''], []]"
proof -
  have 1: "namespace_run bed_nsE bed_R lag [[bed_unbound ''b''], []]"
    by (rule namespace_run.create [OF namespace_run.none]) (simp_all add: bed_unbound_sel)
  have 2: "namespace_run bed_nsE bed_R lag [[bed_unbound ''a'', bed_unbound ''b''], [bed_unbound ''b''], []]"
    by (rule namespace_run.create [OF 1]) (simp_all add: bed_unbound_sel)
  have "first_busy ''a'' ''node1'' [bed_unbound ''a'', bed_unbound ''b''] = None" by (simp add: bed_unbound_sel)
  from bed_bind_step [OF this] obtain r t where
    "run_state (dispatch bed_nsE bed_R (bed_unbound ''a'')) (bed_sys [bed_unbound ''a'', bed_unbound ''b'']) = (r, t)"
    "(CPatchDeploymentStatus (bed_unbound ''a'') (bed_bound ''a''), True)
      \<in> set (drop (length (calls (bed_sys [bed_unbound ''a'', bed_unbound ''b'']))) (calls t))" by blast
  with namespace_run.reconcile [OF 2, of 0] show ?thesis by (simp add: bed_ns_laws)
qed

theorem node_exclusive_witness:
  "\<exists>d h. namespace_run bed_nsE bed_R 0 ([bed_bound ''a'', d] # h) \<and> phase_of d = PhaseFailed \<and> exclusive [bed_bound ''a'', d]"
proof -
  have "first_busy ''b'' ''node1'' [bed_bound ''a'', bed_unbound ''b''] = Some (bed_bound ''a'')"
    by (simp add: bed_unbound_sel phased_dep_def)
  from bed_busy_step [OF this] obtain r t d where
    b: "run_state (dispatch bed_nsE bed_R (bed_unbound ''b'')) (bed_sys [bed_bound ''a'', bed_unbound ''b'']) = (r, t)"
      "(CPatchDeploymentStatus (bed_unbound ''b'') d, True)
        \<in> set (drop (length (calls (bed_sys [bed_bound ''a'', bed_unbound ''b'']))) (calls t))" and f: "phase_of d = PhaseFailed"
    by blast
  from namespace_run.reconcile [OF bed_first_bound [of 0], of 1] b
  have "namespace_run bed_nsE bed_R 0 ([bed_bound ''a'', d] # [[bed_bound ''a'', bed_unbound ''b''],
      [bed_unbound ''a'', bed_unbound ''b''], [bed_unbound ''b''], []])" by (simp add: bed_ns_laws)
  from this node_exclusive [OF this bed_ns_laws(1,2) bed_ns_keys] f show ?thesis by blast
qed

text \<open>
  C40: The proviso of C16 is needed, and the code does not provide it: the list comes from the cache of the
  client, and no patch of a deployment holds a lock. With a cache that is one write behind, in an
  environment that otherwise keeps all laws, two deployments end up Pulling for the same node.
\<close>

theorem lagging_cache_shares_node:
  "get_law bed_nsE \<and> patch_echo bed_nsE \<and> patch_keys bed_nsE \<and>
   (\<exists>h. namespace_run bed_nsE bed_R 1 ([bed_bound ''a'', bed_bound ''b''] # h)) \<and>
   d_Name (bed_bound ''a'') \<noteq> d_Name (bed_bound ''b'') \<and> phase_of (bed_bound ''a'') = PhasePulling \<and>
   phase_of (bed_bound ''b'') = PhasePulling \<and>
   dst_BoundNode (d_Status (bed_bound ''a'')) = ''node1'' \<and> dst_BoundNode (d_Status (bed_bound ''b'')) = ''node1''"
proof -
  let ?old = "[bed_unbound ''a'', bed_unbound ''b'']"
  have "first_busy ''b'' ''node1'' ?old = None" by (simp add: bed_unbound_sel)
  from bed_bind_step [OF this] obtain r t where
    "run_state (dispatch bed_nsE bed_R (bed_unbound ''b'')) (bed_sys ?old) = (r, t)"
    "(CPatchDeploymentStatus (bed_unbound ''b'') (bed_bound ''b''), True) \<in> set (drop (length (calls (bed_sys ?old))) (calls t))"
    by blast
  moreover have "lists_from bed_nsE (bed_unbound ''b'') (bed_sys ?old) [[bed_bound ''a'', bed_unbound ''b''], ?old]"
    by (simp add: lists_from_def bed_nsE_simps)
  ultimately have "namespace_run bed_nsE bed_R 1 ([bed_bound ''a'', bed_bound ''b''] # [[bed_bound ''a'', bed_unbound ''b''],
      ?old, [bed_unbound ''b''], []])"
    using namespace_run.reconcile [OF bed_first_bound [of 1], of 1] by simp
  then show ?thesis
    by (auto simp: bed_ns_laws bed_ns_keys bed_unbound_sel phased_dep_def)
qed

end
