(* ===== verification/Credentials.thy ===== *)
theory Credentials
  imports Binding NodeProps
begin

text \<open>
  Where the credentials go: the token of a device is sent to the address of that device and nowhere else, the
  password of the registry to the registry that the image names. A token is sent in the
  \<open>Authorization\<close> header of the agent client (\<open>doWith\<close>), the password in that of the registry client.
\<close>

section \<open>Addresses and credentials of a request\<close>

definition authorization :: "http_request \<Rightarrow> string option" where
  "authorization q = map_of (rq_Headers q) ''Authorization''"

definition addressed :: "string \<Rightarrow> string \<Rightarrow> http_request \<Rightarrow> bool" where
  "addressed ip tok q \<longleftrightarrow> (\<exists>path. rq_URL q = ''https://'' @ ip @ ''/v1alpha1'' @ path) \<and> authorization q = Some (''Bearer '' @ tok)"

lemma addressed_agent: "addressed ip tok (agent_request (agent_New ip tok) stream m p body n hs)"
  by (simp add: addressed_def authorization_def agent_request_def agent_New_def apiPrefix_def)

text \<open>A token of a Secret of the cluster: its value under a key, without the surrounding white space.\<close>

definition secret_token :: "'w ext \<Rightarrow> obj_key \<times> string \<Rightarrow> string \<Rightarrow> bool" where
  "secret_token E r tok \<longleftrightarrow> (\<exists>w sec w' v. kGetSecret E (fst r) w = (Inr sec, w') \<and> sec_Data sec (snd r) = Some v \<and> tok = trimSpace v)"

text \<open>A node the API server returned for a key, on a read or as the answer to a status patch.\<close>

definition node_under :: "'w ext \<Rightarrow> obj_key \<Rightarrow> mcunode \<Rightarrow> bool" where
  "node_under E k n \<longleftrightarrow> (\<exists>w w'. kGetNode E k w = (Inr n, w')) \<or>
     obj_key_of (n_Meta n) = k \<and> (\<exists>lock b m w w'. kPatchNodeStatus E lock b m w = (Inr n, w'))"

text \<open>
  A request to the node under a key: to the address the node has, with a token from one of the places in which
  the token of this node is kept.
\<close>

definition to_device :: "'w ext \<Rightarrow> obj_key \<Rightarrow> (mcunode \<Rightarrow> (obj_key \<times> string) list) \<Rightarrow> http_request \<Rightarrow> bool" where
  "to_device E k refs q \<longleftrightarrow> (\<exists>n tok r. node_under E k n \<and> r \<in> set (refs n) \<and> secret_token E r tok \<and>
     addressed (nst_IP (n_Status n)) tok q)"

text \<open>A request to the registry that an image names, with the password of the registry client if it has one.\<close>

definition to_registry :: "'w ext \<Rightarrow> oci_client \<Rightarrow> string \<Rightarrow> http_request \<Rightarrow> bool" where
  "to_registry E c img q \<longleftrightarrow> rq_Method q = ''GET'' \<and> rq_Body q = BNone \<and>
     (\<exists>r path. parseRef img = Inr r \<and> rq_URL q = scheme (ref_registry r) @ ''://'' @ ref_registry r @ ''/v2/'' @ path) \<and>
     authorization q = (if oc_Username c = '''' then None
       else Some (''Basic '' @ xBase64Encode E (oc_Username c @ '':'' @ oc_Password c)))"

text \<open>Where the token of a node is kept: for the deployment controller, and for the node controller.\<close>

definition dep_refs :: "dep_reconciler \<Rightarrow> mcunode \<Rightarrow> (obj_key \<times> string) list" where
  "dep_refs R n = [nodeTokenRef R n]"

definition node_refs :: "mcunode \<Rightarrow> (obj_key \<times> string) list" where
  "node_refs n = map (Pair (token_secret_key n (ns_TokenRef (n_Spec n)))) [''token'', ''previousToken'']"

section \<open>Clients\<close>

definition client_for :: "'w ext \<Rightarrow> obj_key \<Rightarrow> (mcunode \<Rightarrow> (obj_key \<times> string) list) \<Rightarrow> agent_client \<Rightarrow> bool" where
  "client_for E k refs cli \<longleftrightarrow> (\<exists>n tok r. node_under E k n \<and> r \<in> set (refs n) \<and> secret_token E r tok \<and>
     cli = agent_New (nst_IP (n_Status n)) tok)"

lemma client_for_request: "client_for E k refs cli \<Longrightarrow> to_device E k refs (agent_request cli stream m p body n hs)"
  unfolding client_for_def to_device_def using addressed_agent by blast

text \<open>The requests that satisfy a condition; other calls are not restricted.\<close>

definition http_only :: "(http_request \<Rightarrow> bool) \<Rightarrow> call \<times> bool \<Rightarrow> bool" where
  "http_only G c \<longleftrightarrow> (\<forall>q. fst c = CHttp q \<longrightarrow> G q)"

lemma http_only_simps [simp]: "http_only G (CHttp q, ok) \<longleftrightarrow> G q" "(\<And>q. k \<noteq> CHttp q) \<Longrightarrow> http_only G (k, ok)"
  by (simp_all add: http_only_def)

lemma emits_client_ops:
  assumes "client_for E k refs cli" "\<And>q. to_device E k refs q \<Longrightarrow> G q"
  shows "emits (http_only G) (GetInfo E cli)" "emits (http_only G) (GetConfig E cli)" "emits (http_only G) (PostConfig E cli data)"
    "emits (http_only G) (OTAPrepare E cli req)" "emits (http_only G) (OTAActivate E cli i)" "emits (http_only G) (PostReboot E cli)"
    "emits (http_only G) (RotateToken E cli t)" "emits (http_only G) (PostTLSCert E cli x y)" "emits (http_only G) (PostAppPort E cli p)"
    "emits (http_only G) (OTAWrite E cli i dg sz stream)"
proof -
  have a: "http_only G (c, b)" if "agent_call m pa cli c" for m pa c b
    using that assms(2) [OF client_for_request [OF assms(1)]] by (auto simp: agent_call_def)
  show "emits (http_only G) (GetInfo E cli)" "emits (http_only G) (GetConfig E cli)"
    "emits (http_only G) (OTAPrepare E cli req)" "emits (http_only G) (OTAActivate E cli i)" "emits (http_only G) (PostReboot E cli)"
    "emits (http_only G) (PostTLSCert E cli x y)" "emits (http_only G) (PostAppPort E cli p)"
    by (intro emits_intros; erule a)+
  show "emits (http_only G) (PostConfig E cli data)" "emits (http_only G) (RotateToken E cli t)"
    by (intro emits_intros; simp add: config_request_def assms(2) [OF client_for_request [OF assms(1)]])+
  show "emits (http_only G) (OTAWrite E cli i dg sz stream)"
    by (rule emits_mono [OF emits_OTAWrite_http]) (auto simp: ota_put_call_def http_only_def assms(2) [OF client_for_request [OF assms(1)]])
qed

lemma emits_no_http:
  "emits (http_only G) (nodeClient E R dep)" "emits (http_only G) (setPhase E dep q bn msg)"
  "emits (http_only G) (fail E dep reason msg)" "emits (http_only G) (persistNodeInfo E node i)"
  "emits (http_only G) (checkNotBusy E dep nm)" "emits (http_only G) (heartbeat_expired E st)"
  unfolding nodeClient_def nodeToken_def setPhase_def setPhase_status_def fail_def persistNodeInfo_def checkNotBusy_def
    heartbeat_expired_def Let_def
  by (intro emits_intros; simp)+

lemma emits_registry:
  assumes "\<And>q. to_registry E c img q \<Longrightarrow> rq_Timeout q = Some (120 * second) \<Longrightarrow> G q"
  shows "emits (http_only G) (ResolveFirmware E c img)" "emits (http_only G) (StreamBlob E c img dg)"
proof -
  have get: "G (oci_get (scheme (ref_registry r) @ ''://'' @ ref_registry r @ ''/v2/'' @ path) hs)"
    if "parseRef img = Inr r" "hs = oci_auth E c \<or> (\<exists>v. hs = (''Accept'', v) # oci_auth E c)" for r path hs
  proof (rule assms)
    from that(2) have "map_of hs ''Authorization'' = map_of (oci_auth E c) ''Authorization''" by auto
    with that(1) show "to_registry E c img (oci_get (scheme (ref_registry r) @ ''://'' @ ref_registry r @ ''/v2/'' @ path) hs)"
      unfolding to_registry_def authorization_def oci_get_def oci_auth_def by auto
  qed (simp add: oci_get_def ociTimeout_def)
  show "emits (http_only G) (ResolveFirmware E c img)"
    unfolding ResolveFirmware_def getManifest_def Let_def
    by (intro emits_intros) (unfold http_only_simps, blast intro: get)
  show "emits (http_only G) (StreamBlob E c img dg)"
    unfolding StreamBlob_def Let_def by (intro emits_intros) (unfold http_only_simps, blast intro: get)
qed

section \<open>The deployment controller\<close>

abbreviation bound_key :: "mcudeployment \<Rightarrow> obj_key" where
  "bound_key dep \<equiv> \<lparr>key_Namespace = d_Namespace dep, key_Name = dst_BoundNode (d_Status dep)\<rparr>"

definition dep_sends :: "'w ext \<Rightarrow> dep_reconciler \<Rightarrow> mcudeployment \<Rightarrow> http_request \<Rightarrow> bool" where
  "dep_sends E R dep q \<longleftrightarrow> to_registry E (dr_OCI R) (fw_Image (ds_Firmware (d_Spec dep))) q \<or>
     to_device E (bound_key dep) (dep_refs R) q"

abbreviation device_client :: "'w ext \<Rightarrow> dep_reconciler \<Rightarrow> mcudeployment \<Rightarrow> agent_client \<Rightarrow> bool" where
  "device_client E R dep \<equiv> client_for E (bound_key dep) (dep_refs R)"

lemma nodeClient_for:
  "results (\<lambda>r. \<forall>node cli. r = Inr (node, cli) \<longrightarrow> device_client E R dep cli) (nodeClient E R dep)"
proof -
  have "device_client E R dep (agent_New (nst_IP (n_Status n)) (trimSpace tok))"
    if "kGetNode E (bound_key dep) w = (Inr n, w1)" "kGetSecret E a w2 = (Inr sec, w3)" "nodeTokenRef R n = (a, b)"
      "sec_Data sec b = Some tok" for n w w1 w2 sec w3 tok a b
    using that unfolding client_for_def dep_refs_def node_under_def secret_token_def
    by (intro exI [of _ n] exI [of _ "trimSpace tok"] exI [of _ "(a, b)"]) auto
  then show ?thesis
    by (auto simp: results_def nodeClient_def nodeToken_def wp_simps split: sum.splits prod.splits option.splits)
qed

lemma emits_with_client:
  assumes "bound_key dep' = bound_key dep" "\<And>e. emits (http_only G) (f (Inl e))"
    and "\<And>node cli. device_client E R dep cli \<Longrightarrow> emits (http_only G) (f (Inr (node, cli)))"
  shows "emits (http_only G) (State_Monad.bind (nodeClient E R dep') f)"
proof (rule emits_bind_results [OF emits_no_http(1) nodeClient_for])
  show "emits (http_only G) (f r)" if "\<forall>node cli. r = Inr (node, cli) \<longrightarrow> device_client E R dep' cli" for r
    using that assms by (cases r) auto
qed

lemma sends_push:
  assumes "device_client E R dep cli"
  shows "emits (http_only (dep_sends E R dep)) (pushConfigIfNeeded E cli dep')"
  unfolding pushConfigIfNeeded_def Let_def
  by (intro emits_intros emits_client_ops [OF assms]) (simp_all add: dep_sends_def)

lemma sends_prepare:
  assumes "device_client E R dep cli"
  shows "emits (http_only (dep_sends E R dep)) (prepare_device E dep' node cli)"
  unfolding prepare_device_def
  by (intro emits_intros emits_no_http emits_client_ops [OF assms]) (simp_all add: dep_sends_def)

lemma sends_port:
  assumes "device_client E R dep cli"
  shows "emits (http_only (dep_sends E R dep)) (reconcileAppPort E cli node dep')"
  unfolding reconcileAppPort_def
  by (intro emits_intros emits_no_http emits_client_ops [OF assms]) (simp_all add: dep_sends_def)

lemma sends_config:
  assumes "bound_key dep' = bound_key dep"
  shows "emits (http_only (dep_sends E R dep)) (deployed_config E R dep')"
proof -
  have reboot: "emits (http_only (dep_sends E R dep)) (PostReboot E cli)" if "device_client E R dep cli" for cli
    by (intro emits_client_ops [OF that]) (simp add: dep_sends_def)
  have "emits (http_only (dep_sends E R dep)) (reconcileConfigOnly E R dep')"
    unfolding reconcileConfigOnly_def
    by (rule emits_with_client [OF assms])
      (auto intro!: emits_bind emits_return emits_if emits_no_http sends_push reboot split: sum.splits)
  then show ?thesis unfolding deployed_config_def by (intro emits_intros) simp_all
qed

lemma sends_deployed:
  assumes "patch_echo E" "patch_keys E"
  shows "emits (http_only (dep_sends E R dep)) (reconcileDeployed E R dep)"
proof -
  have echo: "bound_key d' = bound_key d" if "kPatchDeploymentStatus E b d w = (Inr d', w')" for b d w d' w'
  proof -
    from assms(2) that have "obj_key_of (d_Meta d') = obj_key_of (d_Meta d)" unfolding patch_keys_def by blast
    moreover from assms(1) that have "d_Status d' = d_Status d" unfolding patch_echo_def by blast
    ultimately show ?thesis by (simp add: obj_key_of_def)
  qed
  have available: "d_Namespace (available_dep E ex node dep) = d_Namespace dep"
    "dst_BoundNode (d_Status (available_dep E ex node dep)) = dst_BoundNode (d_Status dep)" for ex node
    by (simp_all add: available_dep_def)
  have port: "emits (http_only (dep_sends E R dep)) (do {
      cl \<leftarrow> nodeClient E R dep';
      (case cl of
         Inl err \<Rightarrow> ret (Inr (res_after (30 * second)))
       | Inr (_, cli) \<Rightarrow> do {
           a \<leftarrow> reconcileAppPort E cli node dep';
           (case a of Some err \<Rightarrow> ret (Inr (res_after (30 * second))) | None \<Rightarrow> deployed_config E R dep')
         }) })" if "bound_key dep' = bound_key dep" for dep' node
    by (rule emits_with_client [OF that])
      (auto intro!: emits_bind emits_return sends_port sends_config [OF that] split: option.splits)
  show ?thesis
    unfolding reconcileDeployed_def
    by (rule emits_ext_bind, simp, rule emits_case_sum, rule emits_return, rule emits_bind [OF emits_no_http(6)],
        rule emits_ext_bind, simp, intro emits_case_sum emits_return emits_if port sends_config)
      (auto simp: available dest!: echo)
qed

lemma sends_dispatch:
  assumes "patch_echo E" "patch_keys E"
  shows "emits (http_only (dep_sends E R dep)) (dispatch E R dep)"
proof -
  let ?P = "http_only (dep_sends E R dep)"
  have ops: "emits ?P (GetInfo E cli)" "emits ?P (OTAActivate E cli i)" "emits ?P (OTAWrite E cli i dg sz stream)"
    if "device_client E R dep cli" for cli i dg sz stream
    by (intro emits_client_ops [OF that]; simp add: dep_sends_def)+
  have reg: "emits ?P (ResolveFirmware E (dr_OCI R) (fw_Image (ds_Firmware (d_Spec dep))))"
    "emits ?P (StreamBlob E (dr_OCI R) (fw_Image (ds_Firmware (d_Spec dep))) dg)" for dg
    by (intro emits_registry; simp add: dep_sends_def)+
  have "emits ?P (phaseBinding E dep)"
    unfolding phaseBinding_def by (intro emits_intros emits_no_http) simp_all
  moreover have "emits ?P (phasePulling E R dep)"
    unfolding phasePulling_def by (intro emits_bind reg emits_case_sum emits_return emits_ext_call) simp_all
  moreover have "emits ?P (phasePreparing E R dep)"
    unfolding phasePreparing_def
    by (rule emits_with_client)
      (auto intro!: emits_if emits_bind emits_return emits_no_http sends_push sends_prepare split: sum.splits)
  moreover have "emits ?P (phaseWriting E R dep)"
    unfolding phaseWriting_def
    by (rule emits_with_client)
      (auto intro!: emits_bind emits_return emits_emit emits_no_http reg ops split: sum.splits option.splits)
  moreover have "emits ?P (phaseActivating E R dep)"
    unfolding phaseActivating_def
    by (rule emits_with_client)
      (auto intro!: emits_bind emits_return emits_emit emits_if emits_no_http ops split: sum.splits option.splits)
  moreover have "emits ?P (phaseConfirming E R dep)"
    unfolding phaseConfirming_def
    by (rule emits_with_client)
      (auto intro!: emits_if emits_bind emits_return emits_now emits_no_http split: sum.splits option.splits)
  ultimately show ?thesis
    using sends_deployed [OF assms] by (cases "phase_of dep") (simp_all add: dispatch_def emits_return)
qed

section \<open>The node controller\<close>

abbreviation node_key :: "mcunode \<Rightarrow> obj_key" where
  "node_key n \<equiv> obj_key_of (n_Meta n)"

abbreviation node_sends :: "'w ext \<Rightarrow> obj_key \<Rightarrow> call \<times> bool \<Rightarrow> bool" where
  "node_sends E k \<equiv> http_only (to_device E k node_refs)"

lemma node_client:
  assumes "node_under E k node" "kGetSecret E (token_secret_key node (ns_TokenRef (n_Spec node))) w = (Inr sec, w')"
    and "f \<in> {''token'', ''previousToken''}" "trimSpace (mget (sec_Data sec) f) \<noteq> ''''"
  shows "client_for E k node_refs (agent_New (nst_IP (n_Status node)) (trimSpace (mget (sec_Data sec) f)))"
proof -
  from assms(4) obtain v where v: "sec_Data sec f = Some v" "mget (sec_Data sec) f = v"
    by (cases "sec_Data sec f") (auto simp: mget_def)
  then have "secret_token E (token_secret_key node (ns_TokenRef (n_Spec node)), f) (trimSpace (mget (sec_Data sec) f))"
    using assms(2) unfolding secret_token_def by auto
  with assms(1,3) show ?thesis unfolding client_for_def node_refs_def by fastforce
qed


lemma currentToken_for:
  assumes "node_under E k node"
  shows "results (\<lambda>r. \<forall>tok. r = Inr tok \<longrightarrow> tok \<noteq> '''' \<longrightarrow>
    client_for E k node_refs (agent_New (nst_IP (n_Status node)) tok)) (currentToken E node)"
  unfolding results_def currentToken_def
  by (auto simp: wp_simps Let_def split: prod.splits sum.splits option.splits intro: node_client [OF assms])

lemma sends_rotation:
  assumes "node_under E k node"
  shows "emits (node_sends E k) (reconcileTokenRotation E rec node)"
proof -
  have rest: "emits (node_sends E k) (do {
      rres \<leftarrow> RotateToken E (agent_New (nst_IP (n_Status node)) prev) new;
      (case rres of
         Inl err \<Rightarrow> do { record_event rec node ''Warning'' ''TokenRotationFailed'' (m err); ret None }
       | Inr _ \<Rightarrow> do { record_event rec node ''Normal'' ''TokenRotationApplied'' msg; ret None }) })"
    if "client_for E k node_refs (agent_New (nst_IP (n_Status node)) prev)" for prev new m msg
    by (intro emits_intros emits_record_event emits_client_ops [OF that]) simp_all
  show ?thesis
    unfolding reconcileTokenRotation_def Let_def
    by (intro emits_if emits_return emits_ext_bind)
      (auto intro!: emits_if emits_return rest node_client [OF assms] split: sum.splits)
qed

lemma sends_push_tls:
  assumes "client_for E k node_refs (agent_New (nst_IP (n_Status node)) tok)"
  shows "emits (node_sends E k) (push_tls E rec node tok certPEM keyPEM digest)"
  unfolding push_tls_def Let_def
  by (intro emits_intros emits_record_event emits_client_ops [OF assms]) simp_all

lemma sends_tls:
  assumes "node_under E k node"
  shows "emits (node_sends E k) (reconcileTLSCert E rec node)"
proof -
  have tok: "emits (node_sends E k) (currentToken E node)" by (rule emits_currentToken) simp
  have push: "emits (node_sends E k) (do {
      tres \<leftarrow> currentToken E node;
      (case tres of
         Inl err \<Rightarrow> ret (IgnoreNotFound err, node)
       | Inr token \<Rightarrow> if token = '''' then ret (None, node) else push_tls E rec node token certPEM keyPEM digest) })"
    for certPEM keyPEM digest
    by (rule emits_bind_results [OF tok currentToken_for [OF assms]])
      (auto intro!: emits_return sends_push_tls split: sum.splits)
  show ?thesis
    unfolding reconcileTLSCert_def Let_def by (intro emits_if emits_return emits_ext_bind emits_case_sum push) simp_all
qed

text \<open>The node that \<open>reconcileTLSCert\<close> passes on is the one it was given or the answer to a patch of it.\<close>

lemma tls_node_under:
  assumes "patch_keys E" "node_under E k node" "node_key node = k"
  shows "results (\<lambda>r. \<forall>n'. r = (None, n') \<longrightarrow> node_under E k n') (reconcileTLSCert E rec node)"
proof -
  have "node_under E k n'" if "kPatchNodeStatus E lock node n w = (Inr n', w')" "node_key n = k" for lock n n' w w'
    using assms(1) that unfolding node_under_def patch_keys_def by metis
  then show ?thesis
    using assms(2,3)
    by (auto simp: results_def reconcileTLSCert_def push_tls_def currentToken_def PostTLSCert_def PostReboot_def agent_do_def
        doWith_def record_event_def wp_simps Let_def split: prod.splits sum.splits option.splits)
qed

lemma sends_reboot:
  assumes "node_under E k node"
  shows "emits (node_sends E k) (reconcileRebootRequest E rec node)"
proof -
  have tok: "emits (node_sends E k) (currentToken E node)" by (rule emits_currentToken) simp
  have reboot: "emits (node_sends E k) (PostReboot E cli)" if "client_for E k node_refs cli" for cli
    by (rule emits_client_ops [OF that])
  show ?thesis
    unfolding reconcileRebootRequest_def Let_def
    by (intro emits_if emits_return emits_bind_results [OF tok currentToken_for [OF assms]])
      (auto intro!: emits_if emits_bind emits_return emits_ext_call emits_record_event reboot split: sum.splits)
qed


lemma sends_live:
  assumes "patch_keys E" "node_key node = k"
  shows "emits (node_sends E k) (reconcile_live E rec node)"
proof -
  have svc: "emits (node_sends E k) (reconcileService E n)" "emits (node_sends E k) (reconcileEndpointSlice E n)" for n
    unfolding reconcileService_def reconcileEndpointSlice_def Let_def by (intro emits_intros; simp)+
  have tls: "emits (node_sends E k) (do {
      r4 \<leftarrow> reconcileTLSCert E rec n;
      (case r4 of
         (Some err, _) \<Rightarrow> ret (Some (wrap_err ''reconcile tls cert: '' err))
       | (None, node') \<Rightarrow> do {
           e5 \<leftarrow> reconcileRebootRequest E rec node';
           (case e5 of Some err \<Rightarrow> ret (Some (wrap_err ''reconcile reboot request: '' err)) | None \<Rightarrow> ret None)
         }) })" if n: "node_under E k n" "node_key n = k" for n
    by (rule emits_bind_results [OF sends_tls [OF n(1)] tls_node_under [OF assms(1) n]])
      (auto intro!: emits_bind emits_return sends_reboot split: option.splits prod.splits)
  have device: "emits (node_sends E k) (reconcile_device E rec n)" if "node_under E k n" "node_key n = k" for n
    unfolding reconcile_device_def
    by (intro emits_bind svc emits_case_option emits_return sends_rotation [OF that(1)] tls that)
  have answer: "node_under E k n' \<and> node_key n' = k" if "kPatchNodeStatus E lock b n w = (Inr n', w')" "node_key n = k" for lock b n n' w w'
    using assms(1) that unfolding node_under_def patch_keys_def by metis
  show ?thesis
    unfolding reconcile_live_def
    by (rule emits_bind [OF emits_no_http(6)], rule emits_ext_bind, simp, rule emits_case_sum, rule emits_return,
        rule emits_if, rule emits_bind, rule device)
      (auto dest!: answer simp: assms(2) intro!: emits_return split: option.splits)
qed

section \<open>Property\<close>

text \<open>
  C13: Every request of a run of the deployment controller goes either to the registry that the image of the
  deployment names, with the credentials of the registry client and no token, or to the address of the node it
  is bound to, with the token that a Secret holds for that node; every request of a run of the node controller
  goes to the address of its own node, with the current or the previous token of that node.
\<close>

theorem tokens_go_to_their_device:
  assumes "patch_echo E" "patch_keys E"
  shows "emits (http_only (\<lambda>q. to_registry E (dr_OCI R) (fw_Image (ds_Firmware (d_Spec dep))) q \<or>
      to_device E (bound_key dep) (dep_refs R) q)) (dispatch E R dep) \<and>
    emits (http_only (to_device E (node_key node) node_refs)) (reconcile_live E rec node)"
  using sends_dispatch [OF assms] sends_live [OF assms(2) refl] unfolding dep_sends_def [abs_def] by blast

text \<open>A deployment that is activated, and a node whose reboot is requested.\<close>

definition bed_credE :: "unit ext" where
  "bed_credE = bed_activating\<lparr>kGetService := (\<lambda>_ w. (Inl (ApiNotFound ''services''), w)),
     kGetSlice := (\<lambda>_ w. (Inl (ApiNotFound ''endpointslices''), w))\<rparr>"

definition bed_rebooted :: mcunode where
  "bed_rebooted = bed_node\<lparr>n_Meta := (n_Meta bed_node)\<lparr>m_Annotations := [annotationRebootRequested \<mapsto> ''now'']\<rparr>\<rparr>"

lemma bed_cred_simps:
  "kGetNode bed_credE k w = (Inr bed_node, w)" "kGetSecret bed_credE k w = (Inr (bed_secret [''token'' \<mapsto> ''x'']), w)"
  "kPatchNodeStatus bed_credE lock nb n w = (Inr n, w)" "kPatchDeployment bed_credE b d w = (Inr d, w)"
  "kPatchDeploymentStatus bed_credE b d w = (Inr d, w)" "tNow bed_credE w = (0, w)"
  "kGetService bed_credE k w = (Inl (ApiNotFound ''services''), w)" "kGetSlice bed_credE k w = (Inl (ApiNotFound ''endpointslices''), w)"
  "kCreateService bed_credE sv w = (Inr sv, w)" "kCreateSlice bed_credE sl w = (Inr sl, w)"
  "kSetControllerReference bed_credE nd m = Inr (m\<lparr>m_OwnerReferences := [m_UID (n_Meta nd)]\<rparr>)"
  "hNewRequest bed_credE me u = None" "hDo bed_credE q w = (Inr (bed_ok ''i''), w)" "jInfo bed_credE bd = Inr bed_info"
  by (simp_all add: bed_credE_def bed_activating_def bed_up_at_def bedE_def)

lemma bed_cred_laws: "patch_echo bed_credE" "patch_keys bed_credE"
  by (auto simp: patch_echo_def patch_keys_def bed_cred_simps)

lemma bed_cred_activating:
  "\<exists>r t. run_state (dispatch bed_credE bed_R (bed_dep PhaseActivating)) (bed_sys ()) = (r, t) \<and>
    (CHttp (agent_request bed_cli False ''GET'' ''/info'' BNone (-1) []), True) \<in> set (drop (length (calls (bed_sys ()))) (calls t))"
proof -
  let ?q = "agent_request bed_cli False ''GET'' ''/info'' BNone (-1) []"
  have cl: "run_state (nodeClient bed_credE bed_R (bed_dep PhaseActivating)) (bed_sys ()) =
      (Inr (bed_node, bed_cli), bed_sys ()\<lparr>calls := bed_client_calls\<rparr>)"
    by (rule bed_nodeClient_in) (simp_all add: bed_cred_simps bed_node_def)
  have i: "run_state (GetInfo bed_credE bed_cli) x = (Inr bed_info, x\<lparr>calls := calls x @ [(CHttp ?q, True)]\<rparr>)" for x
    by (simp add: GetInfo_def agent_do_def doWith_def ext_call_def bed_cred_simps bed_ok_def)
  have a: "alreadyActivated (bed_dep PhaseActivating) bed_info" "phase_of (bed_dep PhaseActivating) = PhaseActivating"
    by (simp_all add: alreadyActivated_def bed_info_def bed_dep_def)
  have v: "NegotiateAPIVersion (ir_ApiVersions bed_info) = Inr ''v1alpha1''"
    by (simp add: NegotiateAPIVersion_def SupportedAPIVersion_def bed_info_def)
  obtain r t where run: "run_state (dispatch bed_credE bed_R (bed_dep PhaseActivating)) (bed_sys ()) = (r, t)"
    by (metis surj_pair)
  then have "(CHttp ?q, True) \<in> set (calls t)"
    using i [of "bed_sys ()\<lparr>calls := bed_client_calls\<rparr>"]
    by (auto simp: dispatch_def phaseActivating_def cl persistNodeInfo_def v ext_call_def err_of_def a setPhase_def
        setPhase_status_def now_def Let_def split: prod.splits sum.splits if_splits)
  with run show ?thesis by auto
qed

lemma bed_cred_rebooted:
  "\<exists>r t. run_state (reconcile_live bed_credE True bed_rebooted) (bed_sys ()) = (r, t) \<and>
    (CHttp (agent_request bed_cli False ''POST'' ''/reboot'' (BJson (JObj [])) (-1) json_header), True)
      \<in> set (drop (length (calls (bed_sys ()))) (calls t))"
proof -
  have n: "nst_LastHeartbeat (n_Status bed_rebooted) = Some 0" "nst_IP (n_Status bed_rebooted) = ''10.0.0.1''"
    "sr_Name (ns_TokenRef (n_Spec bed_rebooted)) = ''tok''" "sr_Name (ns_TLSSecretRef (n_Spec bed_rebooted)) = ''''"
    "mget (m_Annotations (n_Meta bed_rebooted)) annotationRebootRequested = ''now''"
    "nst_LastRebootRequested (node_status_update E ex (n_Status bed_rebooted)) = ''''" for E :: "unit ext" and ex
    by (simp_all add: node_status_update_def Let_def bed_rebooted_def bed_node_def bed_meta_def new_meta_def)
  have x: "mget (sec_Data (bed_secret [''token'' \<mapsto> ''x''])) ''token'' = ''x''"
    "mget (sec_Data (bed_secret [''token'' \<mapsto> ''x''])) ''previousToken'' = ''''"
    by (simp_all add: bed_secret_def mget_def)
  have t: "trimSpace ''x'' = ''x''" by code_simp
  have r: "run_state (PostReboot bed_credE cli) s = (Inr (), s\<lparr>calls := calls s @
      [(CHttp (agent_request cli False ''POST'' ''/reboot'' (BJson (JObj [])) (-1) json_header), True)]\<rparr>)" for cli s
    by (simp add: PostReboot_def agent_do_def doWith_def ext_call_def bed_cred_simps bed_ok_def)
  show ?thesis
    by (simp add: reconcile_live_def heartbeat_expired_def now_def ext_call_def bed_cred_simps n node_status_update_facts Let_def err_of_def
        reconcile_device_def reconcileService_def reconcileEndpointSlice_def reconcileTokenRotation_def
        reconcileTLSCert_def reconcileRebootRequest_def currentToken_def x t r bed_cli_def record_event_def emit_def)
qed

theorem tokens_go_to_their_device_witness:
  "\<exists>q q'. rq_URL q = ''https://10.0.0.1/v1alpha1/info'' \<and>
    (to_registry bed_credE (dr_OCI bed_R) ''reg/app:1'' q \<or> to_device bed_credE (bound_key (bed_dep PhaseActivating)) (dep_refs bed_R) q) \<and>
    rq_URL q' = ''https://10.0.0.1/v1alpha1/reboot'' \<and> to_device bed_credE (node_key bed_rebooted) node_refs q'"
proof -
  obtain r t where 1: "run_state (dispatch bed_credE bed_R (bed_dep PhaseActivating)) (bed_sys ()) = (r, t)"
    "(CHttp (agent_request bed_cli False ''GET'' ''/info'' BNone (-1) []), True) \<in> set (drop (length (calls (bed_sys ()))) (calls t))"
    using bed_cred_activating by blast
  obtain r' t' where 2: "run_state (reconcile_live bed_credE True bed_rebooted) (bed_sys ()) = (r', t')"
    "(CHttp (agent_request bed_cli False ''POST'' ''/reboot'' (BJson (JObj [])) (-1) json_header), True)
      \<in> set (drop (length (calls (bed_sys ()))) (calls t'))"
    using bed_cred_rebooted by blast
  note sent = tokens_go_to_their_device [OF bed_cred_laws, of bed_R "bed_dep PhaseActivating" bed_rebooted True]
  have u: "rq_URL (agent_request bed_cli False m p b n hs) = ''https://10.0.0.1/v1alpha1'' @ p" for m p b n hs
    by (simp add: agent_request_def bed_cli_def agent_New_def apiPrefix_def)
  have img: "fw_Image (ds_Firmware (d_Spec (bed_dep PhaseActivating))) = ''reg/app:1''" by (simp add: bed_dep_def)
  note 3 = emits_new [OF conjunct1 [OF sent] 1, unfolded http_only_simps img]
    and 4 = emits_new [OF conjunct2 [OF sent] 2, unfolded http_only_simps]
  show ?thesis
    by (rule exI, rule exI, intro conjI, rule u [of _ "''/info''", simplified], rule 3,
        rule u [of _ "''/reboot''", simplified], rule 4)
qed

end
