(* ===== verification/ProgressProps.thy ===== *)
theory ProgressProps
  imports DeploymentProps NodeProps Credentials
begin

text \<open>
  Progress of the two controllers: a run never ends a job that is not done without asking for another run,
  and the periodic runs of the node controller withdraw the traffic of a silent device in bounded time.
\<close>

section \<open>A run asks for another\<close>

text \<open>
  The controller runtime runs a request again if the run returned an error, asked for a requeue, or gave a
  positive delay. \<open>persists m\<close>: a run of \<open>m\<close> does one of these, or ends with the accepted patch that
  declares the deployment failed.
\<close>

definition requeues :: "gerr + ctrl_result \<Rightarrow> bool" where
  "requeues r = (case r of Inl _ \<Rightarrow> True | Inr res \<Rightarrow> cr_Requeue res \<or> cr_RequeueAfter res > 0)"

lemma requeues_simps [simp]:
  "requeues (Inl e)" "requeues (Inr res_requeue)" "\<not> requeues (Inr res_done)" "requeues (Inr (res_after d)) \<longleftrightarrow> d > 0"
  by (simp_all add: requeues_def res_requeue_def res_done_def res_after_def)

definition declared_failed :: "'w sys \<Rightarrow> bool" where
  "declared_failed t \<longleftrightarrow> (\<exists>l b d. calls t = l @ [(CPatchDeploymentStatus b d, True)] \<and> phase_of d = PhaseFailed)"

definition persists :: "('w sys, gerr + ctrl_result) state \<Rightarrow> bool" where
  "persists m \<longleftrightarrow> (\<forall>s. wp m (\<lambda>r t. requeues r \<or> declared_failed t) s)"

lemma persists_ret: "requeues r \<Longrightarrow> persists (ret r)"
  by (simp add: persists_def wp_simps)

lemma persists_bind: "(\<And>a. persists (f a)) \<Longrightarrow> persists (State_Monad.bind m f)"
  by (simp add: persists_def wp_simps) (simp add: wp_def split: prod.splits)

lemma persists_if: "(b \<Longrightarrow> persists m) \<Longrightarrow> (\<not> b \<Longrightarrow> persists n) \<Longrightarrow> persists (if b then m else n)"
  by simp

lemma persists_case_sum:
  "(\<And>e. r = Inl e \<Longrightarrow> persists (f e)) \<Longrightarrow> (\<And>x. r = Inr x \<Longrightarrow> persists (g x)) \<Longrightarrow>
     persists (case r of Inl e \<Rightarrow> f e | Inr x \<Rightarrow> g x)"
  by (simp split: sum.splits)

lemma persists_case_option:
  "(r = None \<Longrightarrow> persists f) \<Longrightarrow> (\<And>x. r = Some x \<Longrightarrow> persists (g x)) \<Longrightarrow>
     persists (case r of None \<Rightarrow> f | Some x \<Rightarrow> g x)"
  by (simp split: option.splits)

lemma persists_case_prod: "(\<And>x y. r = (x, y) \<Longrightarrow> persists (f x y)) \<Longrightarrow> persists (case r of (x, y) \<Rightarrow> f x y)"
  by (simp split: prod.splits)

lemma persists_fail: "persists (fail E dep reason msg)"
  by (auto simp: persists_def fail_def wp_simps declared_failed_def split: prod.splits sum.splits)

lemma persists_setPhase: "persists (setPhase E dep p bn msg)"
  unfolding setPhase_def setPhase_status_def
  by (intro persists_if persists_bind persists_case_sum persists_ret) simp_all

lemmas persists_intros = persists_bind persists_if persists_case_sum persists_case_option persists_case_prod
  persists_fail persists_setPhase

lemma persists_binding: "persists (phaseBinding E dep)"
  unfolding phaseBinding_def
  by (auto intro!: persists_intros persists_ret split: list.splits)

lemma persists_prepare_device: "persists (prepare_device E dep node cli)"
  unfolding prepare_device_def
  by (intro persists_intros) (auto simp: second_def intro!: persists_intros persists_ret split: option.splits)

lemma persists_phases:
  "persists (phasePulling E R dep)" "persists (phasePreparing E R dep)" "persists (phaseWriting E R dep)"
  "persists (phaseActivating E R dep)" "persists (phaseConfirming E R dep)"
  unfolding phasePulling_def phasePreparing_def phaseWriting_def phaseActivating_def phaseConfirming_def
  by (intro persists_intros persists_prepare_device persists_ret; simp add: second_def)+

lemma persists_dispatch:
  "phase_of dep \<notin> {PhaseDeployed, PhaseFailed} \<Longrightarrow> (\<nexists>x. phase_of dep = PhaseOther x) \<Longrightarrow> persists (dispatch E R dep)"
  by (cases "phase_of dep") (simp_all add: dispatch_def persists_binding persists_phases)

text \<open>
  C6: No deployment is dropped: a run of the deployment controller that neither returns an error nor asks for
  another run found that the deployment does not exist, or is Failed or Deployed (or has a phase the
  controller does not know), or its last call was the patch, accepted, that declares it Failed. So a
  deployment in any of the phases from Binding to Confirming is tried again until it is Deployed or Failed,
  whatever the API server, the registry and the device answer.
\<close>

theorem never_stalls:
  assumes "run_state (Reconcile_deployment E R key) s = (Inr res, t)" "\<not> cr_Requeue res" "cr_RequeueAfter res \<le> 0"
    and "kGetDeployment E key (world s) = (g, w)"
  shows "(\<exists>e. g = Inl e \<and> is_not_found e) \<or>
    (\<exists>dep. g = Inr dep \<and>
       (phase_of dep \<in> {PhaseDeployed, PhaseFailed} \<or> (\<exists>x. phase_of dep = PhaseOther x) \<or>
        (\<exists>l b d. calls t = calls s @ l @ [(CPatchDeploymentStatus b d, True)] \<and> phase_of d = PhaseFailed)))"
proof (cases g)
  case (Inl e)
  with assms show ?thesis
    by (auto simp: Reconcile_deployment_def ext_call_def split: if_splits)
next
  case (Inr dep)
  let ?u = "s\<lparr>world := w, calls := calls s @ [(CGetDeployment key, True)]\<rparr>"
  have run: "run_state (dispatch E R dep) ?u = (Inr res, t)"
    using assms(1,4) Inr by (simp add: Reconcile_deployment_def ext_call_def)
  have idle: "\<not> requeues (Inr res :: gerr + ctrl_result)" using assms(2,3) by (simp add: requeues_def)
  show ?thesis
  proof (cases "phase_of dep \<in> {PhaseDeployed, PhaseFailed} \<or> (\<exists>x. phase_of dep = PhaseOther x)")
    case False
    then have "persists (dispatch E R dep)" by (intro persists_dispatch) simp_all
    then have "declared_failed t"
      using idle run unfolding persists_def by (blast dest: wpD)
    moreover obtain l' where l': "calls t = calls s @ (CGetDeployment key, True) # l'"
      using emitsD [OF dispatcher.handler_legal [THEN emits_mono] run] by fastforce
    ultimately obtain l b d where "calls s @ (CGetDeployment key, True) # l' = l @ [(CPatchDeploymentStatus b d, True)]"
      "phase_of d = PhaseFailed" by (auto simp: declared_failed_def)
    then have "calls t = calls s @ ((CGetDeployment key, True) # butlast l') @ [(CPatchDeploymentStatus b d, True)]"
      using l' by (cases l' rule: rev_cases) auto
    with Inr \<open>phase_of d = PhaseFailed\<close> show ?thesis by blast
  qed (use Inr in blast)
qed

section \<open>The slice of a successful run\<close>

text \<open>A slice with the given endpoints was published, and accepted, between two states.\<close>

definition published :: "endpoint list \<Rightarrow> 'w sys \<Rightarrow> 'w sys \<Rightarrow> bool" where
  "published eps s t \<longleftrightarrow> (\<exists>l k x. calls t = calls s @ l \<and> (k, True) \<in> set l \<and> publishes k x \<and> es_Endpoints x = eps)"

lemma published_before: "published eps u t \<Longrightarrow> calls u = calls s @ l \<Longrightarrow> published eps s t"
  unfolding published_def by (elim exE conjE, intro exI [of _ "l @ _"] exI conjI) auto

lemma published_after: "published eps s u \<Longrightarrow> calls t = calls u @ l \<Longrightarrow> published eps s t"
  unfolding published_def by (elim exE conjE, intro exI [of _ "_ @ l"] exI conjI) auto

lemma reconcileEndpointSlice_published:
  "wp (reconcileEndpointSlice E node) (\<lambda>r t. r = None \<longrightarrow> published (es_Endpoints (desired_slice node)) s t) s"
  by (auto simp: reconcileEndpointSlice_def Let_def wp_simps err_of_def published_def
      split: prod.splits sum.splits)

lemma reconcile_device_published:
  "wp (reconcile_device E rec node) (\<lambda>r t. r = None \<longrightarrow> published (es_Endpoints (desired_slice node)) s t) s"
proof (rule wpI)
  fix r t assume run: "run_state (reconcile_device E rec node) s = (r, t)"
  show "r = None \<longrightarrow> published (es_Endpoints (desired_slice node)) s t"
  proof
    assume "r = None"
    let ?rest = "do {
         e3 \<leftarrow> reconcileTokenRotation E rec node;
         (case e3 of Some err \<Rightarrow> ret (Some (wrap_err ''reconcile token rotation: '' err)) | None \<Rightarrow> do {
           r4 \<leftarrow> reconcileTLSCert E rec node;
           (case r4 of
              (Some err, _) \<Rightarrow> ret (Some (wrap_err ''reconcile tls cert: '' err))
            | (None, node') \<Rightarrow> do {
                e5 \<leftarrow> reconcileRebootRequest E rec node';
                (case e5 of
                   Some err \<Rightarrow> ret (Some (wrap_err ''reconcile reboot request: '' err))
                 | None \<Rightarrow> ret None)
              })
         }) }"
    from run \<open>r = None\<close> obtain u v where
      1: "run_state (reconcileService E node) s = (None, u)" and
      2: "run_state (reconcileEndpointSlice E node) u = (None, v)" and 3: "run_state ?rest v = (None, t)"
      by (auto simp: reconcile_device_def split: prod.splits option.splits)
    have any: "emits (\<lambda>_. True) m" if "emits P m" for P and m :: "('a sys, 'b) state"
      by (rule emits_mono [OF that]) simp
    have q: "emits (\<lambda>_. True) ?rest"
      unfolding reconcileTokenRotation_def reconcileTLSCert_def push_tls_def reconcileRebootRequest_def
      by (intro emits_intros emits_record_event emits_currentToken) simp_all
    from wpD [OF reconcileEndpointSlice_published 2] have "published (es_Endpoints (desired_slice node)) u v" by simp
    moreover obtain l where "calls u = calls s @ l" using emitsD [OF any [OF emits_reconcileService] 1] by blast
    moreover obtain l' where "calls t = calls v @ l'" using emitsD [OF q 3] by blast
    ultimately show "published (es_Endpoints (desired_slice node)) s t"
      by (blast intro: published_before published_after)
  qed
qed

lemma reconcile_live_done:
  assumes "run_state (reconcile_live E rec node) s = (Inr res, t)" "tNow E (world s) = (\<tau>, w)" "patch_echo E"
    and "nst_LastHeartbeat (n_Status node) = Some hb" "nst_IP (n_Status node) \<noteq> ''''"
  shows "res = res_after HeartbeatTimeout \<and>
    (CPatchNodeStatus True node (upd_nstatus (node_status_update E (\<tau> - hb > HeartbeatTimeout)) node), True)
      \<in> set (drop (length (calls s)) (calls t)) \<and>
    published [\<lparr>ep_Addresses = [nst_IP (n_Status node)],
        ep_Ready = nst_Ready (node_status_update E (\<tau> - hb > HeartbeatTimeout) (n_Status node))\<rparr>] s t"
proof -
  let ?ex = "\<tau> - hb > HeartbeatTimeout"
  let ?n = "upd_nstatus (node_status_update E ?ex) node"
  have ex: "time_since \<tau> hb > HeartbeatTimeout \<longleftrightarrow> ?ex"
    unfolding HeartbeatTimeout_def by (rule time_since_gt) (simp_all add: second_def)
  from assms(1,2,4) obtain n' w' u where
    p: "kPatchNodeStatus E True node ?n w = (Inr n', w')" and
    u: "u = s\<lparr>world := w', calls := calls s @ [(CTime, True), (CPatchNodeStatus True node ?n, True)]\<rparr>" and
    cont: "run_state (if nst_IP (n_Status n') \<noteq> '''' then do {
            e \<leftarrow> reconcile_device E rec n';
            (case e of Some err \<Rightarrow> ret (Inl err) | None \<Rightarrow> ret (Inr (res_after HeartbeatTimeout)))
          }
          else ret (Inr (res_after HeartbeatTimeout))) u = (Inr res, t)"
    by (auto simp: reconcile_live_def heartbeat_expired_def now_def ext_call_def ex split: prod.splits sum.splits)
  from p assms(3) have n': "n_Status n' = node_status_update E ?ex (n_Status node)"
    unfolding patch_echo_def by (metis upd_nstatus_sel(3))
  then have ip: "nst_IP (n_Status n') = nst_IP (n_Status node)" by (simp add: node_status_update_facts)
  from cont ip assms(5) obtain v where d: "run_state (reconcile_device E rec n') u = (None, v)" and
    r: "res = res_after HeartbeatTimeout" "t = v"
    by (auto split: prod.splits option.splits)
  from wpD [OF reconcile_device_published d] have pub: "published (es_Endpoints (desired_slice n')) u t" using r by simp
  have s: "calls u = calls s @ [(CTime, True), (CPatchNodeStatus True node ?n, True)]" by (simp add: u)
  from pub s have "(CPatchNodeStatus True node ?n, True) \<in> set (drop (length (calls s)) (calls t))"
    by (auto simp: published_def)
  moreover from published_before [OF pub s] have "published [\<lparr>ep_Addresses = [nst_IP (n_Status node)],
      ep_Ready = nst_Ready (node_status_update E ?ex (n_Status node))\<rparr>] s t"
    by (simp add: desired_slice_def n' ip node_status_update_facts)
  ultimately show ?thesis using r by simp
qed

section \<open>Traffic is withdrawn in time\<close>

lemma clock_passes:
  fixes \<tau> :: "nat \<Rightarrow> int"
  assumes "\<And>i. \<tau> i < \<tau> (Suc i)" "\<tau> 0 \<le> x"
  obtains i where "\<tau> i \<le> x" "x < \<tau> (Suc i)"
proof -
  have "\<tau> 0 + int i \<le> \<tau> i" for i
  proof (induction i)
    case (Suc i)
    then show ?case using assms(1) [of i] by simp
  qed simp
  from this [of "nat (x - \<tau> 0 + 1)"] assms(2) have ex: "x < \<tau> (nat (x - \<tau> 0 + 1))" by simp
  define m where "m = (LEAST i. x < \<tau> i)"
  have m: "x < \<tau> m" unfolding m_def by (rule LeastI, rule ex)
  with assms(2) have "m \<noteq> 0" by (cases m) auto
  then obtain j where j: "m = Suc j" by (cases m) auto
  have "\<not> x < \<tau> j" using not_less_Least [of j "\<lambda>i. x < \<tau> i"] j unfolding m_def by simp
  with m j show thesis by (intro that [of j]) simp_all
qed

text \<open>
  C17: A silent device stops getting traffic in bounded time: if the runs of the node controller succeed and
  each comes no later than the delay that the run before asked for, plus \<open>late\<close>, then some run within twenty
  seconds (plus \<open>late\<close>) of the last heartbeat marks the node offline and not ready, and publishes its
  endpoint as not ready.
\<close>

theorem traffic_withdrawn_in_time:
  assumes "patch_echo E" "\<And>i. run_state (reconcile_live E rec (node i)) (s i) = (Inr (res i), t i)"
    and "\<And>i. fst (tNow E (world (s i))) = \<tau> i" "\<And>i. \<tau> i < \<tau> (Suc i)"
    and "\<And>i. \<tau> (Suc i) \<le> \<tau> i + cr_RequeueAfter (res i) + late"
    and "\<And>i. nst_LastHeartbeat (n_Status (node i)) = Some hb" "\<And>i. nst_IP (n_Status (node i)) = ip" "ip \<noteq> ''''"
    and "\<tau> 0 \<le> hb + 10 * second"
  shows "\<exists>i n. hb + 10 * second < \<tau> i \<and> \<tau> i \<le> hb + 20 * second + late \<and>
    (CPatchNodeStatus True (node i) n, True) \<in> set (drop (length (calls (s i))) (calls (t i))) \<and>
    nst_State (n_Status n) = ''offline'' \<and> \<not> nst_Ready (n_Status n) \<and>
    published [\<lparr>ep_Addresses = [ip], ep_Ready = False\<rparr>] (s i) (t i)"
proof -
  obtain i where i: "\<tau> i \<le> hb + 10 * second" "hb + 10 * second < \<tau> (Suc i)"
    using clock_passes [of \<tau> "hb + 10 * second"] assms(4,9) by blast
  have clock: "\<exists>w. tNow E (world (s j)) = (\<tau> j, w)" for j using assms(3) [of j] by (metis prod.collapse)
  have fin: "res j = res_after HeartbeatTimeout \<and>
    (CPatchNodeStatus True (node j) (upd_nstatus (node_status_update E (\<tau> j - hb > HeartbeatTimeout)) (node j)), True)
      \<in> set (drop (length (calls (s j))) (calls (t j))) \<and>
    published [\<lparr>ep_Addresses = [ip],
        ep_Ready = nst_Ready (node_status_update E (\<tau> j - hb > HeartbeatTimeout) (n_Status (node j)))\<rparr>] (s j) (t j)" for j
    using reconcile_live_done [OF assms(2) _ assms(1) assms(6)] clock [of j] assms(7,8) by metis
  from fin [of i] i(1) assms(5) [of i] have "\<tau> (Suc i) \<le> hb + 20 * second + late"
    by (simp add: res_after_def HeartbeatTimeout_def)
  moreover have "\<tau> (Suc i) - hb > HeartbeatTimeout" using i(2) by (simp add: HeartbeatTimeout_def)
  ultimately show ?thesis
    using fin [of "Suc i"] i(2) assms(6) [of "Suc i"]
    by (intro exI [of _ "Suc i"] exI [of _ "upd_nstatus (node_status_update E True) (node (Suc i))"])
      (simp add: node_status_update_facts)
qed

section \<open>Deadlines\<close>

text \<open>
  A request to the API of a device, under its address and with a token: the upload of a range of the firmware
  has no deadline, every other request has ten seconds. A request to the registry has two minutes.
\<close>

definition device_deadline :: "http_request \<Rightarrow> bool" where
  "device_deadline q \<longleftrightarrow> (\<exists>ip tok. addressed ip tok q) \<and>
     (if rq_Method q = ''PUT'' then device_request (''PUT'', ''/ota/write'') q \<and> rq_Timeout q = None
      else rq_Timeout q = Some (10 * second))"

definition registry_deadline :: "'w ext \<Rightarrow> oci_client \<Rightarrow> string \<Rightarrow> http_request \<Rightarrow> bool" where
  "registry_deadline E c img q \<longleftrightarrow> to_registry E c img q \<and> rq_Timeout q = Some (120 * second)"

abbreviation dep_deadline :: "'w ext \<Rightarrow> dep_reconciler \<Rightarrow> http_request \<Rightarrow> bool" where
  "dep_deadline E R q \<equiv> (\<exists>img. registry_deadline E (dr_OCI R) img q) \<or> device_deadline q"

lemma device_deadline_call:
  "m \<noteq> ''PUT'' \<Longrightarrow> device_deadline (agent_request (agent_New ip tok) False m p b n hs)"
  "device_deadline (agent_request (agent_New ip tok) True ''PUT'' ''/ota/write'' b n hs)"
proof -
  have sel: "rq_Method (agent_request c st m p b n hs) = m"
    "rq_Timeout (agent_request c st m p b n hs) = (if st then None else Some (10 * second))" for c st m p b n hs
    by (simp_all add: agent_request_def httpTimeout_def)
  have "\<exists>ip' tok'. addressed ip' tok' (agent_request (agent_New ip tok) st m p b n hs)" for st m p b n hs
    using addressed_agent by blast
  then show "m \<noteq> ''PUT'' \<Longrightarrow> device_deadline (agent_request (agent_New ip tok) False m p b n hs)"
    "device_deadline (agent_request (agent_New ip tok) True ''PUT'' ''/ota/write'' b n hs)"
    unfolding device_deadline_def by (simp add: sel, simp add: sel device_request_def, blast)
qed

lemma timed_ops:
  assumes "cli = agent_New ip tok" "\<And>q. device_deadline q \<Longrightarrow> G q"
  shows "emits (http_only G) (GetInfo E cli)" "emits (http_only G) (GetConfig E cli)" "emits (http_only G) (PostConfig E cli data)"
    "emits (http_only G) (OTAPrepare E cli req)" "emits (http_only G) (OTAActivate E cli i)" "emits (http_only G) (PostReboot E cli)"
    "emits (http_only G) (RotateToken E cli t)" "emits (http_only G) (PostTLSCert E cli x y)" "emits (http_only G) (PostAppPort E cli p)"
    "emits (http_only G) (OTAWrite E cli i dg sz stream)"
proof -
  have a: "http_only G (c, b)" if "agent_call m pa cli c" "m \<noteq> ''PUT''" for m pa c b
    using that assms(2) [OF device_deadline_call(1)] by (auto simp: agent_call_def assms(1))
  show "emits (http_only G) (GetInfo E cli)" "emits (http_only G) (GetConfig E cli)"
    "emits (http_only G) (OTAPrepare E cli req)" "emits (http_only G) (OTAActivate E cli i)" "emits (http_only G) (PostReboot E cli)"
    "emits (http_only G) (PostTLSCert E cli x y)" "emits (http_only G) (PostAppPort E cli p)"
    by (intro emits_intros; erule a; simp)+
  show "emits (http_only G) (PostConfig E cli data)" "emits (http_only G) (RotateToken E cli t)"
    by (intro emits_intros; simp add: config_request_def assms(2) [OF device_deadline_call(1)] assms(1))+
  show "emits (http_only G) (OTAWrite E cli i dg sz stream)"
    by (rule emits_mono [OF emits_OTAWrite_http])
      (auto simp: ota_put_call_def http_only_def assms(2) [OF device_deadline_call(2)] assms(1))
qed

lemma nodeClient_New:
  "results (\<lambda>r. \<forall>node cli. r = Inr (node, cli) \<longrightarrow> (\<exists>ip tok. cli = agent_New ip tok)) (nodeClient E R dep)"
  by (auto simp: results_def nodeClient_def nodeToken_def wp_simps split: sum.splits prod.splits option.splits)

lemma timed_with_client:
  assumes "\<And>e. emits (http_only G) (f (Inl e))" "\<And>node ip tok. emits (http_only G) (f (Inr (node, agent_New ip tok)))"
  shows "emits (http_only G) (State_Monad.bind (nodeClient E R dep) f)"
proof (rule emits_bind_results [OF emits_no_http(1) nodeClient_New])
  show "emits (http_only G) (f r)" if "\<forall>node cli. r = Inr (node, cli) \<longrightarrow> (\<exists>ip tok. cli = agent_New ip tok)" for r
    using that assms by (cases r) auto
qed

lemma timed_parts:
  fixes ip tok defines "cli \<equiv> agent_New ip tok"
  shows "emits (http_only (dep_deadline E R)) (pushConfigIfNeeded E cli dep)"
    "emits (http_only (dep_deadline E R)) (prepare_device E dep node cli)"
    "emits (http_only (dep_deadline E R)) (reconcileAppPort E cli node dep)"
    "emits (http_only (dep_deadline E R)) (PostReboot E cli)" "emits (http_only (dep_deadline E R)) (GetInfo E cli)"
    "emits (http_only (dep_deadline E R)) (OTAActivate E cli i)"
    "emits (http_only (dep_deadline E R)) (OTAWrite E cli i dg sz stream)"
  unfolding pushConfigIfNeeded_def prepare_device_def reconcileAppPort_def Let_def
  by (intro emits_intros emits_no_http timed_ops [OF cli_def [THEN meta_eq_to_obj_eq]]; simp)+

lemma timed_config: "emits (http_only (dep_deadline E R)) (deployed_config E R dep)"
proof -
  have "emits (http_only (dep_deadline E R)) (reconcileConfigOnly E R dep)"
    unfolding reconcileConfigOnly_def
    by (rule timed_with_client)
      (auto intro!: emits_bind emits_return emits_if emits_no_http timed_parts split: sum.splits)
  then show ?thesis unfolding deployed_config_def by (intro emits_intros) simp_all
qed

lemma timed_deployed: "emits (http_only (dep_deadline E R)) (reconcileDeployed E R dep)"
proof -
  have port: "emits (http_only (dep_deadline E R)) (do {
      cl \<leftarrow> nodeClient E R dep';
      (case cl of
         Inl err \<Rightarrow> ret (Inr (res_after (30 * second)))
       | Inr (_, cli) \<Rightarrow> do {
           a \<leftarrow> reconcileAppPort E cli node dep';
           (case a of Some err \<Rightarrow> ret (Inr (res_after (30 * second))) | None \<Rightarrow> deployed_config E R dep')
         }) })" for dep' node
    by (rule timed_with_client) (auto intro!: emits_bind emits_return timed_parts timed_config split: option.splits)
  show ?thesis
    unfolding reconcileDeployed_def
    by (rule emits_ext_bind, simp, rule emits_case_sum, rule emits_return, rule emits_bind [OF emits_no_http(6)],
        rule emits_ext_bind, simp, intro emits_case_sum emits_return emits_if port timed_config)
qed

lemma timed_dispatch: "emits (http_only (dep_deadline E R)) (dispatch E R dep)"
proof -
  let ?P = "http_only (dep_deadline E R)"
  have reg: "emits ?P (ResolveFirmware E (dr_OCI R) img)" "emits ?P (StreamBlob E (dr_OCI R) img dg)" for img dg
    unfolding registry_deadline_def by (rule emits_registry; blast)+
  have "emits ?P (phaseBinding E dep)"
    unfolding phaseBinding_def by (intro emits_intros emits_no_http) simp_all
  moreover have "emits ?P (phasePulling E R dep)"
    unfolding phasePulling_def by (intro emits_bind reg emits_case_sum emits_return emits_ext_call) simp_all
  moreover have "emits ?P (phasePreparing E R dep)"
    unfolding phasePreparing_def
    by (rule timed_with_client) (auto intro!: emits_if emits_bind emits_return emits_no_http timed_parts split: sum.splits)
  moreover have "emits ?P (phaseWriting E R dep)"
    unfolding phaseWriting_def
    by (rule timed_with_client)
      (auto intro!: emits_bind emits_return emits_emit emits_no_http reg timed_parts split: sum.splits option.splits)
  moreover have "emits ?P (phaseActivating E R dep)"
    unfolding phaseActivating_def
    by (rule timed_with_client)
      (auto intro!: emits_bind emits_return emits_emit emits_if emits_no_http timed_parts split: sum.splits option.splits)
  moreover have "emits ?P (phaseConfirming E R dep)"
    unfolding phaseConfirming_def
    by (rule timed_with_client)
      (auto intro!: emits_if emits_bind emits_return emits_now emits_no_http split: sum.splits option.splits)
  ultimately show ?thesis
    using timed_deployed by (cases "phase_of dep") (simp_all add: dispatch_def emits_return)
qed

lemma timed_device: "emits (http_only device_deadline) (reconcile_device E rec node)"
  unfolding reconcile_device_def reconcileService_def reconcileEndpointSlice_def reconcileTokenRotation_def
    reconcileTLSCert_def push_tls_def reconcileRebootRequest_def Let_def
  by (intro emits_intros emits_record_event emits_currentToken timed_ops [OF refl]) simp_all

lemma timed_node: "emits (http_only device_deadline) (Reconcile_node E rec key)"
proof -
  have "emits (http_only device_deadline) (reconcile_live E rec node)" for node
    unfolding reconcile_live_def heartbeat_expired_def by (intro emits_intros timed_device) simp_all
  then show ?thesis
    unfolding Reconcile_node_def
    by (intro emits_intros) (auto split: prod.splits bool.splits intro!: emits_bind emits_ext_call emits_return emits_case_sum)
qed

text \<open>
  C28: Every exchange that a run of either controller makes over HTTP has the deadline of its destination. A
  request to the registry that an image names has two minutes, which includes the reading of the body. A
  request to a device has ten seconds, except that the upload of a range of the firmware,
  \<open>PUT /ota/write\<close>, has none. Nothing else is requested.
\<close>

theorem exchanges_have_deadlines:
  "emits (http_only device_deadline) (Reconcile_node E rec nkey) \<and>
   emits (http_only (\<lambda>q. (\<exists>img. registry_deadline E (dr_OCI R) img q) \<or> device_deadline q)) (Reconcile_deployment E R dkey) \<and>
   rq_Timeout (ota_request c depid dg o1 fin tot bytes) = None"
proof (intro conjI)
  show "emits (http_only (dep_deadline E R)) (Reconcile_deployment E R dkey)"
    unfolding Reconcile_deployment_def by (intro emits_intros timed_dispatch) simp_all
qed (simp_all add: timed_node ota_request_def agent_request_def)

section \<open>Examples\<close>

text \<open>A cluster without nodes, and a device that sent its only heartbeat at time 0.\<close>

definition bed_nonodeE :: "unit ext" where
  "bed_nonodeE = bedE\<lparr>kGetDeployment := (\<lambda>_ w. (Inr (bed_dep PhaseBinding), w)), kListNodes := (\<lambda>_ w. (Inr [], w))\<rparr>"

definition bed_nonode_end :: "obj_key \<Rightarrow> unit sys" where
  "bed_nonode_end k = (bed_sys ())\<lparr>calls := [(CGetDeployment k, True),
     (CListNodes (Some ''ns''), True), (CPatchDeploymentStatus (bed_dep PhaseBinding)
        (failed_dep bed_nonodeE ''NoDeviceMatched'' ''aucun McuNode ne correspond'' (bed_dep PhaseBinding)), True)]\<rparr>"

lemma bed_nonode_run:
  "run_state (Reconcile_deployment bed_nonodeE bed_R k) (bed_sys ()) = (Inr res_done, bed_nonode_end k)"
proof -
  have e: "kGetDeployment bed_nonodeE k w = (Inr (bed_dep PhaseBinding), w)" "kListNodes bed_nonodeE ns w = (Inr [], w)"
    "kPatchDeploymentStatus bed_nonodeE b d w = (Inr d, w)" for w ns b d
    by (simp_all add: bed_nonodeE_def bedE_def)
  have d: "phase_of (bed_dep PhaseBinding) = PhaseBinding" "d_Namespace (bed_dep PhaseBinding) = ''ns''"
    by (simp_all add: bed_dep_def bed_meta_def new_meta_def)
  show ?thesis
    by (simp add: Reconcile_deployment_def ext_call_def e dispatch_def d phaseBinding_def candidates_def fail_def bed_sys_def bed_nonode_end_def)
qed

theorem never_stalls_witness:
  "(\<exists>e. (Inr (bed_dep PhaseBinding) :: gerr + mcudeployment) = Inl e \<and> is_not_found e) \<or>
    (\<exists>dep. (Inr (bed_dep PhaseBinding) :: gerr + mcudeployment) = Inr dep \<and>
       (phase_of dep \<in> {PhaseDeployed, PhaseFailed} \<or> (\<exists>x. phase_of dep = PhaseOther x) \<or>
        (\<exists>l b d. calls (bed_nonode_end (dep_request (bed_dep PhaseBinding))) =
          calls (bed_sys ()) @ l @ [(CPatchDeploymentStatus b d, True)] \<and> phase_of d = PhaseFailed)))"
proof (rule never_stalls [OF bed_nonode_run])
  show "kGetDeployment bed_nonodeE k (world (bed_sys ())) = (Inr (bed_dep PhaseBinding), ())" for k
    by (simp add: bed_nonodeE_def)
qed (simp_all add: res_done_def)

definition bed_quietE :: "int ext" where
  "bed_quietE = bedE\<lparr>tNow := (\<lambda>w. (w, w)), kGetService := (\<lambda>_ w. (Inl (ApiNotFound ''services''), w)),
     kGetSlice := (\<lambda>_ w. (Inl (ApiNotFound ''endpointslices''), w)), kGetSecret := (\<lambda>_ w. (Inl (ApiNotFound ''secrets''), w))\<rparr>"

lemma bed_quiet_run: "\<exists>t. run_state (reconcile_live bed_quietE True bed_node) (bed_sys x) = (Inr (res_after HeartbeatTimeout), t)"
proof -
  have e: "tNow bed_quietE w = (w, w)" "kGetService bed_quietE k w = (Inl (ApiNotFound ''services''), w)"
    "kGetSlice bed_quietE k w = (Inl (ApiNotFound ''endpointslices''), w)"
    "kGetSecret bed_quietE k w = (Inl (ApiNotFound ''secrets''), w)" "kPatchNodeStatus bed_quietE lock b n w = (Inr n, w)"
    "kSetControllerReference bed_quietE nd m = Inr (m\<lparr>m_OwnerReferences := [m_UID (n_Meta nd)]\<rparr>)"
    "kCreateService bed_quietE sv w = (Inr sv, w)" "kCreateSlice bed_quietE sl w = (Inr sl, w)"
    for w k lock b n nd m sv sl
    by (simp_all add: bed_quietE_def bedE_def)
  have n: "nst_LastHeartbeat (n_Status bed_node) = Some 0" "nst_IP (n_Status bed_node) = ''10.0.0.1''"
    "sr_Name (ns_TokenRef (n_Spec bed_node)) = ''tok''" "sr_Name (ns_TLSSecretRef (n_Spec bed_node)) = ''''"
    "m_Annotations (n_Meta bed_node) = Map.empty"
    by (simp_all add: bed_node_def bed_meta_def new_meta_def)
  show ?thesis
    by (simp add: reconcile_live_def heartbeat_expired_def now_def ext_call_def e n node_status_update_facts Let_def err_of_def
        reconcile_device_def reconcileService_def reconcileEndpointSlice_def reconcileTokenRotation_def IgnoreNotFound_def
        reconcileTLSCert_def reconcileRebootRequest_def mget_def)
qed

theorem traffic_withdrawn_in_time_witness:
  "\<exists>t :: nat \<Rightarrow> int sys. \<exists>i n. 10 * second < int i * (10 * second) \<and> int i * (10 * second) \<le> 20 * second + 0 \<and>
    (CPatchNodeStatus True bed_node n, True) \<in> set (drop (length (calls (bed_sys (int i * (10 * second))))) (calls (t i))) \<and>
    nst_State (n_Status n) = ''offline'' \<and> \<not> nst_Ready (n_Status n) \<and>
    published [\<lparr>ep_Addresses = [''10.0.0.1''], ep_Ready = False\<rparr>] (bed_sys (int i * (10 * second))) (t i)"
proof -
  have "\<forall>i. \<exists>t. run_state (reconcile_live bed_quietE True bed_node) (bed_sys (int i * (10 * second))) =
      (Inr (res_after HeartbeatTimeout), t)"
    by (intro allI bed_quiet_run)
  from choice [OF this] obtain t where t:
    "run_state (reconcile_live bed_quietE True bed_node) (bed_sys (int i * (10 * second))) = (Inr (res_after HeartbeatTimeout), t i)"
    for i :: nat
    by blast
  have e: "kPatchNodeStatus bed_quietE lock b n w = (Inr n, w)" "kPatchDeploymentStatus bed_quietE d d' w = (Inr d', w)"
    "tNow bed_quietE w = (w, w)" for lock b n w d d'
    by (simp_all add: bed_quietE_def bedE_def)
  have echo: "patch_echo bed_quietE" by (simp add: patch_echo_def e)
  have "\<exists>i n. 0 + 10 * second < int i * (10 * second) \<and> int i * (10 * second) \<le> 0 + 20 * second + 0 \<and>
    (CPatchNodeStatus True bed_node n, True) \<in> set (drop (length (calls (bed_sys (int i * (10 * second))))) (calls (t i))) \<and>
    nst_State (n_Status n) = ''offline'' \<and> \<not> nst_Ready (n_Status n) \<and>
    published [\<lparr>ep_Addresses = [''10.0.0.1''], ep_Ready = False\<rparr>] (bed_sys (int i * (10 * second))) (t i)"
    by (rule traffic_withdrawn_in_time [OF echo t])
      (simp_all add: e second_def bed_node_def res_after_def HeartbeatTimeout_def)
  then show ?thesis by (intro exI [of _ t]) simp
qed

end
