(* ===== verification/PhaseRuns.thy ===== *)
theory PhaseRuns
  imports DeploymentProps
begin

text \<open>
  The phase of a deployment over many runs. The reconciler reads deployments from the cache of its client
  (\<open>mgr.GetClient()\<close>) and writes merge patches without a lock, so a run may start from a version that has
  been replaced by then. A history is the list of the stored versions, newest first; the cache may be \<open>lag\<close>
  versions behind.
\<close>

section \<open>Merge patches of a status\<close>

text \<open>A merge patch carries the fields in which the object sent differs from its base.\<close>

definition merge_field :: "'a \<Rightarrow> 'a \<Rightarrow> 'a \<Rightarrow> 'a" where
  "merge_field base x cur = (if x = base then cur else x)"

definition merge_dstatus ::
  "mcudeployment_status \<Rightarrow> mcudeployment_status \<Rightarrow> mcudeployment_status \<Rightarrow> mcudeployment_status" where
  "merge_dstatus b x cur = \<lparr>
     dst_Phase = merge_field (dst_Phase b) (dst_Phase x) (dst_Phase cur),
     dst_BoundNode = merge_field (dst_BoundNode b) (dst_BoundNode x) (dst_BoundNode cur),
     dst_DeploymentID = merge_field (dst_DeploymentID b) (dst_DeploymentID x) (dst_DeploymentID cur),
     dst_Message = merge_field (dst_Message b) (dst_Message x) (dst_Message cur),
     dst_Digest = merge_field (dst_Digest b) (dst_Digest x) (dst_Digest cur),
     dst_Size = merge_field (dst_Size b) (dst_Size x) (dst_Size cur),
     dst_Conditions = merge_field (dst_Conditions b) (dst_Conditions x) (dst_Conditions cur)\<rparr>"

lemma merge_dstatus_phase [simp]:
  "dst_Phase (merge_dstatus b x cur) = (if dst_Phase x = dst_Phase b then dst_Phase cur else dst_Phase x)"
  by (simp add: merge_dstatus_def merge_field_def)

section \<open>Histories with stale reads\<close>

text \<open>
  The versions of a deployment and the number of phase changes among them: users edit everything but the
  status, and a run on one of the last versions has a status patch accepted.
\<close>

inductive dep_run :: "'w ext \<Rightarrow> dep_reconciler \<Rightarrow> nat \<Rightarrow> mcudeployment \<Rightarrow> nat \<Rightarrow> mcudeployment list \<Rightarrow> bool"
  for E R lag d where
  start: "dep_run E R lag d 0 [d]"
| edit: "dep_run E R lag d n (d1 # h) \<Longrightarrow> d_Status d2 = d_Status d1 \<Longrightarrow> dep_run E R lag d n (d2 # d1 # h)"
| reconcile: "dep_run E R lag d n (d1 # h) \<Longrightarrow> d0 \<in> set (take (Suc lag) (d1 # h)) \<Longrightarrow>
     run_state (dispatch E R d0) s = (r, t) \<Longrightarrow>
     (CPatchDeploymentStatus b x, True) \<in> set (drop (length (calls s)) (calls t)) \<Longrightarrow>
     d_Status d2 = merge_dstatus (d_Status b) (d_Status x) (d_Status d1) \<Longrightarrow>
     dep_run E R lag d (if phase_of d2 = phase_of d1 then n else Suc n) (d2 # d1 # h)"

text \<open>In Deployed, a patch fails the deployment or leaves its phase out.\<close>

lemma deployed_phase_kept:
  assumes "phase_of dep = PhaseDeployed"
  shows "emits (\<lambda>c. \<forall>b x. fst c = CPatchDeploymentStatus b x \<longrightarrow> phase_of x = PhaseFailed \<or> phase_of x = phase_of b)
    (reconcileDeployed E R dep)"
proof -
  let ?P = "\<lambda>c :: call \<times> bool. \<forall>b x. fst c = CPatchDeploymentStatus b x \<longrightarrow> phase_of x = PhaseFailed \<or> phase_of x = phase_of b"
  have cl: "emits ?P (nodeClient E R d)" for d
    unfolding nodeClient_def nodeToken_def by (intro emits_intros) simp_all
  have f: "emits ?P (fail E d reason msg)" for d reason msg
    unfolding fail_def by (intro emits_intros) (simp add: failed_dep_def)
  have push: "emits ?P (pushConfigIfNeeded E cli d)" for cli d
    unfolding pushConfigIfNeeded_def Let_def by (intro emits_intros) (auto simp: agent_call_def)
  show ?thesis
    unfolding reconcileDeployed_def heartbeat_expired_def reconcileAppPort_def deployed_config_def reconcileConfigOnly_def
    by (intro emits_intros cl f push) (auto simp: available_dep_def agent_call_def)
qed

text \<open>A patch that carries a phase carries one of a higher rank than the version the run started from.\<close>

lemma patch_rank:
  assumes "run_state (dispatch E R d0) s = (r, t)"
    and "(CPatchDeploymentStatus b x, True) \<in> set (drop (length (calls s)) (calls t))" "phase_of x \<noteq> phase_of b"
  shows "rank (phase_of d0) < rank (phase_of x) \<and> rank (phase_of x) \<le> 7"
proof -
  have st: "phase_step (phase_of d0) (phase_of x)" using dispatcher.moves [OF TrueI assms(1,2)] .
  have "\<not> (phase_of d0 = PhaseDeployed \<and> phase_of x = PhaseDeployed)"
  proof
    assume d: "phase_of d0 = PhaseDeployed \<and> phase_of x = PhaseDeployed"
    then have "run_state (reconcileDeployed E R d0) s = (r, t)" using assms(1) by (simp add: dispatch_def)
    from emits_new [OF deployed_phase_kept this assms(2)] d assms(3) show False by simp
  qed
  moreover have "rank (phase_of x) \<le> 7" using st by (cases rule: phase_step.cases) simp_all
  ultimately show ?thesis using phase_step_rank [OF st] by blast
qed

section \<open>Counting the changes\<close>

text \<open>
  The lowest rank a cache can show, and how many of the newest versions are above it: a version above it
  pushes the lowest one out of the cache.
\<close>

definition low :: "nat \<Rightarrow> mcudeployment list \<Rightarrow> nat" where
  "low lag h = Min (set (map (rank \<circ> phase_of) (take (Suc lag) h)))"

definition above :: "nat \<Rightarrow> mcudeployment list \<Rightarrow> nat" where
  "above lag h = length (takeWhile (\<lambda>d. low lag h < rank (phase_of d)) h)"

lemma low_le: "d \<in> set (take (Suc lag) h) \<Longrightarrow> low lag h \<le> rank (phase_of d)"
  by (simp add: low_def)

lemma low_in: "h \<noteq> [] \<Longrightarrow> \<exists>d \<in> set (take (Suc lag) h). rank (phase_of d) = low lag h"
proof -
  assume "h \<noteq> []"
  then have "low lag h \<in> set (map (rank \<circ> phase_of) (take (Suc lag) h))"
    unfolding low_def by (intro Min_in) (cases h, simp_all)
  then show ?thesis by auto
qed

lemma above_le: "h \<noteq> [] \<Longrightarrow> above lag h \<le> lag"
proof -
  assume "h \<noteq> []"
  then obtain d where d: "d \<in> set (take (Suc lag) h)" "rank (phase_of d) = low lag h" using low_in by blast
  then obtain i where i: "i < Suc lag" "i < length h" "h ! i = d" by (auto simp: in_set_conv_nth)
  have "above lag h \<le> i"
  proof (rule ccontr)
    assume "\<not> above lag h \<le> i"
    then have j: "i < length (takeWhile (\<lambda>d. low lag h < rank (phase_of d)) h)" by (simp add: above_def)
    have "low lag h < rank (phase_of (h ! i))"
      using conjunct2 [OF set_takeWhileD [OF nth_mem [OF j]]] unfolding takeWhile_nth [OF j] .
    with i d show False by simp
  qed
  with i show ?thesis by simp
qed

lemma low_Cons:
  assumes "low lag (d1 # h) \<le> rank (phase_of d2)"
  shows "low lag (d1 # h) \<le> low lag (d2 # d1 # h)"
proof -
  obtain d where d: "d \<in> set (take (Suc lag) (d2 # d1 # h))" "rank (phase_of d) = low lag (d2 # d1 # h)"
    using low_in [of "d2 # d1 # h"] by blast
  from d(1) consider "d = d2" | "d \<in> set (take lag (d1 # h))" by auto
  then show ?thesis
  proof cases
    case 1
    with assms d(2) show ?thesis by simp
  next
    case 2
    have "set (take lag (d1 # h)) \<subseteq> set (take (Suc lag) (d1 # h))" by (rule set_take_subset_set_take) simp
    from subsetD [OF this 2] have "d \<in> set (take (Suc lag) (d1 # h))" .
    from low_le [OF this] d(2) show ?thesis by simp
  qed
qed

text \<open>The potential of a history bounds the phase changes; it grows by one at most, and with each change.\<close>

definition potential :: "nat \<Rightarrow> mcudeployment list \<Rightarrow> nat" where
  "potential lag h = Suc lag * low lag h + above lag h"

lemma potential_step:
  assumes "phase_of d2 = phase_of d1 \<or> low lag (d1 # h) < rank (phase_of d2)"
  shows "potential lag (d1 # h) + (if phase_of d2 = phase_of d1 then 0 else 1) \<le> potential lag (d2 # d1 # h)"
proof -
  have d1: "low lag (d1 # h) \<le> rank (phase_of d1)" by (rule low_le) simp
  with assms have "low lag (d1 # h) \<le> rank (phase_of d2)" by auto
  note le = low_Cons [OF this] and al = above_le [of "d1 # h" lag]
  show ?thesis
  proof (cases "low lag (d2 # d1 # h) = low lag (d1 # h)")
    case True
    then have "above lag (d2 # d1 # h) =
        (if low lag (d1 # h) < rank (phase_of d2) then Suc (above lag (d1 # h)) else 0)"
      by (simp add: above_def)
    moreover have "above lag (d1 # h) = 0" if "\<not> low lag (d1 # h) < rank (phase_of d1)"
      using that by (simp add: above_def)
    ultimately show ?thesis using True assms by (auto simp: potential_def)
  next
    case False
    with le have "Suc (low lag (d1 # h)) \<le> low lag (d2 # d1 # h)" by simp
    then have "Suc lag * Suc (low lag (d1 # h)) \<le> Suc lag * low lag (d2 # d1 # h)" by (rule mult_le_mono2)
    with al show ?thesis by (simp add: potential_def)
  qed
qed

lemma dep_run_potential:
  assumes "dep_run E R lag d n h"
  shows "h \<noteq> [] \<and> n + Suc lag * rank (phase_of d) \<le> potential lag h \<and> (\<forall>d' \<in> set h. rank (phase_of d') \<le> 7 \<or> phase_of d' = phase_of d)"
  using assms
proof (induction rule: dep_run.induct)
  case start
  have "low lag [d] = rank (phase_of d)" by (simp add: low_def)
  then show ?case by (simp add: potential_def)
next
  case (edit n d1 h d2)
  then show ?case using potential_step [of d2 d1 lag h] by simp
next
  case (reconcile n d1 h d0 s r t b x d2)
  have p2: "phase_of d2 = (if phase_of x = phase_of b then phase_of d1 else phase_of x)" by (simp add: reconcile.hyps(5))
  have x: "low lag (d1 # h) < rank (phase_of x) \<and> rank (phase_of x) \<le> 7" if "phase_of x \<noteq> phase_of b"
    using patch_rank [OF reconcile.hyps(3,4) that] low_le [OF reconcile.hyps(2)] by simp
  then have "phase_of d2 = phase_of d1 \<or> low lag (d1 # h) < rank (phase_of d2)" by (simp add: p2)
  from potential_step [OF this] reconcile.IH x show ?case by (auto simp: p2)
qed

text \<open>No patch comes from a failed deployment.\<close>

lemma dep_run_failed:
  "dep_run E R lag d n h \<Longrightarrow> phase_of d = PhaseFailed \<Longrightarrow> \<forall>d' \<in> set h. d_Status d' = d_Status d"
proof (induction rule: dep_run.induct)
  case (reconcile n d1 h d0 s r t b x d2)
  then have "d_Status d0 = d_Status d" by (meson in_set_takeD)
  then have "phase_step PhaseFailed (phase_of x)"
    using dispatcher.moves [OF TrueI reconcile.hyps(3,4)] reconcile.prems by simp
  then show ?case by simp
qed auto


section \<open>Property\<close>

text \<open>
  C5: A deployment comes to rest. Over any sequence of runs of the reconciler, each on a version that is at
  most \<open>lag\<close> writes old, with whatever answers of the cluster and the device, and of edits by users, its phase
  changes at most seven times for each version the cache can show (\<open>lag\<close> + 1), fewer if it starts further on;
  it never falls behind the phase it started from, not even to carry out an edit of the image; if reads are
  current (\<open>lag\<close> = 0) every change goes forward; and a deployment that starts as Failed keeps its status.
\<close>

theorem phase_changes_end:
  assumes "dep_run E R lag d n h"
  shows "n \<le> Suc lag * (7 - rank (phase_of d)) \<and> rank (phase_of d) \<le> rank (phase_of (hd h)) \<and>
    (lag = 0 \<longrightarrow> n + rank (phase_of d) \<le> rank (phase_of (hd h))) \<and>
    (phase_of d = PhaseFailed \<longrightarrow> d_Status (hd h) = d_Status d)"
proof -
  let ?r = "rank (phase_of d)" and ?K = "max 7 (rank (phase_of d))"
  from dep_run_potential [OF assms] have h: "h \<noteq> []" and n: "n + Suc lag * ?r \<le> Suc lag * low lag h + above lag h"
    and le: "\<And>d'. d' \<in> set h \<Longrightarrow> rank (phase_of d') \<le> ?K"
    by (fastforce simp: potential_def)+
  have al: "above lag h \<le> lag" by (rule above_le [OF h])
  have hd: "low lag h \<le> rank (phase_of (hd h))" using h by (intro low_le) (cases h, simp_all)
  have low: "?r \<le> low lag h"
  proof (rule ccontr)
    assume "\<not> ?r \<le> low lag h"
    then have "Suc lag * Suc (low lag h) \<le> Suc lag * ?r" by (intro mult_le_mono2) simp
    with n al show False by simp
  qed
  have "n + Suc lag * ?r \<le> Suc lag * ?K"
  proof (cases "low lag h = ?K")
    case True
    then have "above lag h = 0" using le [of "hd h"] h by (cases h) (auto simp: above_def)
    with n True show ?thesis by simp
  next
    case False
    then have "Suc (low lag h) \<le> ?K" using hd le [of "hd h"] h by simp
    then have "Suc lag * Suc (low lag h) \<le> Suc lag * ?K" by (rule mult_le_mono2)
    with n al show ?thesis by simp
  qed
  then have "n \<le> Suc lag * (?K - ?r)" by (simp add: diff_mult_distrib2)
  moreover have "?K - ?r = 7 - ?r" by simp
  moreover have "n + ?r \<le> rank (phase_of (hd h))" if "lag = 0" using n al hd that by simp
  ultimately show ?thesis using low hd dep_run_failed [OF assms] h by auto
qed

text \<open>
  The longest such history with one write of lag: a deployment that has been failed for want of a
  confirmation is confirmed by a second run that still sees it in Confirming. The world is the stored node.
\<close>

definition bed_lateE :: "mcunode ext" where
  "bed_lateE = bedE\<lparr>tNow := (\<lambda>w. (180 * second, w)), kGetNode := (\<lambda>_ w. (Inr w, w)),
     kGetSecret := (\<lambda>_ w. (Inr (bed_secret [''token'' \<mapsto> ''x'']), w))\<rparr>"

definition bed_failed_patch :: mcudeployment where
  "bed_failed_patch = failed_dep bed_lateE ''ConfirmTimeout'' (''aucune confirmation dans les 2m0s apr'' @ e_grave @ ''s activate'') bed_waiting"

definition bed_late_patch :: mcudeployment where
  "bed_late_patch = phased_dep bed_lateE PhaseDeployed ''node1'' (''d'' @ e_acute @ ''ploiement confirm'' @ e_acute @ '' par heartbeat'') bed_waiting"

definition bed_merged :: "mcudeployment \<Rightarrow> mcudeployment \<Rightarrow> mcudeployment" where
  "bed_merged x cur = cur\<lparr>d_Status := merge_dstatus (d_Status bed_waiting) (d_Status x) (d_Status cur)\<rparr>"

lemma bed_late_simps:
  "tNow bed_lateE w = (180 * second, w)" "kGetNode bed_lateE k w = (Inr w, w)"
  "kGetSecret bed_lateE k w = (Inr (bed_secret [''token'' \<mapsto> ''x'']), w)" "tParse bed_lateE v = Some 0"
  "kPatchDeploymentStatus bed_lateE b d w = (Inr d, w)"
  by (simp_all add: bed_lateE_def bedE_def)

lemma bed_late_client:
  assumes "nst_IP (n_Status n) = ''10.0.0.1''" "n_Spec n = n_Spec bed_node" "n_Meta n = n_Meta bed_node"
  shows "run_state (nodeClient bed_lateE bed_R bed_waiting) (bed_sys n) = (Inr (n, bed_cli), bed_sys n\<lparr>calls := bed_client_calls\<rparr>)"
  using assms
  by (simp add: nodeClient_def nodeToken_def nodeTokenRef_def ext_call_def bed_late_simps bed_meta_def bed_node_def bed_waiting_def
      set_confirming_since_def bed_dep_def new_meta_def bed_secret_def bed_R_def bed_cli_def bed_client_calls_def bed_sys_def Let_def)

lemma bed_late_runs:
  "\<exists>r t. run_state (dispatch bed_lateE bed_R bed_waiting) (bed_sys bed_unvalidated) = (r, t) \<and>
     (CPatchDeploymentStatus bed_waiting bed_failed_patch, True) \<in> set (drop (length (calls (bed_sys bed_unvalidated))) (calls t))"
  "\<exists>r t. run_state (dispatch bed_lateE bed_R bed_waiting) (bed_sys bed_node) = (r, t) \<and>
     (CPatchDeploymentStatus bed_waiting bed_late_patch, True) \<in> set (drop (length (calls (bed_sys bed_node))) (calls t))"
proof -
  have n: "nst_IP (n_Status bed_unvalidated) = ''10.0.0.1''" "n_Spec bed_unvalidated = n_Spec bed_node"
    "n_Meta bed_unvalidated = n_Meta bed_node" "nst_State (n_Status bed_unvalidated) = ''running''" "nst_IP (n_Status bed_node) = ''10.0.0.1''"
    "n_Name bed_node = ''node1''"
    by (simp_all add: bed_unvalidated_def bed_node_def bed_meta_def new_meta_def)
  have c: "\<not> confirmed bed_waiting bed_unvalidated" "confirmed bed_waiting bed_node"
    by (simp_all add: confirmed_def bed_unvalidated_def bed_waiting_def set_confirming_since_def bed_dep_def bed_node_def)
  have w: "phase_of bed_waiting = PhaseConfirming" "m_Annotations (d_Meta bed_waiting) annotationConfirmingSince = Some ''t''"
    by (simp_all add: bed_waiting_def set_confirming_since_def)
  have late: "time_since (180 * second) 0 > ConfirmTimeout"
    unfolding ConfirmTimeout_def by (subst time_since_gt) (simp_all add: second_def)
  show "\<exists>r t. run_state (dispatch bed_lateE bed_R bed_waiting) (bed_sys bed_unvalidated) = (r, t) \<and>
     (CPatchDeploymentStatus bed_waiting bed_failed_patch, True) \<in> set (drop (length (calls (bed_sys bed_unvalidated))) (calls t))"
    using late by (simp add: dispatch_def w phaseConfirming_def bed_late_client [OF n(1-3)] c n(4) now_def bed_late_simps fail_def
        ext_call_def bed_failed_patch_def)
  show "\<exists>r t. run_state (dispatch bed_lateE bed_R bed_waiting) (bed_sys bed_node) = (r, t) \<and>
     (CPatchDeploymentStatus bed_waiting bed_late_patch, True) \<in> set (drop (length (calls (bed_sys bed_node))) (calls t))"
    by (simp add: dispatch_def w phaseConfirming_def bed_late_client [OF n(5) refl refl] c n(6) bed_late_simps setPhase_def
        setPhase_status_def ext_call_def bed_late_patch_def)
qed

lemma bed_revived:
  "dep_run bed_lateE bed_R 1 bed_waiting 2
     [bed_merged bed_late_patch (bed_merged bed_failed_patch bed_waiting), bed_merged bed_failed_patch bed_waiting, bed_waiting] \<and>
   phase_of (bed_merged bed_late_patch (bed_merged bed_failed_patch bed_waiting)) = PhaseDeployed \<and>
   phase_of (bed_merged bed_failed_patch bed_waiting) = PhaseFailed"
proof -
  have p: "phase_of bed_waiting = PhaseConfirming" "phase_of bed_failed_patch = PhaseFailed" "phase_of bed_late_patch = PhaseDeployed"
    by (simp_all add: bed_waiting_def set_confirming_since_def bed_failed_patch_def failed_dep_def bed_late_patch_def phased_dep_def)
  obtain r t where 1: "run_state (dispatch bed_lateE bed_R bed_waiting) (bed_sys bed_unvalidated) = (r, t)"
    "(CPatchDeploymentStatus bed_waiting bed_failed_patch, True) \<in> set (drop (length (calls (bed_sys bed_unvalidated))) (calls t))"
    using bed_late_runs(1) by blast
  obtain r' t' where 2: "run_state (dispatch bed_lateE bed_R bed_waiting) (bed_sys bed_node) = (r', t')"
    "(CPatchDeploymentStatus bed_waiting bed_late_patch, True) \<in> set (drop (length (calls (bed_sys bed_node))) (calls t'))"
    using bed_late_runs(2) by blast
  have m: "d_Status (bed_merged x cur) = merge_dstatus (d_Status bed_waiting) (d_Status x) (d_Status cur)" for x cur
    by (simp add: bed_merged_def)
  have "dep_run bed_lateE bed_R 1 bed_waiting 1 [bed_merged bed_failed_patch bed_waiting, bed_waiting]"
    using dep_run.reconcile [OF dep_run.start _ 1 m] by (simp add: m p)
  from dep_run.reconcile [OF this _ 2 m] show ?thesis by (simp add: m p numeral_2_eq_2)
qed

theorem phase_changes_end_witness:
  "\<exists>h. dep_run bed_lateE bed_R 1 bed_waiting 2 h \<and> map phase_of h = [PhaseDeployed, PhaseFailed, PhaseConfirming] \<and>
     2 \<le> Suc 1 * (7 - rank PhaseConfirming) \<and> rank PhaseConfirming \<le> rank (phase_of (hd h))"
proof -
  have p: "phase_of bed_waiting = PhaseConfirming" by (simp add: bed_waiting_def set_confirming_since_def)
  from phase_changes_end [OF conjunct1 [OF bed_revived]] bed_revived p show ?thesis
    by (intro exI [of _ "[bed_merged bed_late_patch (bed_merged bed_failed_patch bed_waiting), bed_merged bed_failed_patch bed_waiting, bed_waiting]"])
      simp
qed

end
