(* ===== verification/ConfigPush.thy ===== *)
theory ConfigPush
  imports DeploymentProps
begin

text \<open>
  What repeated runs of the configuration step do to the store of a device that merges the keys it knows and
  ignores the others (\<open>docs/core/agent-api.md\<close>, \<open>POST /config\<close>).
\<close>

section \<open>The store of the device\<close>

definition config_get :: "agent_client \<Rightarrow> http_request" where
  "config_get cli = agent_request cli False ''GET'' ''/config'' BNone (-1) []"

text \<open>
  \<open>GET /config\<close> shows the store; an accepted \<open>POST /config\<close> overwrites the known keys of its payload in it
  and leaves the rest alone.
\<close>

definition config_device :: "'w ext \<Rightarrow> agent_client \<Rightarrow> ('w \<Rightarrow> string \<rightharpoonup> string) \<Rightarrow> string set \<Rightarrow> bool" where
  "config_device E cli nvs known \<longleftrightarrow>
     (\<forall>w rs w'. hDo E (config_get cli) w = (Inr rs, w') \<longrightarrow> nvs w' = nvs w \<and>
        (\<forall>cur. jConfig E (rs_Body rs) = Inr cur \<longrightarrow> cr_NVS cur = nvs w)) \<and>
     (\<forall>data w rs w'. hDo E (config_request cli data) w = (Inr rs, w') \<longrightarrow> rs_StatusCode rs = 200 \<longrightarrow>
        nvs w' = nvs w ++ (map_of data |` known))"

text \<open>Some pair of the configuration is meant for the device and not shown by it; reserved keys never are.\<close>

definition diverges :: "(string \<rightharpoonup> string) \<Rightarrow> (string \<times> string) list \<Rightarrow> bool" where
  "diverges store kvs \<longleftrightarrow> (\<exists>(k, v) \<in> set kvs. \<not> hasPrefix k ''_'' \<and> mget store k \<noteq> v)"

lemma diff_config_diverges: "diff_config store kvs = (user_pairs kvs, diverges store kvs)"
  by (auto simp: diff_config_eq diverges_def)

section \<open>One run\<close>

lemma push_run:
  assumes dev: "config_device E cli nvs known"
    and cm: "kGetConfigMap E \<lparr>key_Namespace = d_Namespace dep, key_Name = ds_ConfigMapRef (d_Spec dep)\<rparr> (world s) = (Inr cm, w)"
      "nvs w = nvs (world s)"
    and run: "run_state (pushConfigIfNeeded E cli dep) s = (Inr b, t)"
  shows "if diverges (nvs (world s)) (cm_Data cm)
    then b \<and> nvs (world t) = nvs (world s) ++ (map_of (user_pairs (cm_Data cm)) |` known) \<and>
      (CHttp (config_request cli (user_pairs (cm_Data cm))), True) \<in> set (drop (length (calls s)) (calls t))
    else nvs (world t) = nvs (world s) \<and> (\<forall>data ok. (CHttp (config_request cli data), ok) \<notin> set (drop (length (calls s)) (calls t)))"
proof -
  have get: "config_request cli data \<noteq> config_get cli" for data
    by (simp add: config_request_def config_get_def agent_request_def)
  have "wp (pushConfigIfNeeded E cli dep) (\<lambda>r t. \<forall>b. r = Inr b \<longrightarrow> (if diverges (nvs (world s)) (cm_Data cm)
    then b \<and> nvs (world t) = nvs (world s) ++ (map_of (user_pairs (cm_Data cm)) |` known) \<and>
      (CHttp (config_request cli (user_pairs (cm_Data cm))), True) \<in> set (drop (length (calls s)) (calls t))
    else nvs (world t) = nvs (world s) \<and> (\<forall>data ok. (CHttp (config_request cli data), ok) \<notin> set (drop (length (calls s)) (calls t))))) s"
    using dev cm get
    by (auto simp: pushConfigIfNeeded_def Let_def wp_simps GetConfig_def PostConfig_def agent_do_def doWith_def
        config_device_def config_get_def [symmetric] config_request_def [symmetric] diff_config_diverges
        split: prod.splits sum.splits option.splits)
  then show ?thesis using run by (auto dest: wpD)
qed

section \<open>Property\<close>

text \<open>
  C34: A configuration is pushed until the device shows it, and no longer. Take two successful runs of the
  configuration step with the same McuConfigMap, between which the store of the device does not change. After
  the first the device shows every pair with a key it knows that is not reserved. The second posts the
  configuration again if and only if it has a pair the device does not show, which can only be one whose key
  the device ignores; then every later run posts it again, and asks for a reboot each time.
\<close>

theorem config_push_converges:
  assumes "config_device E cli nvs known" "distinct (map fst (cm_Data cm))"
    and "\<And>w. \<exists>w'. kGetConfigMap E \<lparr>key_Namespace = d_Namespace dep, key_Name = ds_ConfigMapRef (d_Spec dep)\<rparr> w = (Inr cm, w') \<and> nvs w' = nvs w"
    and "run_state (pushConfigIfNeeded E cli dep) s1 = (Inr b1, t1)" "nvs (world s2) = nvs (world t1)"
    and "run_state (pushConfigIfNeeded E cli dep) s2 = (Inr b2, t2)"
  shows "(\<forall>k v. (k, v) \<in> set (cm_Data cm) \<and> \<not> hasPrefix k ''_'' \<and> k \<in> known \<longrightarrow> mget (nvs (world t1)) k = v) \<and>
    ((\<exists>data ok. (CHttp (config_request cli data), ok) \<in> set (drop (length (calls s2)) (calls t2))) \<longleftrightarrow>
      (\<exists>k v. (k, v) \<in> set (cm_Data cm) \<and> \<not> hasPrefix k ''_'' \<and> k \<notin> known \<and> mget (nvs (world t1)) k \<noteq> v)) \<and>
    ((\<exists>data ok. (CHttp (config_request cli data), ok) \<in> set (drop (length (calls s2)) (calls t2))) \<longrightarrow>
      b2 \<and> diverges (nvs (world t2)) (cm_Data cm))"
proof -
  let ?u = "user_pairs (cm_Data cm)"
  have d: "distinct (map fst ?u)" using assms(2) by (simp add: distinct_map_filter)
  have merged: "(m ++ (map_of ?u |` known)) k = (if k \<in> known then Some v else m k)"
    if "(k, v) \<in> set (cm_Data cm)" "\<not> hasPrefix k ''_''" for m k v
  proof -
    have "map_of ?u k = Some v" using that d by (intro map_of_is_SomeI) auto
    then show ?thesis by (simp add: map_add_def restrict_map_def)
  qed
  obtain w1 where g1: "kGetConfigMap E \<lparr>key_Namespace = d_Namespace dep, key_Name = ds_ConfigMapRef (d_Spec dep)\<rparr> (world s1) = (Inr cm, w1)"
    "nvs w1 = nvs (world s1)" using assms(3) by blast
  obtain w2 where g2: "kGetConfigMap E \<lparr>key_Namespace = d_Namespace dep, key_Name = ds_ConfigMapRef (d_Spec dep)\<rparr> (world s2) = (Inr cm, w2)"
    "nvs w2 = nvs (world s2)" using assms(3) by blast
  note r1 = push_run [where nvs = nvs, OF assms(1) g1 assms(4)] and r2 = push_run [where nvs = nvs, OF assms(1) g2 assms(6)]
  have shown: "mget (nvs (world t1)) k = v" if "(k, v) \<in> set (cm_Data cm)" "\<not> hasPrefix k ''_''" "k \<in> known" for k v
    using r1 that by (auto simp: diverges_def mget_def merged split: if_splits)
  have posts: "(\<exists>data ok. (CHttp (config_request cli data), ok) \<in> set (drop (length (calls s2)) (calls t2))) \<longleftrightarrow>
      diverges (nvs (world t1)) (cm_Data cm)"
    using r2 assms(5) by (auto split: if_splits)
  moreover have "b2 \<and> diverges (nvs (world t2)) (cm_Data cm)" if div: "diverges (nvs (world t1)) (cm_Data cm)"
  proof -
    obtain k v where kv: "(k, v) \<in> set (cm_Data cm)" "\<not> hasPrefix k ''_''" "mget (nvs (world t1)) k \<noteq> v"
      using div by (auto simp: diverges_def)
    then have "k \<notin> known" using shown by blast
    moreover have "b2" "nvs (world t2) = nvs (world t1) ++ (map_of ?u |` known)" using r2 div assms(5) by simp_all
    ultimately have "b2" "mget (nvs (world t2)) k \<noteq> v" using kv(3) merged [OF kv(1,2)] by (simp_all add: mget_def)
    with kv(1,2) show ?thesis by (auto simp: diverges_def)
  qed
  ultimately show ?thesis using shown by (auto simp: diverges_def)
qed


text \<open>A device that knows the key \<open>a\<close> and ignores all others; the world is what it stores under \<open>a\<close>.\<close>

definition bed_nvs :: "string option \<Rightarrow> string \<rightharpoonup> string" where
  "bed_nvs w = (case w of None \<Rightarrow> Map.empty | Some v \<Rightarrow> [''a'' \<mapsto> v])"

definition bed_shown :: "string option \<Rightarrow> string" where
  "bed_shown w = (case w of None \<Rightarrow> '''' | Some v \<Rightarrow> CHR ''='' # v)"

definition bed_nvs_map :: mcuconfigmap where
  "bed_nvs_map = \<lparr>cm_Meta = bed_meta ''cm'', cm_Data = [(''a'', ''1''), (''b'', ''2''), (''_x'', ''3'')]\<rparr>"

definition bed_nvsE :: "string option ext" where
  "bed_nvsE = bedE\<lparr>kGetConfigMap := (\<lambda>_ w. (Inr bed_nvs_map, w)),
     hDo := (\<lambda>q w. case rq_Body q of
        BJson (JObj [(_, JObj kvs)]) \<Rightarrow> (Inr (bed_ok ''''), case map_of kvs ''a'' of Some (JStr v) \<Rightarrow> Some v | _ \<Rightarrow> w)
      | _ \<Rightarrow> (Inr (bed_ok (bed_shown w)), w)),
     jConfig := (\<lambda>b. Inr \<lparr>cr_Generation = 0, cr_ActiveGeneration = 0, cr_Active = Map.empty,
        cr_NVS = (case body_content b of [] \<Rightarrow> Map.empty | _ # v \<Rightarrow> [''a'' \<mapsto> v])\<rparr>)\<rparr>"

lemma bed_nvs_simps:
  "kGetConfigMap bed_nvsE k w = (Inr bed_nvs_map, w)" "hNewRequest bed_nvsE m u = None"
  "hDo bed_nvsE (config_get cli) w = (Inr (bed_ok (bed_shown w)), w)"
  "jConfig bed_nvsE (rs_Body (bed_ok (bed_shown w))) =
     Inr \<lparr>cr_Generation = 0, cr_ActiveGeneration = 0, cr_Active = Map.empty, cr_NVS = bed_nvs w\<rparr>"
  "hDo bed_nvsE (config_request cli data) w = (Inr (bed_ok ''''), case map_of data ''a'' of Some v \<Rightarrow> Some v | None \<Rightarrow> w)"
proof -
  have "map_of (map (\<lambda>(k, v). (k, JStr v)) data) x = map_option JStr (map_of data x)" for x
    by (induction data) auto
  then show "hDo bed_nvsE (config_request cli data) w = (Inr (bed_ok ''''), case map_of data ''a'' of Some v \<Rightarrow> Some v | None \<Rightarrow> w)"
    by (simp add: bed_nvsE_def config_request_def agent_request_def split: option.splits)
qed (simp_all add: bed_nvsE_def bedE_def config_get_def agent_request_def bed_ok_def body_content_def bed_shown_def bed_nvs_def
    split: option.splits)

lemma bed_nvs_device: "config_device bed_nvsE cli bed_nvs {''a''}"
  by (auto simp: config_device_def bed_nvs_simps bed_nvs_def map_add_def restrict_map_def fun_eq_iff split: option.splits)

lemma bed_nvs_run:
  "\<exists>t. run_state (pushConfigIfNeeded bed_nvsE bed_cli (bed_dep PhaseDeployed)) (bed_sys w) = (Inr True, t) \<and> world t = Some ''1''"
proof -
  have c: "cm_Data bed_nvs_map = [(''a'', ''1''), (''b'', ''2''), (''_x'', ''3'')]" by (simp add: bed_nvs_map_def)
  have l: "check_limits (cm_Data bed_nvs_map) = None" by (simp add: c)
  have d: "diverges (bed_nvs v) (cm_Data bed_nvs_map)" for v
    by (simp add: diverges_def c bed_nvs_def mget_def hasPrefix_def split: option.splits)
  have u: "map_of (user_pairs (cm_Data bed_nvs_map)) ''a'' = Some ''1''" by (simp add: c hasPrefix_def)
  have ok: "rs_StatusCode (bed_ok x) = 200" for x by (simp add: bed_ok_def)
  show ?thesis
    by (simp add: pushConfigIfNeeded_def Let_def ext_call_def bed_nvs_simps l GetConfig_def PostConfig_def agent_do_def doWith_def
        config_get_def [symmetric] config_request_def [symmetric] ok diff_config_diverges d u)
qed

theorem config_push_converges_witness:
  "\<exists>t1 t2. run_state (pushConfigIfNeeded bed_nvsE bed_cli (bed_dep PhaseDeployed)) (bed_sys None) = (Inr True, t1) \<and>
     mget (bed_nvs (world t1)) ''a'' = ''1'' \<and>
     run_state (pushConfigIfNeeded bed_nvsE bed_cli (bed_dep PhaseDeployed)) (bed_sys (Some ''1'')) = (Inr True, t2) \<and>
     (\<exists>data ok. (CHttp (config_request bed_cli data), ok) \<in> set (calls t2))"
proof -
  obtain t1 where 1: "run_state (pushConfigIfNeeded bed_nvsE bed_cli (bed_dep PhaseDeployed)) (bed_sys None) = (Inr True, t1)" "world t1 = Some ''1''"
    using bed_nvs_run by blast
  obtain t2 where 2: "run_state (pushConfigIfNeeded bed_nvsE bed_cli (bed_dep PhaseDeployed)) (bed_sys (Some ''1'')) = (Inr True, t2)"
    using bed_nvs_run by blast
  have g: "\<exists>w'. kGetConfigMap bed_nvsE k w = (Inr bed_nvs_map, w') \<and> bed_nvs w' = bed_nvs w" for k w by (simp add: bed_nvs_simps)
  have k: "distinct (map fst (cm_Data bed_nvs_map))" by (simp add: bed_nvs_map_def)
  have w: "bed_nvs (world (bed_sys (Some ''1''))) = bed_nvs (world t1)" by (simp add: 1(2))
  have "mget (bed_nvs (world t1)) ''b'' \<noteq> ''2''" by (simp add: 1(2) bed_nvs_def mget_def)
  moreover have "(''a'', ''1'') \<in> set (cm_Data bed_nvs_map)" "(''b'', ''2'') \<in> set (cm_Data bed_nvs_map)"
    "\<not> hasPrefix ''a'' ''_''" "\<not> hasPrefix ''b'' ''_''"
    by (simp_all add: bed_nvs_map_def hasPrefix_def)
  ultimately show ?thesis
    using config_push_converges [where nvs = bed_nvs, OF bed_nvs_device k g 1(1) w 2] 1(1) 2 by auto
qed

end
