(* ===== verification/Spec2Isabelle.thy ===== *)
theory Spec2Isabelle
  imports TransferProps NodeProps ApiProps RotationProps SystemProps UpdateProps Binding Credentials ProgressProps
    PhaseRuns ConfigPush
begin

text \<open>
  A verification of embewi-core, the Kubernetes control plane of a fleet of ESP devices.

  \<^bold>\<open>The program.\<close> Three custom resources (\<open>api/v1alpha1\<close>) describe a fleet: a McuNode stands for a
  device, a McuDeployment asks for a firmware on one node, a McuConfigMap holds key/value pairs for a
  device. Four parts act on them and share no memory except the metrics:

    \<^item> the heartbeat server (\<open>internal/heartbeat/server.go\<close>) receives what devices report, authenticates it
      with the token Secret of the node and writes the status of the McuNode;
    \<^item> the node controller (\<open>internal/controller/mcunode_controller.go\<close>) derives ready and offline from the
      age of the last heartbeat, keeps the Service and the EndpointSlice, and replays token rotation,
      certificate push and requested reboots;
    \<^item> the deployment controller (\<open>internal/controller/mcudeployment_controller.go\<close>) drives a firmware
      through the phases Binding, Pulling, Preparing, Writing, Activating, Confirming and Deployed or
      Failed, reading the image from a registry (\<open>internal/oci/client.go\<close>) and calling the device
      (\<open>internal/agent/client.go\<close>); it waits in Confirming for a status the heartbeat server wrote;
    \<^item> the metrics (\<open>internal/metrics/metrics.go\<close>), updated by the heartbeat server and cleared by the node
      controller. \<open>cmd/controller/main.go\<close> configures and starts the parts.

  \<^bold>\<open>The model.\<close> A Go method that touches the outside is a state transformer over \<open>'w sys\<close>: an abstract
  world, the in-process metrics, and the log of the external calls made so far. Whatever is not in the
  repository (the API server and its client, HTTP transport, JSON decoding, cryptography, the clock) is a
  field of the record \<open>'w ext\<close> that the definitions take as an argument; a theorem without further
  hypothesis holds for every behaviour of these. Errors are values of \<open>gerr + 'a\<close>, with the wrapping of
  \<open>fmt.Errorf\<close> and \<open>errors.Is\<close>; a Go method that mutates its object returns the mutated object; strings
  are byte strings; \<open>int64\<close> arithmetic that can overflow is wrapped by \<open>i64\<close>. A map that is ranged over is
  an association list in the order of the iteration.

  \<^bold>\<open>The theories.\<close>

    \<^item> \<open>GoPrelude\<close>: what is used of Go and its library, error values, the state monad and \<open>wp\<close>.
    \<^item> \<open>ApiTypes\<close>, \<open>Wire\<close>: the objects of \<open>api/v1alpha1\<close>, and the messages and HTTP bodies that cross the
      process boundary.
    \<^item> \<open>DeepCopy\<close>: \<open>zz_generated.deepcopy.go\<close> over an explicit heap, since aliasing is what it is about;
      each function with its Go name (\<open>Node_DeepCopyInto\<close> for \<open>McuNode.DeepCopyInto\<close>). The locale
      \<open>deep_copy\<close> is the contract of a copy, interpreted on the status and spec copies.
    \<^item> \<open>Metrics\<close>: \<open>internal/metrics\<close>, and the locale \<open>series_registry\<close>, the contract its callers rely on.
    \<^item> \<open>World\<close>: the environment, the external calls, \<open>emits\<close> and \<open>adds\<close> (which calls a computation can
      make), and the named assumptions.
    \<^item> \<open>Oci\<close>, \<open>Agent\<close>, \<open>Heartbeat\<close>, \<open>NodeController\<close>, \<open>DeploymentController\<close>, \<open>Setup\<close>: one theory per Go
      file, with its functions under their Go names; \<open>Setup\<close> is \<open>cmd/controller/main.go\<close> from the command
      line to the started manager, with the registration of the types and the watches of both
      controllers. Where a Go function is long, a named part of it is a definition of its own
      (\<open>store_heartbeat\<close>, \<open>prepare_device\<close>, \<open>push_tls\<close>, \<open>resolve_manifest\<close>). The log WebSocket is a loop
      over timed events, so that its read deadline and the pongs that extend it are part of the model.
    \<^item> \<open>OtaSpec\<close>: the firmware transfer against an abstract device that stores ranges and acknowledges or
      asks to resume (\<open>device_law\<close>); \<open>DeploymentSpec\<close>: the phase relation \<open>phase_step\<close>, the calls each phase
      may make (locale \<open>phase_handler\<close>, interpreted on every handler and on the dispatcher), histories of a
      deployment and of a namespace;
      \<open>NodeSpec\<close>: what the heartbeat server and the node controller write, and on what authority.
    \<^item> \<open>TokenRotation\<close>: the one protocol in which an operator, the node controller, the heartbeat server
      and the device take part, as the inductive step relation \<open>rot_step\<close> over the Secret, the device's
      token, the copies of the Secret that a cached read may return, and the heartbeats in flight, with its
      invariant \<open>rot_inv\<close>; the steps of the program are runs of \<open>reconcileTokenRotation\<close>, \<open>validateToken\<close>
      and \<open>clearPreviousToken\<close>.
    \<^item> \<open>PhaseRuns\<close>: the versions of a deployment under runs that read a version at most \<open>lag\<close> writes old and
      merge their patch into the current one (\<open>dep_run\<close>), with a potential that bounds the phase changes.
      \<open>ConfigPush\<close>: two configuration pushes to a device that merges what it is sent for the keys it knows
      (\<open>config_device\<close>).
    \<^item> \<open>OtaRun\<close>: a whole update, from the creation of a deployment to Deployed, in a world in which the API
      server, the registry and the device answer (\<open>update_env\<close>): every run advances the phase and keeps the
      update \<open>on_track\<close>, whatever heartbeats come in meanwhile.
    \<^item> \<open>Fleet\<close>: the stored nodes under all their writers. \<open>fleet_run\<close> interleaves, one accepted patch at a time,
      overlapping runs of the two controllers and of the server with what users do; its specification is a
      \<open>register\<close> for each node that holds what the device last reported, \<open>tracks\<close> is the simulation relation,
      and the locale \<open>status_writer\<close>, interpreted on the three writers, is the contract that keeps it.
    \<^item> \<open>Binding\<close>: the deployments of a namespace under real runs of the dispatcher, with a cache that lags
      (\<open>namespace_run\<close>, whose invariant is \<open>exclusive\<close>). \<open>ProgressProps\<close>: \<open>persists\<close>, a run that asks for
      another unless the job is over, the timed runs of the node controller, and the deadlines of HTTP.
      \<open>Credentials\<close>: which address and which token a request has, \<open>to_device\<close> and \<open>to_registry\<close>.
    \<^item> \<open>TestBed\<close>: a concrete environment for the examples. \<open>DeploymentProps\<close>, \<open>TransferProps\<close>, \<open>NodeProps\<close>,
      \<open>ApiProps\<close>, \<open>RotationProps\<close>, \<open>UpdateProps\<close>, \<open>SystemProps\<close> (properties that span the two controllers
      and the server), \<open>Binding\<close>, \<open>Credentials\<close>, \<open>ProgressProps\<close>, \<open>PhaseRuns\<close> and \<open>ConfigPush\<close> hold the properties C1 to C40, with examples, and
      some further theorems.

  \<^bold>\<open>What is proved.\<close>

    \<^item> Deployments: a run makes only the calls its phase allows and moves along the phase relation (C1), the
      phase of a deployment changes a bounded number of times, also with stale reads (C5), and no deployment is dropped on the way
      (C6), an update in which everything answers completes in six runs (C4), Deployed implies a
      confirmation by the device (C2, C25), which goes back to
      an authenticated heartbeat of that device (C3), a heartbeat with that confirmation completes the
      deployment (C15), Confirming has a deadline (C26), the conditions agree (C27), two live deployments
      never share a node as long as lists are current (C16), configuration is checked, filtered and pushed
      until the device shows it (C22, C34), and every exchange but the upload of the firmware has the deadline
      of its destination, device or registry (C28).
    \<^item> Firmware: the transfer sends slices of the blob in ranges of 64 KiB, ends, and stores the blob (C8,
      C29), a deployment leaves Writing for Activating only with the blob on its device (C7); digests and signatures (C14, C30); references (C38).
    \<^item> Nodes: heartbeats and logs are authenticated on every path of the server (C12, C36), a device writes its
      own node only, with the values it sent (C11), a silent log connection is dropped (C37), readiness and
      traffic follow the age of the heartbeat (C18, C19) and are withdrawn within twenty seconds (C17),
      certificates, deletion and the gauges (C31 to C33).
    \<^item> Composition: the stored status of a node is the last accepted report, however the writers interleave
      (C10), a run on an outdated node is refused before it acts (C20), every status sent conforms to the CRD (C24), the program's
      two ends agree on the token (C35), and a device keeps a token that the stored Secret accepts through all
      rotations (C9, C21); tokens and the password of the registry are sent to their owners only (C13). Both
      provisos of C9 are needed: a withdrawal of the previous token that arrives late locks the device out
      (C39), and so does a heartbeat validated against an old copy (\<open>stale_copy_locks_out\<close>).
    \<^item> Deep copies are equal to their source and share no memory with it (C23).
    \<^item> C39, C40 and some theorems beside the properties state behaviour that looks unintended: a cache that is
      one write behind lets two deployments take one node (C40), an API error that ends a deployment, a
      digest check that is skipped, an empty firmware that is activated, a compatibility check of the device
      against itself, a node that becomes ready with an unsynchronised clock, series that outlive a node, an
      unauthenticated log connection kept open by pongs.

  \<^bold>\<open>Termination and bounds.\<close> No definition takes fuel. The loop of \<open>putOTAChunk\<close> recurses over its three
  attempts; \<open>OTAWrite_loop\<close> and \<open>readFull\<close> terminate because every pass takes at least one byte or one
  delivered segment from the blob stream; the WebSocket loop recurses over the events of the connection. A
  client-go retry runs as often as its backoff allows (\<open>retry_law\<close>). In \<open>dep_run\<close> the number of writes a
  read may be behind is a parameter; the bound of C5 is proportional to it.

  \<^bold>\<open>Assumptions.\<close> Hypotheses of some properties, all documented behaviour of the libraries or of the
  device protocol, with instances in \<open>TestBed\<close> or beside the example: \<open>cond_laws\<close> (SetStatusCondition and
  FindStatusCondition), \<open>retry_law\<close> (RetryOnConflict), \<open>patch_echo\<close> and \<open>annotation_echo\<close> (a successful
  patch returns what was sent), \<open>device_law\<close> (the device applies the ranges it acknowledges), \<open>update_env\<close>
  (cluster, registry and device answer, for C4 only), \<open>get_law\<close> and \<open>patch_keys\<close> (an object read or patched
  is the one that was asked for), \<open>node_patch_law\<close> (the API server merges status patches and refuses a
  locked one whose base is not current), \<open>meta_lib_ok\<close> (apimachinery's metadata copies are
  deep copies), \<open>rot_env\<close> and \<open>rot_delivers\<close> (the API server merges patches of a Secret, and a cache holds copies
  that were stored once; for C21 only, nothing is lost and reads are current), \<open>config_device\<close> (a device
  merges the pairs whose keys it knows and shows its store). C20 assumes that the API server refuses a locked
  patch or an update whose resource version has been replaced; C33 that no heartbeat has been handled while a
  removal was under way.

  \<^bold>\<open>Not modelled.\<close> The listening socket, TLS and the passing of time inside an HTTP exchange (the deadlines
  are data of the requests); log lines of the controllers themselves (those of the server that carry a
  device's log entries are modelled); the work queue and leader election of controller-runtime, of which
  only what is registered with it appears, and its scheme builder; the rounding of \<open>metav1.Time\<close> to seconds
  when a status is stored (a timestamp is kept as it was sent, so an age can be off by less than a second); CRD validation by the API server, which
  the theorems do not rely on; manifests, tests and documentation. A run of a handler is one transition:
  between its calls other writers appear as arbitrary answers of the environment, in \<open>Fleet\<close> as patches
  between its patches, in the histories of \<open>DeploymentSpec\<close>, \<open>PhaseRuns\<close> and \<open>Binding\<close> as edits and other runs between
  runs, and in \<open>TokenRotation\<close> as steps between the reading of a request and its handling.
\<close>

end
